theory Spec2Isabelle
  imports Main "HOL-Library.AList"
begin

section \<open>Text and regular expressions\<close>

text \<open>
  JavaScript strings are modelled as \<^typ>\<open>string\<close>: a character stands for the code unit
  with the same number, so the model covers texts whose code units are below 256.
  The regular expressions of \<^verbatim>\<open>jsonParser.js\<close> are sequences of literals, quantified
  character classes, an alternation of literals and the end anchor; they are written here
  as lists of such items and matched with JavaScript's backtracking discipline (leftmost
  match, greedy quantifiers that give characters back one at a time).  A match returns the
  text matched by each item, from which the replacement is built.
\<close>

datatype cclass =
    Ch char             \<comment> \<open>a single character\<close>
  | OneOf string        \<comment> \<open>\<^verbatim>\<open>[...]\<close>\<close>
  | NoneOf string       \<comment> \<open>\<^verbatim>\<open>[^...]\<close>\<close>
  | Space               \<comment> \<open>\<^verbatim>\<open>\s\<close>\<close>
  | Word                \<comment> \<open>\<^verbatim>\<open>\w\<close>\<close>

definition is_space :: "char \<Rightarrow> bool" where
  "is_space c \<longleftrightarrow> c \<in> set [CHR 0x09, CHR 0x0A, CHR 0x0B, CHR 0x0C, CHR 0x0D, CHR 0x20, CHR 0xA0]"

definition is_digit :: "char \<Rightarrow> bool" where
  "is_digit c \<longleftrightarrow> c \<in> set ''0123456789''"

definition is_word :: "char \<Rightarrow> bool" where
  "is_word c \<longleftrightarrow>
     c \<in> set ''abcdefghijklmnopqrstuvwxyzABCDEFGHIJKLMNOPQRSTUVWXYZ0123456789_''"

fun cmatch :: "cclass \<Rightarrow> char \<Rightarrow> bool" where
  "cmatch (Ch d) c = (c = d)"
| "cmatch (OneOf ds) c = (c \<in> set ds)"
| "cmatch (NoneOf ds) c = (c \<notin> set ds)"
| "cmatch Space c = is_space c"
| "cmatch Word c = is_word c"

datatype rx_item =
    Lit string                       \<comment> \<open>a literal run of characters\<close>
  | Rep cclass nat "nat option"      \<comment> \<open>a class repeated at least \<open>lo\<close> and at most \<open>hi\<close> times\<close>
  | Alt "string list"                \<comment> \<open>\<^verbatim>\<open>(a|b)\<close> over literals\<close>
  | Eos                              \<comment> \<open>\<^verbatim>\<open>$\<close>\<close>

abbreviation One :: "cclass \<Rightarrow> rx_item" where "One c \<equiv> Rep c 1 (Some 1)"
abbreviation Star :: "cclass \<Rightarrow> rx_item" where "Star c \<equiv> Rep c 0 None"
abbreviation Plus :: "cclass \<Rightarrow> rx_item" where "Plus c \<equiv> Rep c 1 None"
abbreviation Opt :: "cclass \<Rightarrow> rx_item" where "Opt c \<equiv> Rep c 0 (Some 1)"

fun first_some :: "('a \<Rightarrow> 'b option) \<Rightarrow> 'a list \<Rightarrow> 'b option" where
  "first_some f [] = None"
| "first_some f (x # xs) = (case f x of Some y \<Rightarrow> Some y | None \<Rightarrow> first_some f xs)"

fun downto :: "nat \<Rightarrow> nat \<Rightarrow> nat list" where
  "downto 0 lo = (if lo = 0 then [0] else [])"
| "downto (Suc n) lo = (if Suc n < lo then [] else Suc n # downto n lo)"

fun rx_match :: "rx_item list \<Rightarrow> string \<Rightarrow> string list option" where
  "rx_match [] s = Some []"
| "rx_match (Lit l # r) s =
     (if take (length l) s = l then map_option ((#) l) (rx_match r (drop (length l) s))
      else None)"
| "rx_match (Eos # r) s = (if s = [] then map_option ((#) []) (rx_match r s) else None)"
| "rx_match (Alt ls # r) s =
     first_some (\<lambda>l. if take (length l) s = l
                      then map_option ((#) l) (rx_match r (drop (length l) s)) else None) ls"
| "rx_match (Rep c lo hi # r) s =
     (let m = length (takeWhile (cmatch c) (case hi of None \<Rightarrow> s | Some h \<Rightarrow> take h s))
      in first_some (\<lambda>n. map_option ((#) (take n s)) (rx_match r (drop n s))) (downto m lo))"

text \<open>\<^verbatim>\<open>regex.test(s)\<close>: is there a match starting anywhere in \<open>s\<close>.\<close>

fun rx_test :: "rx_item list \<Rightarrow> string \<Rightarrow> bool" where
  "rx_test r [] = (rx_match r [] \<noteq> None)"
| "rx_test r (c # cs) = (rx_match r (c # cs) \<noteq> None \<or> rx_test r cs)"

text \<open>
  \<^verbatim>\<open>s.replace(/r/g, f)\<close>: every match, found from left to right and never overlapping, is
  replaced by \<open>f\<close> of its groups; after an empty match the scan moves on by one character.
\<close>

fun replace_all :: "rx_item list \<Rightarrow> (string list \<Rightarrow> string) \<Rightarrow> string \<Rightarrow> string" where
  "replace_all r f [] = (case rx_match r [] of Some gs \<Rightarrow> f gs | None \<Rightarrow> [])"
| "replace_all r f (c # cs) =
     (case rx_match r (c # cs) of
        None \<Rightarrow> c # replace_all r f cs
      | Some gs \<Rightarrow>
          (let n = length (concat gs)
           in if n = 0 then f gs @ c # replace_all r f cs
              else f gs @ replace_all r f (drop (n - 1) cs)))"

text \<open>\<^verbatim>\<open>s.replace(/r/, f)\<close> without the global flag: the first match only.\<close>

fun replace_first :: "rx_item list \<Rightarrow> (string list \<Rightarrow> string) \<Rightarrow> string \<Rightarrow> string" where
  "replace_first r f [] = (case rx_match r [] of Some gs \<Rightarrow> f gs | None \<Rightarrow> [])"
| "replace_first r f (c # cs) =
     (case rx_match r (c # cs) of
        None \<Rightarrow> c # replace_first r f cs
      | Some gs \<Rightarrow> f gs @ drop (length (concat gs)) (c # cs))"

text \<open>\<^verbatim>\<open>s.replace(/literal/g, '')\<close> and the like, for a literal pattern.\<close>

definition replace_lit :: "string \<Rightarrow> string \<Rightarrow> string \<Rightarrow> string" where
  "replace_lit pat rep s = replace_all [Lit pat] (\<lambda>_. rep) s"


section \<open>The text normaliser of \<^verbatim>\<open>parseJSON\<close>\<close>

abbreviation dq :: char where "dq \<equiv> CHR 0x22"
abbreviation sq :: char where "sq \<equiv> CHR 0x27"
abbreviation nl :: char where "nl \<equiv> CHR 0x0A"

definition indexOf :: "string \<Rightarrow> char \<Rightarrow> nat option" where
  "indexOf s c = (if c \<in> set s then Some (length (takeWhile (\<lambda>d. d \<noteq> c) s)) else None)"

definition lastIndexOf :: "string \<Rightarrow> char \<Rightarrow> nat option" where
  "lastIndexOf s c =
     (if c \<in> set s then Some (length s - 1 - length (takeWhile (\<lambda>d. d \<noteq> c) (rev s)))
      else None)"

definition substring :: "string \<Rightarrow> nat \<Rightarrow> nat \<Rightarrow> string" where
  \<comment> \<open>\<^verbatim>\<open>s.substring(a, b)\<close> for \<open>a \<le> b\<close>\<close>
  "substring s a b = take (b - a) (drop a s)"

definition extractJSONString :: "string \<Rightarrow> string" where
  "extractJSONString inputText =
     (case (indexOf inputText CHR ''{'', lastIndexOf inputText CHR ''}'') of
        (Some firstBrace, Some lastBrace) \<Rightarrow>
          if lastBrace \<le> firstBrace then inputText
          else substring inputText firstBrace (lastBrace + 1)
      | _ \<Rightarrow> inputText)"

text \<open>The chain of rewrites of \<^verbatim>\<open>cleanText\<close>, one definition per \<^verbatim>\<open>.replace\<close>, in source order.\<close>

definition fix_trailing_comma_bracket :: "string \<Rightarrow> string" where
  \<comment> \<open>\<^verbatim>\<open>.replace(/,\s*]/g, ']')\<close>\<close>
  "fix_trailing_comma_bracket = replace_all [Lit '','', Star Space, Lit '']''] (\<lambda>_. '']'')"

definition fix_trailing_comma_brace :: "string \<Rightarrow> string" where
  \<comment> \<open>\<^verbatim>\<open>.replace(/,\s*}/g, '}')\<close>\<close>
  "fix_trailing_comma_brace = replace_all [Lit '','', Star Space, Lit ''}''] (\<lambda>_. ''}'')"

definition quote_keys :: "string \<Rightarrow> string" where
  \<comment> \<open>\<^verbatim>\<open>.replace(/([{,]\s*)(\w+)(\s*:)/g, '$1"$2"$3')\<close>\<close>
  "quote_keys =
     replace_all [One (OneOf ''{,''), Star Space, Plus Word, Star Space, Lit '':'']
       (\<lambda>gs. gs ! 0 @ gs ! 1 @ [dq] @ gs ! 2 @ [dq] @ gs ! 3 @ gs ! 4)"

definition fix_single_quotes :: "string \<Rightarrow> string" where
  \<comment> \<open>\<^verbatim>\<open>.replace(/:\s*'([^']*)'/g, ':"$1"')\<close>\<close>
  "fix_single_quotes =
     replace_all [Lit '':'', Star Space, Lit [sq], Star (NoneOf [sq]), Lit [sq]]
       (\<lambda>gs. '':'' @ [dq] @ gs ! 3 @ [dq])"

definition fix_undefined :: "string \<Rightarrow> string" where
  \<comment> \<open>\<^verbatim>\<open>.replace(/:\s*undefined/g, ':null')\<close>\<close>
  "fix_undefined = replace_all [Lit '':'', Star Space, Lit ''undefined''] (\<lambda>_. '':null'')"

definition fix_NaN :: "string \<Rightarrow> string" where
  \<comment> \<open>\<^verbatim>\<open>.replace(/:\s*NaN/g, ':0')\<close>\<close>
  "fix_NaN = replace_all [Lit '':'', Star Space, Lit ''NaN''] (\<lambda>_. '':0'')"

definition comma_brace_brace :: "string \<Rightarrow> string" where
  \<comment> \<open>\<^verbatim>\<open>.replace(/}\s*{/g, '},{')\<close>\<close>
  "comma_brace_brace = replace_all [Lit ''}'', Star Space, Lit ''{''] (\<lambda>_. ''},{'')"

definition comma_bracket_brace :: "string \<Rightarrow> string" where
  \<comment> \<open>\<^verbatim>\<open>.replace(/]\s*{/g, '],[')\<close>\<close>
  "comma_bracket_brace = replace_all [Lit '']'', Star Space, Lit ''{''] (\<lambda>_. ''],['')"

definition comma_brace_bracket :: "string \<Rightarrow> string" where
  \<comment> \<open>\<^verbatim>\<open>.replace(/}\s*\[/g, '},')\<close>\<close>
  "comma_brace_bracket = replace_all [Lit ''}'', Star Space, Lit ''[''] (\<lambda>_. ''},'')"

definition comma_bracket_bracket :: "string \<Rightarrow> string" where
  \<comment> \<open>\<^verbatim>\<open>.replace(/]\s*\[/g, '],')\<close>\<close>
  "comma_bracket_bracket = replace_all [Lit '']'', Star Space, Lit ''[''] (\<lambda>_. ''],'')"

definition collapse_braces :: "string \<Rightarrow> string" where
  \<comment> \<open>\<^verbatim>\<open>.replace(/}+}/g, '}}')\<close>\<close>
  "collapse_braces = replace_all [Plus (Ch CHR ''}''), Lit ''}''] (\<lambda>_. ''}}'')"

definition collapse_brackets :: "string \<Rightarrow> string" where
  \<comment> \<open>\<^verbatim>\<open>.replace(/]+]/g, ']]')\<close>\<close>
  "collapse_brackets = replace_all [Plus (Ch CHR '']''), Lit '']''] (\<lambda>_. '']]'')"

definition collapse_braces_bracket :: "string \<Rightarrow> string" where
  \<comment> \<open>\<^verbatim>\<open>.replace(/}+]/g, '}]')\<close>\<close>
  "collapse_braces_bracket = replace_all [Plus (Ch CHR ''}''), Lit '']''] (\<lambda>_. ''}]'')"

definition split_brace_brace :: "string \<Rightarrow> string" where
  \<comment> \<open>\<^verbatim>\<open>.replace(/}{/g, '},{')\<close>\<close>
  "split_brace_brace = replace_all [Lit ''}{''] (\<lambda>_. ''},{'')"

definition split_bracket_bracket :: "string \<Rightarrow> string" where
  \<comment> \<open>\<^verbatim>\<open>.replace(/]\[/g, '],[')\<close>\<close>
  "split_bracket_bracket = replace_all [Lit ''][''] (\<lambda>_. ''],['')"

definition fix_truncated_end :: "string \<Rightarrow> string" where
  \<comment> \<open>\<^verbatim>\<open>.replace(/([^}])\s*$/g, (match, p1) => ...)\<close>\<close>
  "fix_truncated_end =
     replace_all [One (NoneOf ''}''), Star Space, Eos]
       (\<lambda>gs. let p1 = gs ! 0
             in if p1 = ''{'' \<or> p1 = ''['' \<or> p1 = '','' \<or> p1 = '':'' then p1 @ ''null''
                else concat gs)"

definition syntax_rewrites :: "string \<Rightarrow> string" where
  "syntax_rewrites cleaned =
     fix_truncated_end (split_bracket_bracket (split_brace_brace
       (collapse_braces_bracket (collapse_brackets (collapse_braces
         (comma_bracket_bracket (comma_brace_bracket (comma_bracket_brace (comma_brace_brace
           (fix_NaN (fix_undefined (fix_single_quotes (quote_keys
             (fix_trailing_comma_brace (fix_trailing_comma_bracket cleaned)))))))))))))))"

text \<open>Appending the closers that the delimiter counts say are missing.\<close>

definition balance_closers :: "string \<Rightarrow> string" where
  "balance_closers t =
     (let opened = count_list t CHR ''{''; closed = count_list t CHR ''}'';
          t1 = (if opened > closed then t @ replicate (opened - closed) CHR ''}'' else t);
          sqo = count_list t CHR ''[''; sqc = count_list t CHR '']''
      in if sqo > sqc then t1 @ replicate (sqo - sqc) CHR '']'' else t1)"

definition fixComparisonDataStructure :: "string \<Rightarrow> string \<Rightarrow> string" where
  "fixComparisonDataStructure text type =
     (let fixed = text;
          fixed =
            (if type = ''comparison'' \<or> type = ''countryComparison'' then
               (let fixed' =
                  (if rx_test [Lit ([dq] @ ''rolesSalaries'' @ [dq]), Star Space, Lit '':'',
                               Star Space, Lit ''['', Star Space, Lit ''{'',
                               Star (NoneOf ''}]''), Eos] fixed
                   then fixed @ ''}]'' else fixed)
                in replace_all [Lit ''}'', Star Space, Lit ''{'']
                     (\<lambda>gs. ''},'' @ [nl] @ gs ! 1 @ ''{'') fixed')
             else fixed);
          fixed =
            (if type = ''comparison'' \<or> type = ''roleComparison'' then
               (let fixed' =
                  (if rx_test [Lit ([dq] @ ''requiredSkills'' @ [dq]), Star Space, Lit '':'',
                               Star Space, Lit ''['', Star Space, Lit [dq],
                               Star (NoneOf ([dq] @ '']'')), Eos] fixed
                   then fixed @ [dq] @ '']'' else fixed)
                in replace_all [Lit [dq], Star Space, Lit [dq]]
                     (\<lambda>gs. [dq] @ '','' @ [nl] @ gs ! 1 @ [dq]) fixed')
             else fixed)
      in fixed)"

definition cleanText :: "string \<Rightarrow> string \<Rightarrow> string" where
  "cleanText dataType inputText =
     (let cleaned = replace_lit ''```'' [] (replace_lit ''```json'' [] inputText);
          cleaned = extractJSONString cleaned;
          cleaned = syntax_rewrites cleaned;
          cleaned =
            (if dataType = ''comparison'' \<or> dataType = ''countryComparison''
                \<or> dataType = ''roleComparison''
             then fixComparisonDataStructure cleaned dataType else cleaned)
      in balance_closers cleaned)"


section \<open>JavaScript values and \<^verbatim>\<open>JSON.parse\<close>\<close>

text \<open>
  The values that \<^verbatim>\<open>JSON.parse\<close> builds and the services then read and update.  An object
  is the list of its own properties in the order of their creation; \<^verbatim>\<open>Object.keys\<close> and
  \<^verbatim>\<open>JSON.stringify\<close> enumerate them with the array indices first (\<open>own_props\<close> below).
  An array carries its elements and,
  since JavaScript lets a named property be assigned to an array, the list of such named
  properties (empty for a freshly parsed array).  A number \<open>JNum m e\<close> is the decimal
  \<open>m \<times> 10\<^sup>e\<close> of its literal, normalised: an integer is \<open>JNum m 0\<close>, any other number
  has \<open>e < 0\<close> and no trailing zero in \<open>m\<close>.  Equal numbers of the model are equal numbers
  of JavaScript (the rounding to a double is not modelled).
  \<^verbatim>\<open>undefined\<close>, the result of reading an absent property, is \<^const>\<open>None\<close> of
  \<^typ>\<open>'a option\<close>.
\<close>

datatype json =
    JNull
  | JBool bool
  | JNum int int
  | JStr string
  | JArr "json list" "(string \<times> json) list"
  | JObj "(string \<times> json) list"

datatype js_error =
    Error string
  | TypeError string
  | SyntaxError string

fun message :: "js_error \<Rightarrow> string" where
  "message (Error m) = m"
| "message (TypeError m) = m"
| "message (SyntaxError m) = m"

definition json_ws :: "char \<Rightarrow> bool" where
  "json_ws c \<longleftrightarrow> c \<in> set [CHR 0x20, CHR 0x09, CHR 0x0A, CHR 0x0D]"

definition skip_ws :: "string \<Rightarrow> string" where
  "skip_ws = dropWhile json_ws"

definition digit_val :: "char \<Rightarrow> nat" where
  "digit_val c = length (takeWhile (\<lambda>d. d \<noteq> c) ''0123456789'')"

definition digits_val :: "string \<Rightarrow> nat" where
  "digits_val ds = foldl (\<lambda>a c. 10 * a + digit_val c) 0 ds"

definition hex_val :: "char \<Rightarrow> nat option" where
  "hex_val c =
     (if c \<in> set ''0123456789'' then Some (digit_val c)
      else if c \<in> set ''abcdef'' then Some (10 + length (takeWhile (\<lambda>d. d \<noteq> c) ''abcdef''))
      else if c \<in> set ''ABCDEF'' then Some (10 + length (takeWhile (\<lambda>d. d \<noteq> c) ''ABCDEF''))
      else None)"

definition hex4 :: "string \<Rightarrow> nat option" where
  "hex4 hs =
     (case map hex_val hs of
        [Some a, Some b, Some c, Some d] \<Rightarrow> Some (((a * 16 + b) * 16 + c) * 16 + d)
      | _ \<Rightarrow> None)"

definition simple_escape :: "char \<Rightarrow> char option" where
  "simple_escape e =
     (if e = dq then Some dq
      else if e = CHR 0x5C then Some (CHR 0x5C)
      else if e = CHR ''/'' then Some CHR ''/''
      else if e = CHR ''b'' then Some (CHR 0x08)
      else if e = CHR ''f'' then Some (CHR 0x0C)
      else if e = CHR ''n'' then Some (CHR 0x0A)
      else if e = CHR ''r'' then Some (CHR 0x0D)
      else if e = CHR ''t'' then Some (CHR 0x09)
      else None)"

text \<open>
  The characters of a string literal after its opening quote, up to the closing quote.
  A \<^verbatim>\<open>\u\<close> escape of a code unit above 255 has no counterpart in \<^typ>\<open>char\<close> and is
  rejected: texts with such escapes are outside the model.
\<close>

fun parse_string :: "string \<Rightarrow> (string \<times> string) option" where
  "parse_string [] = None"
| "parse_string (c # cs) =
     (if c = dq then Some ([], cs)
      else if c = CHR 0x5C then
        (case cs of
           [] \<Rightarrow> None
         | e # r \<Rightarrow>
             if e = CHR ''u'' then
               (case hex4 (take 4 r) of
                  None \<Rightarrow> None
                | Some n \<Rightarrow>
                    if n < 256
                    then map_option (\<lambda>(t, rest). (char_of n # t, rest)) (parse_string (drop 4 r))
                    else None)
             else
               (case simple_escape e of
                  None \<Rightarrow> None
                | Some d \<Rightarrow> map_option (\<lambda>(t, rest). (d # t, rest)) (parse_string r)))
      else if (of_char c :: nat) < 32 then None
      else map_option (\<lambda>(t, rest). (c # t, rest)) (parse_string cs))"

definition mk_num :: "bool \<Rightarrow> string \<Rightarrow> int \<Rightarrow> json" where
  "mk_num neg ds e =
     (let z = length (takeWhile (\<lambda>c. c = CHR ''0'') (rev ds));
          m = int (digits_val (take (length ds - z) ds));
          m = (if neg then - m else m);
          e = e + int z
      in if m = 0 then JNum 0 0
         else if 0 \<le> e then JNum (m * 10 ^ nat e) 0
         else JNum m e)"

definition parse_exponent :: "string \<Rightarrow> (int \<times> string) option" where
  "parse_exponent s =
     (case s of
        [] \<Rightarrow> Some (0, s)
      | c # r \<Rightarrow>
          if c = CHR ''e'' \<or> c = CHR ''E'' then
            (let (sgn, r1) =
                   (case r of
                      [] \<Rightarrow> (1, r)
                    | d # r' \<Rightarrow> if d = CHR ''+'' then (1, r')
                               else if d = CHR ''-'' then (- 1, r') else (1, r));
                 ed = takeWhile is_digit r1
             in if ed = [] then None
                else Some (sgn * int (digits_val ed), dropWhile is_digit r1))
          else Some (0, s))"

definition parse_fraction :: "string \<Rightarrow> (string \<times> string) option" where
  "parse_fraction s =
     (case s of
        [] \<Rightarrow> Some ([], s)
      | c # r \<Rightarrow>
          if c = CHR ''.'' then
            (let fd = takeWhile is_digit r
             in if fd = [] then None else Some (fd, dropWhile is_digit r))
          else Some ([], s))"

definition parse_number :: "string \<Rightarrow> (json \<times> string) option" where
  "parse_number s =
     (let (neg, s1) =
            (case s of [] \<Rightarrow> (False, s)
             | c # r \<Rightarrow> if c = CHR ''-'' then (True, r) else (False, s));
          ip = takeWhile is_digit s1
      in if ip = [] \<or> (1 < length ip \<and> hd ip = CHR ''0'') then None
         else
           (case parse_fraction (dropWhile is_digit s1) of
              None \<Rightarrow> None
            | Some (fd, s2) \<Rightarrow>
                (case parse_exponent s2 of
                   None \<Rightarrow> None
                 | Some (ex, s3) \<Rightarrow> Some (mk_num neg (ip @ fd) (ex - int (length fd)), s3))))"

definition parse_literal :: "string \<Rightarrow> (json \<times> string) option" where
  "parse_literal s =
     (if take 4 s = ''true'' then Some (JBool True, drop 4 s)
      else if take 5 s = ''false'' then Some (JBool False, drop 5 s)
      else if take 4 s = ''null'' then Some (JNull, drop 4 s)
      else parse_number s)"

lemma skip_ws_length: "length (skip_ws s) \<le> length s"
  by (simp add: skip_ws_def length_dropWhile_le)

lemma skip_ws_Cons_length: "skip_ws s = c # r \<Longrightarrow> length r < length s"
  using skip_ws_length [of s] by simp

lemma parse_string_length: "parse_string s = Some (t, r) \<Longrightarrow> length r < length s"
proof (induction s arbitrary: t r rule: parse_string.induct)
  case 1
  then show ?case by simp
next
  case (2 c cs)
  then show ?case
    by (fastforce split: if_splits list.splits option.splits)
qed

text \<open>
  The recursive descent over values, array elements and object members.  The length tests
  on what a sub-parser leaves always succeed; they make the recursion visibly terminating.
  A repeated key keeps its first position and takes the last value, as in JavaScript.
\<close>

function parse_value :: "string \<Rightarrow> (json \<times> string) option"
  and parse_elems :: "json list \<Rightarrow> string \<Rightarrow> (json \<times> string) option"
  and parse_members :: "(string \<times> json) list \<Rightarrow> string \<Rightarrow> (json \<times> string) option"
where
  "parse_value s =
     (case skip_ws s of
        [] \<Rightarrow> None
      | c # r \<Rightarrow>
          if c = CHR ''{'' then
            (case skip_ws r of
               [] \<Rightarrow> None
             | d # r' \<Rightarrow> if d = CHR ''}'' then Some (JObj [], r') else parse_members [] (d # r'))
          else if c = CHR ''['' then
            (case skip_ws r of
               [] \<Rightarrow> None
             | d # r' \<Rightarrow> if d = CHR '']'' then Some (JArr [] [], r') else parse_elems [] (d # r'))
          else if c = dq then map_option (\<lambda>(t, rest). (JStr t, rest)) (parse_string r)
          else parse_literal (c # r))"
| "parse_elems acc s =
     (case parse_value s of
        None \<Rightarrow> None
      | Some (v, r) \<Rightarrow>
          if length r < length s then
            (case skip_ws r of
               [] \<Rightarrow> None
             | d # r' \<Rightarrow>
                 if d = CHR '','' then parse_elems (acc @ [v]) r'
                 else if d = CHR '']'' then Some (JArr (acc @ [v]) [], r')
                 else None)
          else None)"
| "parse_members acc s =
     (case skip_ws s of
        [] \<Rightarrow> None
      | c # r \<Rightarrow>
          if c \<noteq> dq then None
          else
            (case parse_string r of
               None \<Rightarrow> None
             | Some (k, r1) \<Rightarrow>
                 (case skip_ws r1 of
                    [] \<Rightarrow> None
                  | d # r2 \<Rightarrow>
                      if d \<noteq> CHR '':'' then None
                      else
                        (case parse_value r2 of
                           None \<Rightarrow> None
                         | Some (v, r3) \<Rightarrow>
                             if length r3 < length r2 then
                               (case skip_ws r3 of
                                  [] \<Rightarrow> None
                                | e # r4 \<Rightarrow>
                                    if e = CHR '','' then parse_members (AList.update k v acc) r4
                                    else if e = CHR ''}''
                                    then Some (JObj (AList.update k v acc), r4)
                                    else None)
                             else None))))"
  by pat_completeness auto
termination
proof (relation "measure (\<lambda>x. case x of
          Inl s \<Rightarrow> 2 * length s
        | Inr (Inl (acc, s)) \<Rightarrow> 2 * length s + 1
        | Inr (Inr (acc, s)) \<Rightarrow> 2 * length s + 1)", goal_cases)
  case 1
  then show ?case by simp
next
  case (2 s c r d r')
  then show ?case
    using skip_ws_Cons_length [of s c r] skip_ws_length [of r] by simp
next
  case (3 s c r d r')
  then show ?case
    using skip_ws_Cons_length [of s c r] skip_ws_length [of r] by simp
next
  case (4 acc s)
  then show ?case by simp
next
  case (5 acc s x v r d r')
  then show ?case
    using skip_ws_Cons_length [of r d r'] by simp
next
  case (6 acc s c r x k r1 d r2)
  then show ?case
    using skip_ws_Cons_length [of s c r] parse_string_length [of r k r1]
      skip_ws_Cons_length [of r1 d r2] by simp
next
  case (7 acc s c r x k r1 d r2 y v r3 e r4)
  then show ?case
    using skip_ws_Cons_length [of s c r] parse_string_length [of r k r1]
      skip_ws_Cons_length [of r1 d r2] skip_ws_Cons_length [of r3 e r4] by simp
qed

declare parse_value.simps [simp del] parse_elems.simps [simp del] parse_members.simps [simp del]

definition JSON_parse_opt :: "string \<Rightarrow> json option" where
  "JSON_parse_opt s =
     (case parse_value s of
        None \<Rightarrow> None
      | Some (v, r) \<Rightarrow> if skip_ws r = [] then Some v else None)"


section \<open>\<^verbatim>\<open>parseJSON\<close>: the layered parser\<close>

text \<open>
  What the module takes from outside: the libraries \<^verbatim>\<open>json5\<close> and \<^verbatim>\<open>jsonrepair\<close>, the
  engine's wording of a syntax error and its printing of numbers.  A library call either
  throws (\<open>Inl\<close> of the error's message) or returns.  Console logging is not modelled.
\<close>

record env =
  syntax_error :: "string \<Rightarrow> string"
  JSON5_parse :: "string \<Rightarrow> string + json"
  jsonrepair :: "string \<Rightarrow> string + string"
  num_to_string :: "int \<Rightarrow> int \<Rightarrow> string"

definition JSON_parse :: "'a env_scheme \<Rightarrow> string \<Rightarrow> js_error + json" where
  "JSON_parse env s =
     (case JSON_parse_opt s of
        Some v \<Rightarrow> Inr v
      | None \<Rightarrow> Inl (SyntaxError (syntax_error env s)))"

definition JSON_parse_msg :: "'a env_scheme \<Rightarrow> string \<Rightarrow> string + json" where
  \<comment> \<open>\<^verbatim>\<open>JSON.parse\<close> inside a \<^verbatim>\<open>try\<close> whose \<^verbatim>\<open>catch\<close> keeps \<^verbatim>\<open>error.message\<close>\<close>
  "JSON_parse_msg env s = (case JSON_parse env s of Inl e \<Rightarrow> Inl (message e) | Inr v \<Rightarrow> Inr v)"

definition method1 :: "'a env_scheme \<Rightarrow> string \<Rightarrow> string + json" where
  "method1 env cleanedText = JSON_parse_msg env cleanedText"

definition method2 :: "'a env_scheme \<Rightarrow> string \<Rightarrow> string + json" where
  "method2 env cleanedText = JSON5_parse env cleanedText"

definition method3 :: "'a env_scheme \<Rightarrow> string \<Rightarrow> string + json" where
  "method3 env cleanedText =
     (case jsonrepair env cleanedText of
        Inl m \<Rightarrow> Inl m
      | Inr repaired \<Rightarrow> JSON_parse_msg env repaired)"

definition ends_after_property_name :: "rx_item list" where
  \<comment> \<open>\<^verbatim>\<open>/[{,]\s*"[^"]+"\s*:(\s*)$/\<close>\<close>
  "ends_after_property_name =
     [One (OneOf ''{,''), Star Space, Lit [dq], Plus (NoneOf [dq]), Lit [dq], Star Space,
      Lit '':'', Star Space, Eos]"

definition ends_with_comma :: "rx_item list" where
  \<comment> \<open>\<^verbatim>\<open>/,\s*$/\<close>\<close>
  "ends_with_comma = [Lit '','', Star Space, Eos]"

definition method4 :: "'a env_scheme \<Rightarrow> string \<Rightarrow> string + json" where
  "method4 env cleanedText =
     (let fixedText = cleanedText;
          fixedText = (if rx_test ends_after_property_name fixedText
                       then fixedText @ ''null'' else fixedText);
          fixedText = (if rx_test ends_with_comma fixedText
                       then replace_first ends_with_comma (\<lambda>_. []) fixedText else fixedText)
      in JSON_parse_msg env fixedText)"

definition rolesSalariesRegex :: "rx_item list" where
  \<comment> \<open>\<^verbatim>\<open>/"rolesSalaries"\s*:\s*\[\s*{[^}]*}\s*$/\<close>\<close>
  "rolesSalariesRegex =
     [Lit ([dq] @ ''rolesSalaries'' @ [dq]), Star Space, Lit '':'', Star Space, Lit ''['',
      Star Space, Lit ''{'', Star (NoneOf ''}''), Lit ''}'', Star Space, Eos]"

text \<open>Methods 5 to 7 attempt nothing (\<^const>\<open>None\<close>) when their trigger pattern is absent.\<close>

definition method5 :: "'a env_scheme \<Rightarrow> string \<Rightarrow> (string + json) option" where
  "method5 env cleanedText =
     (if rx_test rolesSalariesRegex cleanedText
      then Some (JSON_parse_msg env (balance_closers (cleanedText @ '']'')))
      else None)"

definition nestedObjectRegex :: "rx_item list" where
  \<comment> \<open>\<^verbatim>\<open>/"(currentCountry|targetCountry)"\s*:\s*{[^}]*}\s*}+\s*]?\s*]?\s*}?\s*$/\<close>\<close>
  "nestedObjectRegex =
     [Lit [dq], Alt [''currentCountry'', ''targetCountry''], Lit [dq], Star Space, Lit '':'',
      Star Space, Lit ''{'', Star (NoneOf ''}''), Lit ''}'', Star Space, Plus (Ch CHR ''}''),
      Star Space, Opt (Ch CHR '']''), Star Space, Opt (Ch CHR '']''), Star Space,
      Opt (Ch CHR ''}''), Star Space, Eos]"

definition method6 :: "'a env_scheme \<Rightarrow> string \<Rightarrow> (string + json) option" where
  "method6 env cleanedText =
     (if rx_test nestedObjectRegex cleanedText
      then Some (JSON_parse_msg env (balance_closers cleanedText))
      else None)"

definition multipleClosingBracesRegex :: "rx_item list" where
  \<comment> \<open>\<^verbatim>\<open>/}+\]+$/\<close>\<close>
  "multipleClosingBracesRegex = [Plus (Ch CHR ''}''), Plus (Ch CHR '']''), Eos]"

text \<open>
  The scan of method 7: the four running counts, and a closer that exceeds its opener's
  count is deleted (its count is taken back).
\<close>

fun remove_extra_closers :: "nat \<Rightarrow> nat \<Rightarrow> nat \<Rightarrow> nat \<Rightarrow> string \<Rightarrow> string" where
  "remove_extra_closers ob cb os cs [] = []"
| "remove_extra_closers ob cb os cs (c # r) =
     (if c = CHR ''{'' then c # remove_extra_closers (ob + 1) cb os cs r
      else if c = CHR ''['' then c # remove_extra_closers ob cb (os + 1) cs r
      else if c = CHR ''}'' then
        (if cb + 1 > ob then remove_extra_closers ob cb os cs r
         else c # remove_extra_closers ob (cb + 1) os cs r)
      else if c = CHR '']'' then
        (if cs + 1 > os then remove_extra_closers ob cb os cs r
         else c # remove_extra_closers ob cb os (cs + 1) r)
      else c # remove_extra_closers ob cb os cs r)"

definition method7 :: "'a env_scheme \<Rightarrow> string \<Rightarrow> (string + json) option" where
  "method7 env cleanedText =
     (if rx_test multipleClosingBracesRegex cleanedText
      then Some (JSON_parse_msg env (remove_extra_closers 0 0 0 0 cleanedText))
      else None)"

text \<open>
  The methods run in order; the first that returns ends the run, a method that throws
  adds its name and message to \<^verbatim>\<open>attempts\<close>.
\<close>

fun try_methods ::
  "(string \<times> (string + json) option) list \<Rightarrow> (string \<times> string) list
     \<Rightarrow> (string \<times> string) list + json" where
  "try_methods [] attempts = Inl attempts"
| "try_methods ((name, None) # ms) attempts = try_methods ms attempts"
| "try_methods ((name, Some (Inr result)) # ms) attempts = Inr result"
| "try_methods ((name, Some (Inl msg)) # ms) attempts =
     try_methods ms (attempts @ [(name, msg)])"

definition run_methods :: "'a env_scheme \<Rightarrow> string \<Rightarrow> string \<Rightarrow> (string \<times> string) list + json" where
  "run_methods env dataType text =
     (let cleanedText = cleanText dataType text
      in try_methods
           [(''JSON.parse'', Some (method1 env cleanedText)),
            (''JSON5'', Some (method2 env cleanedText)),
            (''jsonrepair'', Some (method3 env cleanedText)),
            (''truncation-fixing'', Some (method4 env cleanedText)),
            (''rolesSalaries-fixing'', method5 env cleanedText),
            (''nested-objects-fixing'', method6 env cleanedText),
            (''multiple-closing-braces-fixing'', method7 env cleanedText)] [])"

fun join :: "string \<Rightarrow> string list \<Rightarrow> string" where
  "join sep [] = []"
| "join sep [x] = x"
| "join sep (x # y # ys) = x @ sep @ join sep (y # ys)"

fun show_nat :: "nat \<Rightarrow> string" where
  "show_nat n =
     (if n < 10 then [''0123456789'' ! n]
      else show_nat (n div 10) @ [''0123456789'' ! (n mod 10)])"

declare show_nat.simps [simp del]

text \<open>
  The order in which JavaScript enumerates the own properties of an object: first the
  keys that are array indices (the canonical decimal numerals below \<open>2\<^sup>3\<^sup>2 - 1\<close>) in
  ascending numeric order, then the other keys in the order of their creation.
\<close>

definition array_index :: "string \<Rightarrow> int option" where
  "array_index k =
     (if k \<noteq> [] \<and> list_all is_digit k \<and> (k = ''0'' \<or> hd k \<noteq> CHR ''0'')
         \<and> int (digits_val k) < 4294967295
      then Some (int (digits_val k)) else None)"

definition own_props :: "(string \<times> 'a) list \<Rightarrow> (string \<times> 'a) list" where
  "own_props ps =
     sort_key (\<lambda>(k, v). the (array_index k)) (filter (\<lambda>(k, v). array_index k \<noteq> None) ps)
     @ filter (\<lambda>(k, v). array_index k = None) ps"

text \<open>
  \<^verbatim>\<open>Object.keys(v)\<close>: the own enumerable property names; it throws a \<^verbatim>\<open>TypeError\<close> (here
  \<^const>\<open>None\<close>) on \<^verbatim>\<open>null\<close>.
\<close>

fun Object_keys :: "json \<Rightarrow> string list option" where
  "Object_keys JNull = None"
| "Object_keys (JBool b) = Some []"
| "Object_keys (JNum m e) = Some []"
| "Object_keys (JStr s) = Some (map show_nat [0..<length s])"
| "Object_keys (JArr xs ps) = Some (map show_nat [0..<length xs] @ map fst ps)"
| "Object_keys (JObj ps) = Some (map fst (own_props ps))"

record options =
  verbose :: bool
  fallbackData :: "json option"
  dataType :: "string option"

definition default_options :: options where
  "default_options = \<lparr>verbose = False, fallbackData = None, dataType = None\<rparr>"

definition all_failed_error :: "(string \<times> string) list \<Rightarrow> js_error" where
  "all_failed_error attempts =
     Error (''All JSON parsing methods failed: ''
            @ join ''; '' (map (\<lambda>(name, msg). name @ '': '' @ msg) attempts))"

text \<open>The destructuring defaults of \<^verbatim>\<open>const { fallbackData = {}, dataType = 'general' } = options\<close>.\<close>

definition fallback_of :: "options \<Rightarrow> json" where
  "fallback_of opts = (case fallbackData opts of None \<Rightarrow> JObj [] | Some d \<Rightarrow> d)"

definition dataType_of :: "options \<Rightarrow> string" where
  "dataType_of opts = (case dataType opts of None \<Rightarrow> ''general'' | Some t \<Rightarrow> t)"

definition parseJSON :: "'a env_scheme \<Rightarrow> string \<Rightarrow> options \<Rightarrow> js_error + json" where
  "parseJSON env text opts =
     (case run_methods env (dataType_of opts) text of
        Inr result \<Rightarrow> Inr result
      | Inl attempts \<Rightarrow>
          (case Object_keys (fallback_of opts) of
             None \<Rightarrow> Inl (TypeError ''Cannot convert undefined or null to object'')
           | Some ks \<Rightarrow>
               if length ks > 0 then Inr (fallback_of opts)
               else Inl (all_failed_error attempts)))"

section \<open>Reading and updating JavaScript values\<close>

fun truthy :: "json \<Rightarrow> bool" where
  "truthy JNull = False"
| "truthy (JBool b) = b"
| "truthy (JNum m e) = (m \<noteq> 0)"
| "truthy (JStr s) = (s \<noteq> [])"
| "truthy (JArr xs ps) = True"
| "truthy (JObj ps) = True"

fun truthy_opt :: "json option \<Rightarrow> bool" where
  "truthy_opt None = False"
| "truthy_opt (Some v) = truthy v"

fun typeof :: "json option \<Rightarrow> string" where
  "typeof None = ''undefined''"
| "typeof (Some JNull) = ''object''"
| "typeof (Some (JBool b)) = ''boolean''"
| "typeof (Some (JNum m e)) = ''number''"
| "typeof (Some (JStr s)) = ''string''"
| "typeof (Some (JArr xs ps)) = ''object''"
| "typeof (Some (JObj ps)) = ''object''"

fun isArray :: "json option \<Rightarrow> bool" where
  "isArray (Some (JArr xs ps)) = True"
| "isArray _ = False"

text \<open>\<^verbatim>\<open>v && typeof v === 'object'\<close>: an object or an array.\<close>

fun is_object :: "json \<Rightarrow> bool" where
  "is_object (JArr xs ps) = True"
| "is_object (JObj ps) = True"
| "is_object _ = False"

text \<open>
  \<^verbatim>\<open>v.k\<close> for a value that is not \<^verbatim>\<open>null\<close> and a property name \<open>k\<close> of the services (none
  of them is an index, \<^verbatim>\<open>length\<close> or a name of a prototype): the own property, if any.
\<close>

fun get_prop :: "json \<Rightarrow> string \<Rightarrow> json option" where
  "get_prop (JObj ps) k = map_of ps k"
| "get_prop (JArr xs ps) k = map_of ps k"
| "get_prop _ k = None"

text \<open>\<^verbatim>\<open>v.k = x\<close> on an object or an array: the property keeps its place or is added last.\<close>

fun put_prop :: "json \<Rightarrow> string \<Rightarrow> json \<Rightarrow> json" where
  "put_prop (JObj ps) k x = JObj (AList.update k x ps)"
| "put_prop (JArr xs ps) k x = JArr xs (AList.update k x ps)"
| "put_prop v k x = v"

text \<open>
  The same read and assignment where the source does not guard them.  The services are ES
  modules, hence strict code: assigning a property to a primitive value throws.
\<close>

definition read_prop :: "json \<Rightarrow> string \<Rightarrow> js_error + json option" where
  "read_prop v k =
     (if v = JNull then Inl (TypeError (''Cannot read properties of null (reading '' @ k @ '')''))
      else Inr (get_prop v k))"

definition set_prop :: "json \<Rightarrow> string \<Rightarrow> json \<Rightarrow> js_error + json" where
  "set_prop v k x =
     (if is_object v then Inr (put_prop v k x)
      else if v = JNull then Inl (TypeError (''Cannot set properties of null (setting '' @ k @ '')''))
      else Inl (TypeError (''Cannot create property '' @ k)))"

definition bind :: "'e + 'a \<Rightarrow> ('a \<Rightarrow> 'e + 'b) \<Rightarrow> 'e + 'b" where
  "bind r f = (case r of Inl e \<Rightarrow> Inl e | Inr x \<Rightarrow> f x)"

fun map_result :: "('a \<Rightarrow> 'e + 'b) \<Rightarrow> 'a list \<Rightarrow> 'e + 'b list" where
  "map_result f [] = Inr []"
| "map_result f (x # xs) =
     (case f x of
        Inl e \<Rightarrow> Inl e
      | Inr y \<Rightarrow> (case map_result f xs of Inl e \<Rightarrow> Inl e | Inr ys \<Rightarrow> Inr (y # ys)))"

fun fold_result :: "('s \<Rightarrow> 'a \<Rightarrow> 'e + 's) \<Rightarrow> 's \<Rightarrow> 'a list \<Rightarrow> 'e + 's" where
  "fold_result f s [] = Inr s"
| "fold_result f s (x # xs) = (case f s x of Inl e \<Rightarrow> Inl e | Inr s' \<Rightarrow> fold_result f s' xs)"


section \<open>\<^verbatim>\<open>validateComparisonData\<close>\<close>

text \<open>
  The validator reads the parsed object and, in the \<^verbatim>\<open>forEach\<close> over the cities, assigns
  to it.  The object comes from \<^verbatim>\<open>parseJSON\<close>, so it is a tree without sharing, and the
  assignment in place is the update of the tree along the path to the city.  The validator
  returns its report and the object as it has become.
\<close>

record validation =
  isComplete :: bool
  missingFields :: "string list"

fun validateCities :: "string \<Rightarrow> nat \<Rightarrow> json list \<Rightarrow> string list \<times> json list" where
  "validateCities country index [] = ([], [])"
| "validateCities country index (city # rest) =
     (let (missing, city') =
            (if \<not> truthy city \<or> typeof (Some city) \<noteq> ''object'' then
               ([''countrySalaryComparison.'' @ country @ ''.topCities['' @ show_nat index
                   @ ''] is not a valid object''], city)
             else if \<not> isArray (get_prop city ''rolesSalaries'') then
               ([''countrySalaryComparison.'' @ country @ ''.topCities['' @ show_nat index
                   @ ''].rolesSalaries is not an array''],
                put_prop city ''rolesSalaries'' (JArr [] []))
             else ([], city));
          (missing', rest') = validateCities country (index + 1) rest
      in (missing @ missing', city' # rest'))"

definition validateCountry :: "string \<Rightarrow> string \<Rightarrow> json \<Rightarrow> string list \<times> json" where
  "validateCountry country expected csc =
     (case get_prop csc country of
        None \<Rightarrow> ([''countrySalaryComparison.'' @ country], csc)
      | Some c \<Rightarrow>
          if \<not> truthy c then ([''countrySalaryComparison.'' @ country], csc)
          else
            (let nameMissing =
                   (if get_prop c ''name'' \<noteq> Some (JStr expected)
                    then [''countrySalaryComparison.'' @ country @ ''.name (expected: ''
                            @ expected @ '')'']
                    else [])
             in case get_prop c ''topCities'' of
                  Some (JArr cities ex) \<Rightarrow>
                    if length cities = 0
                    then (nameMissing @ [''countrySalaryComparison.'' @ country @ ''.topCities''], csc)
                    else
                      (let (missing, cities') = validateCities country 0 cities
                       in (nameMissing @ missing,
                           put_prop csc country (put_prop c ''topCities'' (JArr cities' ex))))
                | _ \<Rightarrow> (nameMissing @ [''countrySalaryComparison.'' @ country @ ''.topCities''], csc)))"

definition validateRole :: "string \<Rightarrow> string \<Rightarrow> json \<Rightarrow> string list" where
  "validateRole role expected rc =
     (case get_prop rc role of
        None \<Rightarrow> [''roleComparison.'' @ role]
      | Some r \<Rightarrow>
          if \<not> truthy r then [''roleComparison.'' @ role]
          else
            (if get_prop r ''title'' \<noteq> Some (JStr expected)
             then [''roleComparison.'' @ role @ ''.title (expected: '' @ expected @ '')'']
             else [])
            @ (case get_prop r ''requiredSkills'' of
                 Some (JArr skills ex) \<Rightarrow>
                   if length skills = 0 then [''roleComparison.'' @ role @ ''.requiredSkills'']
                   else []
               | _ \<Rightarrow> [''roleComparison.'' @ role @ ''.requiredSkills'']))"

definition validateRoleComparison :: "json \<Rightarrow> string \<Rightarrow> string \<Rightarrow> string list" where
  "validateRoleComparison data currentRole targetRole =
     (if \<not> truthy_opt (get_prop data ''roleComparison'') then [''roleComparison'']
      else
        (let rc = the (get_prop data ''roleComparison'')
         in validateRole ''currentRole'' currentRole rc
            @ validateRole ''targetRole'' targetRole rc
            @ (if \<not> isArray (get_prop rc ''skillGaps'') then [''roleComparison.skillGaps'']
               else [])
            @ (if \<not> isArray (get_prop rc ''transferableSkills'')
               then [''roleComparison.transferableSkills''] else [])))"

definition validateSalaryExpectation :: "json \<Rightarrow> string list" where
  "validateSalaryExpectation data =
     (if \<not> truthy_opt (get_prop data ''salaryExpectationAnalysis'')
      then [''salaryExpectationAnalysis'']
      else
        (let sa = the (get_prop data ''salaryExpectationAnalysis'')
         in (if typeof (get_prop sa ''isRealistic'') \<noteq> ''boolean''
             then [''salaryExpectationAnalysis.isRealistic''] else [])
            @ (if typeof (get_prop sa ''percentile'') \<noteq> ''number''
               then [''salaryExpectationAnalysis.percentile''] else [])
            @ (if \<not> truthy_opt (get_prop sa ''recommendation'')
               then [''salaryExpectationAnalysis.recommendation''] else [])))"

definition validateCountries :: "json \<Rightarrow> string \<Rightarrow> string \<Rightarrow> string list \<times> json" where
  "validateCountries data currentCountry targetCountry =
     (if \<not> truthy_opt (get_prop data ''countrySalaryComparison'')
      then ([''countrySalaryComparison''], data)
      else
        (let csc = the (get_prop data ''countrySalaryComparison'');
             (missing1, csc1) = validateCountry ''currentCountry'' currentCountry csc;
             (missing2, csc2) = validateCountry ''targetCountry'' targetCountry csc1
         in (missing1 @ missing2, put_prop data ''countrySalaryComparison'' csc2)))"

definition validateComparisonData ::
  "json \<Rightarrow> string \<Rightarrow> string \<Rightarrow> string \<Rightarrow> string \<Rightarrow> validation \<times> json" where
  "validateComparisonData data currentCountry targetCountry currentRole targetRole =
     (if \<not> truthy data
      then (\<lparr>isComplete = False, missingFields = [''entire data structure'']\<rparr>, data)
      else
        (let (missing1, data) = validateCountries data currentCountry targetCountry;
             missing = missing1 @ validateRoleComparison data currentRole targetRole
                         @ validateSalaryExpectation data
         in (\<lparr>isComplete = (length missing = 0), missingFields = missing\<rparr>, data)))"


section \<open>\<^verbatim>\<open>generateComparisonInsights\<close>: the retry loop\<close>

text \<open>
  The service around the parser: the API key, the generation call and the clock.  The
  \<open>n\<close>-th call of \<^verbatim>\<open>model.generateContent\<close> in an invocation either throws or yields the
  text of its response; the prompt is the same in every call and is not modelled, nor is
  the pause between attempts.  The fields of \<^verbatim>\<open>userData\<close> are strings or absent.
\<close>

record service = env +
  GEMINI_API_KEY :: string
  generateContent :: "nat \<Rightarrow> js_error + string"
  toISOString :: string

record userData =
  currentCountry :: "string option"
  targetCountry :: "string option"
  currentRole :: "string option"
  targetRole :: "string option"

definition or_default :: "string option \<Rightarrow> string \<Rightarrow> string" where
  \<comment> \<open>\<^verbatim>\<open>x || d\<close>\<close>
  "or_default x d = (case x of None \<Rightarrow> d | Some s \<Rightarrow> if s = [] then d else s)"

definition MAX_RETRIES :: nat where
  "MAX_RETRIES = 3"

text \<open>
  One attempt, the \<^verbatim>\<open>try\<close> block of the loop body with its \<^verbatim>\<open>catch\<close>: the \<open>n\<close>-th
  generation call, the parse and the validation.  It yields the new \<^verbatim>\<open>data\<close> and
  \<^verbatim>\<open>isComplete\<close>; an attempt that throws, in the call or in the parser, leaves \<^verbatim>\<open>data\<close>
  as it was.
\<close>

definition attempt :: "service \<Rightarrow> userData \<Rightarrow> nat \<Rightarrow> json \<Rightarrow> json \<times> bool" where
  "attempt sv ud n data =
     (case generateContent sv n of
        Inl e \<Rightarrow> (data, False)
      | Inr text \<Rightarrow>
          (case parseJSON sv text \<lparr>verbose = True, fallbackData = None, dataType = None\<rparr> of
             Inl e \<Rightarrow> (data, False)
           | Inr parsed \<Rightarrow>
               (let (validationResult, data') =
                      validateComparisonData parsed
                        (or_default (currentCountry ud) ''US'')
                        (or_default (targetCountry ud) ''US'')
                        (or_default (currentRole ud) ''Software Developer'')
                        (or_default (targetRole ud) ''Software Developer'')
                in (data', isComplete validationResult))))"

text \<open>
  The loop \<^verbatim>\<open>while (attempts < MAX_RETRIES && !isComplete)\<close>.  Its state: \<^verbatim>\<open>attempts\<close>,
  the number of generation calls made so far, \<^verbatim>\<open>data\<close> and \<^verbatim>\<open>isComplete\<close>.
\<close>

function retry_loop ::
  "service \<Rightarrow> userData \<Rightarrow> nat \<Rightarrow> nat \<Rightarrow> json \<Rightarrow> bool \<Rightarrow> nat \<times> nat \<times> json \<times> bool" where
  "retry_loop sv ud attempts calls data complete =
     (if attempts < MAX_RETRIES \<and> \<not> complete then
        (let attempts = attempts + 1;
             calls = calls + 1;
             (data, complete) = attempt sv ud calls data
         in retry_loop sv ud attempts calls data complete)
      else (attempts, calls, data, complete))"
  by pat_completeness auto
termination
  by (relation "measure (\<lambda>(sv, ud, attempts, calls, data, complete). MAX_RETRIES - attempts)")
    auto

declare retry_loop.simps [simp del]

definition default_role :: "string \<Rightarrow> json" where
  "default_role title =
     JObj [(''title'', JStr title), (''requiredSkills'', JArr [] []), (''avgSalary'', JNum 0 0),
           (''growthOutlook'', JStr ''Neutral''), (''demandLevel'', JStr ''Medium'')]"

definition default_roleComparison :: "string \<Rightarrow> string \<Rightarrow> json" where
  "default_roleComparison current target =
     JObj [(''currentRole'', default_role current), (''targetRole'', default_role target),
           (''skillGaps'', JArr [] []), (''transferableSkills'', JArr [] [])]"

definition default_salaryExpectationAnalysis :: json where
  "default_salaryExpectationAnalysis =
     JObj [(''isRealistic'', JBool True), (''differenceFromMedian'', JNum 0 0),
           (''percentile'', JNum 50 0),
           (''recommendation'', JStr ''No salary analysis available. Please try again later.'')]"

text \<open>The block \<^verbatim>\<open>if (!isComplete) { ... }\<close> after the loop.\<close>

definition backfill :: "string \<Rightarrow> string \<Rightarrow> json \<Rightarrow> js_error + json" where
  "backfill current target data =
     bind (read_prop data ''roleComparison'') (\<lambda>rc.
     bind (if \<not> truthy_opt rc
           then set_prop data ''roleComparison'' (default_roleComparison current target)
           else Inr data) (\<lambda>data.
     bind (read_prop data ''salaryExpectationAnalysis'') (\<lambda>sa.
       if \<not> truthy_opt sa
       then set_prop data ''salaryExpectationAnalysis'' default_salaryExpectationAnalysis
       else Inr data)))"

definition meta :: "service \<Rightarrow> nat \<Rightarrow> bool \<Rightarrow> json" where
  "meta sv attempts complete =
     JObj [(''generatedAt'', JStr (toISOString sv)), (''source'', JStr ''Gemini AI''),
           (''attempts'', JNum (int attempts) 0), (''isComplete'', JBool complete)]"

text \<open>The result: the number of generation calls made, and what is returned or thrown.\<close>

definition generateComparisonInsights :: "service \<Rightarrow> userData \<Rightarrow> nat \<times> (js_error + json)" where
  "generateComparisonInsights sv ud =
     (if GEMINI_API_KEY sv = [] then (0, Inl (Error ''API key configuration error''))
      else
        (let (attempts, calls, data, complete) = retry_loop sv ud 0 0 JNull False
         in (calls,
             bind (if \<not> complete
                   then backfill (or_default (currentRole ud) ''Software Developer'')
                          (or_default (targetRole ud) ''Software Developer'') data
                   else Inr data) (\<lambda>data.
             set_prop data ''_meta'' (meta sv attempts complete)))))"


section \<open>\<^verbatim>\<open>JSON.stringify\<close>\<close>

definition hex_digit :: "nat \<Rightarrow> char" where
  "hex_digit n = ''0123456789abcdef'' ! (n mod 16)"

definition escape_char :: "char \<Rightarrow> string" where
  "escape_char c =
     (if c = dq then [CHR 0x5C, dq]
      else if c = CHR 0x5C then [CHR 0x5C, CHR 0x5C]
      else if c = CHR 0x08 then [CHR 0x5C, CHR ''b'']
      else if c = CHR 0x0C then [CHR 0x5C, CHR ''f'']
      else if c = CHR 0x0A then [CHR 0x5C, CHR ''n'']
      else if c = CHR 0x0D then [CHR 0x5C, CHR ''r'']
      else if c = CHR 0x09 then [CHR 0x5C, CHR ''t'']
      else if (of_char c :: nat) < 32
      then [CHR 0x5C, CHR ''u'', CHR ''0'', CHR ''0'',
            hex_digit (of_char c div 16), hex_digit (of_char c)]
      else [c])"

definition quote :: "string \<Rightarrow> string" where
  "quote s = [dq] @ concat (map escape_char s) @ [dq]"

text \<open>
  The compact serialisation (no indentation).  The properties of an object are written in
  the order of \<^const>\<open>own_props\<close>; the named properties of an array are not serialised.
\<close>

fun JSON_stringify :: "'a env_scheme \<Rightarrow> json \<Rightarrow> string"
  and stringify_elems :: "'a env_scheme \<Rightarrow> json list \<Rightarrow> string list"
  and stringify_props :: "'a env_scheme \<Rightarrow> (string \<times> json) list \<Rightarrow> (string \<times> string) list"
where
  "JSON_stringify env JNull = ''null''"
| "JSON_stringify env (JBool b) = (if b then ''true'' else ''false'')"
| "JSON_stringify env (JNum m e) = num_to_string env m e"
| "JSON_stringify env (JStr s) = quote s"
| "JSON_stringify env (JArr xs ps) = ''['' @ join '','' (stringify_elems env xs) @ '']''"
| "JSON_stringify env (JObj ps) =
     ''{'' @ join '','' (map snd (own_props (stringify_props env ps))) @ ''}''"
| "stringify_elems env [] = []"
| "stringify_elems env (x # xs) = JSON_stringify env x # stringify_elems env xs"
| "stringify_props env [] = []"
| "stringify_props env ((k, v) # ps) =
     (k, quote k @ '':'' @ JSON_stringify env v) # stringify_props env ps"


section \<open>\<^verbatim>\<open>generateIndustryInsights\<close>: validation and backfill\<close>

text \<open>
  \<^verbatim>\<open>String(v)\<close>.  An object is converted through its \<^verbatim>\<open>toString\<close>: an own property of
  that name, which in a parsed value is never a function, hides the inherited method, and
  the conversion throws a \<^verbatim>\<open>TypeError\<close>.  An array is the join of its elements, \<^verbatim>\<open>null\<close>
  elements giving the empty string.
\<close>

fun js_String :: "'a env_scheme \<Rightarrow> json \<Rightarrow> js_error + string"
  and js_String_elems :: "'a env_scheme \<Rightarrow> json list \<Rightarrow> js_error + string list"
where
  "js_String env JNull = Inr ''null''"
| "js_String env (JBool b) = Inr (if b then ''true'' else ''false'')"
| "js_String env (JNum m e) = Inr (num_to_string env m e)"
| "js_String env (JStr s) = Inr s"
| "js_String env (JObj ps) =
     (if map_of ps ''toString'' \<noteq> None
      then Inl (TypeError ''Cannot convert object to primitive value'')
      else Inr ''[object Object]'')"
| "js_String env (JArr xs ps) =
     (if map_of ps ''toString'' \<noteq> None
      then Inl (TypeError ''Cannot convert object to primitive value'')
      else if map_of ps ''join'' \<noteq> None then Inr ''[object Array]''
      else (case js_String_elems env xs of Inl e \<Rightarrow> Inl e | Inr ss \<Rightarrow> Inr (join '','' ss)))"
| "js_String_elems env [] = Inr []"
| "js_String_elems env (x # xs) =
     (case (if x = JNull then Inr [] else js_String env x) of
        Inl e \<Rightarrow> Inl e
      | Inr t \<Rightarrow> (case js_String_elems env xs of Inl e \<Rightarrow> Inl e | Inr ss \<Rightarrow> Inr (t # ss)))"

definition trim :: "string \<Rightarrow> string" where
  "trim t = rev (dropWhile is_space (rev (dropWhile is_space t)))"

definition clean_overview :: "string \<Rightarrow> string" where
  \<comment> \<open>\<^verbatim>\<open>.replace(/\\n/g, '\n').replace(/\\"/g, '"').replace(/\s+/g, ' ').trim()\<close>\<close>
  "clean_overview t =
     trim (replace_all [Plus Space] (\<lambda>_. '' '')
       (replace_all [Lit [CHR 0x5C, dq]] (\<lambda>_. [dq])
         (replace_all [Lit [CHR 0x5C, CHR ''n'']] (\<lambda>_. [nl]) t)))"

fun string_value :: "json \<Rightarrow> string" where
  "string_value (JStr t) = t"
| "string_value _ = []"

definition process_industryOverview :: "'a env_scheme \<Rightarrow> json \<Rightarrow> js_error + json" where
  "process_industryOverview env data =
     (if truthy_opt (get_prop data ''industryOverview'') then
        bind (let v = the (get_prop data ''industryOverview'')
              in if typeof (Some v) \<noteq> ''string'' then js_String env v
                 else Inr (string_value v)) (\<lambda>t.
        set_prop data ''industryOverview'' (JStr (clean_overview t)))
      else set_prop data ''industryOverview''
             (JStr ''Industry overview information not available.''))"

definition arrayFields :: "string list" where
  "arrayFields =
     [''marketDemand'', ''quickInsights'', ''topSkills'', ''citySalaryData'',
      ''skillBasedBoosts'', ''topCompanies'', ''recommendedCourses'',
      ''careerPathInsights'', ''emergingTrends'', ''nextActions'']"

definition number_or_string :: "json option \<Rightarrow> bool" where
  \<comment> \<open>\<^verbatim>\<open>typeof x === 'number' || typeof x === 'string'\<close>\<close>
  "number_or_string x \<longleftrightarrow> typeof x = ''number'' \<or> typeof x = ''string''"

text \<open>The predicates of the \<^verbatim>\<open>filter\<close> calls, one per field.\<close>

definition valid_quickInsight :: "json \<Rightarrow> bool" where
  "valid_quickInsight item \<longleftrightarrow>
     is_object item
     \<and> (truthy_opt (get_prop item ''title'') \<or> truthy_opt (get_prop item ''name''))
     \<and> (truthy_opt (get_prop item ''type'') \<or> truthy_opt (get_prop item ''category''))"

definition valid_marketDemand :: "json \<Rightarrow> bool" where
  "valid_marketDemand item \<longleftrightarrow>
     is_object item \<and> truthy_opt (get_prop item ''skill'')
     \<and> number_or_string (get_prop item ''demandScore'')"

definition valid_company :: "json \<Rightarrow> bool" where
  "valid_company item \<longleftrightarrow> is_object item \<and> truthy_opt (get_prop item ''name'')"

definition valid_city :: "json \<Rightarrow> bool" where
  "valid_city item \<longleftrightarrow>
     is_object item \<and> truthy_opt (get_prop item ''city'')
     \<and> number_or_string (get_prop item ''avgSalary'')"

definition valid_roleSalary :: "json \<Rightarrow> bool" where
  "valid_roleSalary role \<longleftrightarrow>
     is_object role \<and> truthy_opt (get_prop role ''role'')
     \<and> number_or_string (get_prop role ''minSalary'')
     \<and> number_or_string (get_prop role ''medianSalary'')
     \<and> number_or_string (get_prop role ''maxSalary'')"

definition valid_careerPath :: "json \<Rightarrow> bool" where
  "valid_careerPath item \<longleftrightarrow>
     is_object item \<and> truthy_opt (get_prop item ''title'')
     \<and> truthy_opt (get_prop item ''description'')"

definition valid_trend :: "json \<Rightarrow> bool" where
  "valid_trend item \<longleftrightarrow>
     is_object item \<and> truthy_opt (get_prop item ''name'')
     \<and> truthy_opt (get_prop item ''description'')"

definition valid_course :: "json \<Rightarrow> bool" where
  "valid_course item \<longleftrightarrow>
     is_object item \<and> truthy_opt (get_prop item ''name'')
     \<and> truthy_opt (get_prop item ''platform'')"

definition valid_boost :: "json \<Rightarrow> bool" where
  "valid_boost item \<longleftrightarrow>
     is_object item \<and> truthy_opt (get_prop item ''skill'')
     \<and> number_or_string (get_prop item ''salaryIncrease'')"

text \<open>
  The \<^verbatim>\<open>map\<close> over a company's roles: a string stays, an object gives the string of its
  first truthy \<^verbatim>\<open>name\<close>, \<^verbatim>\<open>title\<close> or \<^verbatim>\<open>role\<close>, or else of its serialisation, anything
  else is converted.
\<close>

definition role_to_string :: "'a env_scheme \<Rightarrow> json \<Rightarrow> js_error + string" where
  "role_to_string env role =
     (case role of
        JStr t \<Rightarrow> Inr t
      | _ \<Rightarrow>
          if is_object role then
            js_String env
              (if truthy_opt (get_prop role ''name'') then the (get_prop role ''name'')
               else if truthy_opt (get_prop role ''title'') then the (get_prop role ''title'')
               else if truthy_opt (get_prop role ''role'') then the (get_prop role ''role'')
               else JStr (JSON_stringify env role))
          else js_String env role)"

definition fix_company :: "'a env_scheme \<Rightarrow> json \<Rightarrow> js_error + json" where
  "fix_company env company =
     (case get_prop company ''roles'' of
        Some (JArr roles ex) \<Rightarrow>
          bind (map_result (role_to_string env) roles) (\<lambda>names.
          Inr (put_prop company ''roles'' (JArr (map JStr names) [])))
      | _ \<Rightarrow> Inr (put_prop company ''roles'' (JArr [] [])))"

definition fix_city :: "json \<Rightarrow> json" where
  "fix_city city =
     (case get_prop city ''rolesSalaries'' of
        Some (JArr roles ex) \<Rightarrow>
          put_prop city ''rolesSalaries'' (JArr (filter valid_roleSalary roles) [])
      | _ \<Rightarrow> put_prop city ''rolesSalaries'' (JArr [] []))"

text \<open>The body of \<^verbatim>\<open>arrayFields.forEach\<close> for one field.\<close>

definition process_field :: "'a env_scheme \<Rightarrow> json \<Rightarrow> string \<Rightarrow> js_error + json" where
  "process_field env data field =
     (case get_prop data field of
        Some (JArr items ex) \<Rightarrow>
          if field = ''quickInsights''
          then set_prop data field (JArr (filter valid_quickInsight items) [])
          else if field = ''marketDemand''
          then set_prop data field (JArr (filter valid_marketDemand items) [])
          else if field = ''topCompanies''
          then bind (map_result (fix_company env) (filter valid_company items)) (\<lambda>companies.
               set_prop data field (JArr companies []))
          else if field = ''citySalaryData''
          then set_prop data field (JArr (map fix_city (filter valid_city items)) [])
          else if field = ''careerPathInsights''
          then set_prop data field (JArr (filter valid_careerPath items) [])
          else if field = ''emergingTrends''
          then set_prop data field (JArr (filter valid_trend items) [])
          else if field = ''recommendedCourses''
          then set_prop data field (JArr (filter valid_course items) [])
          else if field = ''skillBasedBoosts''
          then set_prop data field (JArr (filter valid_boost items) [])
          else Inr data
      | _ \<Rightarrow> set_prop data field (JArr [] []))"

definition default_expectedSalaryRange :: json where
  "default_expectedSalaryRange =
     JObj [(''min'', JNum 80000 0), (''max'', JNum 120000 0), (''currency'', JStr ''USD'')]"

definition ensure_expectedSalaryRange :: "json \<Rightarrow> js_error + json" where
  "ensure_expectedSalaryRange data =
     (if \<not> truthy_opt (get_prop data ''expectedSalaryRange'')
         \<or> typeof (get_prop data ''expectedSalaryRange'') \<noteq> ''object''
      then set_prop data ''expectedSalaryRange'' default_expectedSalaryRange
      else Inr data)"

text \<open>
  The validation and backfill of \<^verbatim>\<open>generateIndustryInsights\<close>, from the test
  \<^verbatim>\<open>if (!data)\<close> to \<^verbatim>\<open>return data\<close>, applied to what \<^verbatim>\<open>parseJSON\<close> returned.
\<close>

definition validateInsights :: "'a env_scheme \<Rightarrow> json \<Rightarrow> js_error + json" where
  "validateInsights env data =
     (if \<not> truthy data then Inl (Error ''Empty data object after parsing'')
      else
        bind (process_industryOverview env data) (\<lambda>data.
        bind (fold_result (process_field env) data arrayFields) (\<lambda>data.
        ensure_expectedSalaryRange data)))"

text \<open>The fallback that \<^verbatim>\<open>generateIndustryInsights\<close> passes to \<^verbatim>\<open>parseJSON\<close>.\<close>

definition industry_fallbackData :: json where
  "industry_fallbackData =
     JObj [(''growthRate'', JNum 10 0), (''demandLevel'', JStr ''Medium''),
           (''topSkills'', JArr [] []),
           (''marketOutlook'', JStr ''Data unavailable due to parsing error''),
           (''industryOverview'',
            JStr ''Industry overview information not available due to parsing error.''),
           (''marketDemand'', JArr [] []),
           (''expectedSalaryRange'',
            JObj [(''min'', JNum 80000 0), (''max'', JNum 120000 0), (''currency'', JStr ''USD'')]),
           (''citySalaryData'', JArr [] []), (''skillBasedBoosts'', JArr [] []),
           (''topCompanies'', JArr [] []), (''recommendedCourses'', JArr [] []),
           (''careerPathInsights'', JArr [] []), (''emergingTrends'', JArr [] []),
           (''quickInsights'', JArr [] [])]"


section \<open>Notions used in the statements\<close>

text \<open>
  An environment for closed examples: both libraries reject every text, as the real ones
  do on the empty text, and numbers are printed in positional notation.
\<close>

definition show_number :: "int \<Rightarrow> int \<Rightarrow> string" where
  \<comment> \<open>the decimal \<open>m \<times> 10\<^sup>e\<close> for \<open>e \<le> 0\<close>, in plain positional notation\<close>
  "show_number m e =
     (let ds = show_nat (nat \<bar>m\<bar>);
          k = nat (- e);
          ds = replicate (k + 1 - length ds) CHR ''0'' @ ds
      in (if m < 0 then ''-'' else [])
         @ (if k = 0 then ds
            else take (length ds - k) ds @ ''.'' @ drop (length ds - k) ds))"

definition rejecting_env :: env where
  "rejecting_env =
     \<lparr>syntax_error = (\<lambda>_. ''Unexpected end of JSON input''),
      JSON5_parse = (\<lambda>_. Inl ''JSON5: invalid end of input''),
      jsonrepair = (\<lambda>_. Inl ''Unexpected end of json string''),
      num_to_string = show_number\<rparr>"

text \<open>
  The texts that \<^verbatim>\<open>cleanText\<close> has no reason to change.  \<open>rewrite_targets\<close> lists what
  the rewrites look for: the code fence, and the patterns of the \<^verbatim>\<open>.replace\<close> chain, where
  the three rules that collapse runs of closers are represented by the shortest runs they
  shorten (\<^verbatim>\<open>}}}\<close>, \<^verbatim>\<open>]]]\<close> and \<^verbatim>\<open>}}]\<close>) and the rule for a truncated end by the
  endings it completes.  A text is \<open>untouched\<close> when none of these occurs in it, when the
  extraction of the outermost braces has nothing to cut (the text starts with \<^verbatim>\<open>{\<close> and
  ends with \<^verbatim>\<open>}\<close>, or no \<^verbatim>\<open>}\<close> follows a \<^verbatim>\<open>{\<close>), and when it has no more opening than
  closing braces and brackets.  The delimiters are counted as characters, inside string
  values too.
\<close>

definition rewrite_targets :: "rx_item list list" where
  "rewrite_targets =
     [[Lit ''```''],
      [Lit '','', Star Space, Lit '']''],
      [Lit '','', Star Space, Lit ''}''],
      [One (OneOf ''{,''), Star Space, Plus Word, Star Space, Lit '':''],
      [Lit '':'', Star Space, Lit [sq], Star (NoneOf [sq]), Lit [sq]],
      [Lit '':'', Star Space, Lit ''undefined''],
      [Lit '':'', Star Space, Lit ''NaN''],
      [Lit ''}'', Star Space, Lit ''{''],
      [Lit '']'', Star Space, Lit ''{''],
      [Lit ''}'', Star Space, Lit ''[''],
      [Lit '']'', Star Space, Lit ''[''],
      [Lit ''}}}''],
      [Lit '']]]''],
      [Lit ''}}]''],
      [One (OneOf ''{[,:''), Star Space, Eos]]"

definition untouched :: "string \<Rightarrow> bool" where
  "untouched t \<longleftrightarrow>
     list_all (\<lambda>r. \<not> rx_test r t) rewrite_targets
     \<and> ((t \<noteq> [] \<and> hd t = CHR ''{'' \<and> last t = CHR ''}'')
        \<or> CHR ''}'' \<notin> set (dropWhile (\<lambda>c. c \<noteq> CHR ''{'') t))
     \<and> count_list t CHR ''{'' \<le> count_list t CHR ''}''
     \<and> count_list t CHR ''['' \<le> count_list t CHR '']''"

text \<open>
  The values that \<^verbatim>\<open>JSON.stringify\<close> writes and \<^verbatim>\<open>JSON.parse\<close> reads back: data as a
  parser builds it (an array without named properties, an object without a repeated key)
  whose numbers the engine prints as literals that read as the same number.
\<close>

fun serialisable :: "'a env_scheme \<Rightarrow> json \<Rightarrow> bool"
  and serialisable_list :: "'a env_scheme \<Rightarrow> json list \<Rightarrow> bool"
  and serialisable_props :: "'a env_scheme \<Rightarrow> (string \<times> json) list \<Rightarrow> bool"
where
  "serialisable env JNull = True"
| "serialisable env (JBool b) = True"
| "serialisable env (JNum m e) = (parse_number (num_to_string env m e) = Some (JNum m e, []))"
| "serialisable env (JStr s) = True"
| "serialisable env (JArr xs ps) = (ps = [] \<and> serialisable_list env xs)"
| "serialisable env (JObj ps) = (distinct (map fst ps) \<and> serialisable_props env ps)"
| "serialisable_list env [] = True"
| "serialisable_list env (x # xs) = (serialisable env x \<and> serialisable_list env xs)"
| "serialisable_props env [] = True"
| "serialisable_props env ((k, v) # ps) = (serialisable env v \<and> serialisable_props env ps)"

text \<open>
  The same value with the properties of every object listed in the order in which
  JavaScript enumerates them.  Nothing that a program can observe tells a value from its
  enumerated form: the model keeps the order of creation, which JavaScript does not show
  for array indices.
\<close>

fun enumerated :: "json \<Rightarrow> json"
  and enumerated_list :: "json list \<Rightarrow> json list"
  and enumerated_props :: "(string \<times> json) list \<Rightarrow> (string \<times> json) list"
where
  "enumerated JNull = JNull"
| "enumerated (JBool b) = JBool b"
| "enumerated (JNum m e) = JNum m e"
| "enumerated (JStr s) = JStr s"
| "enumerated (JArr xs ps) = JArr (enumerated_list xs) ps"
| "enumerated (JObj ps) = JObj (own_props (enumerated_props ps))"
| "enumerated_list [] = []"
| "enumerated_list (x # xs) = enumerated x # enumerated_list xs"
| "enumerated_props [] = []"
| "enumerated_props ((k, v) # ps) = (k, enumerated v) # enumerated_props ps"

text \<open>
  Two notions for the proof that a serialisation is read back: a text that may follow a
  number literal without extending it, and what the induction over a value carries (its
  serialisation begins with a character that starts a value, and is parsed to the
  enumerated value whatever follows).
\<close>

definition ends_number :: "string \<Rightarrow> bool" where
  "ends_number rest \<longleftrightarrow> rest = [] \<or> hd rest \<in> set '',]}''"

definition reads_back :: "'a env_scheme \<Rightarrow> json \<Rightarrow> bool" where
  "reads_back env v \<longleftrightarrow>
     (\<exists>c r. JSON_stringify env v = c # r \<and> \<not> json_ws c \<and> c \<noteq> CHR '']'' \<and> c \<noteq> CHR ''}'')
     \<and> (\<forall>rest. ends_number rest
            \<longrightarrow> parse_value (JSON_stringify env v @ rest) = Some (enumerated v, rest))"

text \<open>
  Services for closed examples, with the user's roles set to \<^verbatim>\<open>Dev\<close>: one whose generation
  call always throws, one that always answers \<^verbatim>\<open>{}\<close>, and one that answers \<^verbatim>\<open>{}\<close> first and
  a complete comparison on the second call.
\<close>

definition example_user :: userData where
  "example_user =
     \<lparr>currentCountry = None, targetCountry = None,
      currentRole = Some ''Dev'', targetRole = Some ''Dev''\<rparr>"

definition example_service :: "(nat \<Rightarrow> js_error + string) \<Rightarrow> service" where
  "example_service gen =
     \<lparr>syntax_error = (\<lambda>_. ''Unexpected end of JSON input''),
      JSON5_parse = (\<lambda>_. Inl ''JSON5: invalid end of input''),
      jsonrepair = (\<lambda>_. Inl ''Unexpected end of json string''),
      num_to_string = show_number,
      GEMINI_API_KEY = ''key'',
      generateContent = gen,
      toISOString = ''2025-01-01T00:00:00.000Z''\<rparr>"



definition complete_response :: string where
  "complete_response =
     ''{\"countrySalaryComparison\":{\"currentCountry\":{\"name\":\"US\",\"topCities\":[{\"rolesSalaries\":[]}]},''
     @ ''\"targetCountry\":{\"name\":\"US\",\"topCities\":[{\"rolesSalaries\":[]}]}},''
     @ ''\"roleComparison\":{\"currentRole\":{\"title\":\"Dev\",\"requiredSkills\":[\"x\"]},''
     @ ''\"targetRole\":{\"title\":\"Dev\",\"requiredSkills\":[\"y\"]},''
     @ ''\"skillGaps\":[],\"transferableSkills\":[]},''
     @ ''\"salaryExpectationAnalysis\":{\"isRealistic\":true,\"percentile\":50,\"recommendation\":\"ok\"}}''"

definition complete_data :: json where
  "complete_data =
     JObj [(''countrySalaryComparison'',
            JObj [(''currentCountry'',
                   JObj [(''name'', JStr ''US''),
                         (''topCities'', JArr [JObj [(''rolesSalaries'', JArr [] [])]] [])]),
                  (''targetCountry'',
                   JObj [(''name'', JStr ''US''),
                         (''topCities'', JArr [JObj [(''rolesSalaries'', JArr [] [])]] [])])]),
           (''roleComparison'',
            JObj [(''currentRole'',
                   JObj [(''title'', JStr ''Dev''), (''requiredSkills'', JArr [JStr ''x''] [])]),
                  (''targetRole'',
                   JObj [(''title'', JStr ''Dev''), (''requiredSkills'', JArr [JStr ''y''] [])]),
                  (''skillGaps'', JArr [] []), (''transferableSkills'', JArr [] [])]),
           (''salaryExpectationAnalysis'',
            JObj [(''isRealistic'', JBool True), (''percentile'', JNum 50 0),
                  (''recommendation'', JStr ''ok'')])]"

definition second_try_service :: service where
  "second_try_service =
     example_service (\<lambda>n. if n = 2 then Inr complete_response else Inr ''{}'')"


text \<open>Whether the \<open>n\<close>-th attempt yields data that validates as complete.\<close>

definition complete_attempt :: "service \<Rightarrow> userData \<Rightarrow> nat \<Rightarrow> bool" where
  "complete_attempt sv ud n = snd (attempt sv ud n JNull)"

text \<open>
  The change that the validator is claimed to make to its argument, written from the
  claim: in the \<^verbatim>\<open>topCities\<close> of \<^verbatim>\<open>currentCountry\<close> and of \<^verbatim>\<open>targetCountry\<close>, every entry that
  is an object and whose \<^verbatim>\<open>rolesSalaries\<close> is not an array gets \<^verbatim>\<open>rolesSalaries = []\<close>;
  nothing else changes.
\<close>

definition repair_city :: "json \<Rightarrow> json" where
  "repair_city city =
     (if is_object city \<and> \<not> isArray (get_prop city ''rolesSalaries'')
      then put_prop city ''rolesSalaries'' (JArr [] []) else city)"

definition repair_country :: "string \<Rightarrow> json \<Rightarrow> json" where
  "repair_country country csc =
     (case get_prop csc country of
        None \<Rightarrow> csc
      | Some c \<Rightarrow>
          (case get_prop c ''topCities'' of
             Some (JArr cities ex) \<Rightarrow>
               put_prop csc country (put_prop c ''topCities'' (JArr (map repair_city cities) ex))
           | _ \<Rightarrow> csc))"

definition repair_cities :: "json \<Rightarrow> json" where
  "repair_cities data =
     (case get_prop data ''countrySalaryComparison'' of
        None \<Rightarrow> data
      | Some csc \<Rightarrow>
          put_prop data ''countrySalaryComparison''
            (repair_country ''targetCountry'' (repair_country ''currentCountry'' csc)))"


text \<open>
  No object or array inside the value has an own property named \<^verbatim>\<open>toString\<close>.
\<close>

fun no_toString :: "json \<Rightarrow> bool"
  and no_toString_list :: "json list \<Rightarrow> bool"
  and no_toString_props :: "(string \<times> json) list \<Rightarrow> bool"
where
  "no_toString (JObj ps) = no_toString_props ps"
| "no_toString (JArr xs ps) = (no_toString_list xs \<and> no_toString_props ps)"
| "no_toString JNull = True"
| "no_toString (JBool b) = True"
| "no_toString (JNum m e) = True"
| "no_toString (JStr t) = True"
| "no_toString_list [] = True"
| "no_toString_list (x # xs) = (no_toString x \<and> no_toString_list xs)"
| "no_toString_props [] = True"
| "no_toString_props ((k, v) # ps) = (k \<noteq> ''toString'' \<and> no_toString v \<and> no_toString_props ps)"

text \<open>
  The shape promised for the validated insights: the ten array fields are arrays,
  \<^verbatim>\<open>industryOverview\<close> is a string and \<^verbatim>\<open>expectedSalaryRange\<close> is an object.
\<close>

definition complete_shape :: "json \<Rightarrow> bool" where
  "complete_shape d \<longleftrightarrow>
     is_object d
     \<and> list_all (\<lambda>f. isArray (get_prop d f)) arrayFields
     \<and> typeof (get_prop d ''industryOverview'') = ''string''
     \<and> (case get_prop d ''expectedSalaryRange'' of None \<Rightarrow> False | Some r \<Rightarrow> is_object r)"

abbreviation cannot_convert :: js_error where
  "cannot_convert \<equiv> TypeError ''Cannot convert object to primitive value''"

text \<open>
  The entries of \<^verbatim>\<open>rolesSalaries\<close> that the claim about the city salary data says are
  kept: objects that have a \<^verbatim>\<open>role\<close> field and whose three salaries are numbers or strings.
\<close>

definition has_required_subfields :: "json \<Rightarrow> bool" where
  "has_required_subfields r \<longleftrightarrow>
     is_object r \<and> get_prop r ''role'' \<noteq> None
     \<and> number_or_string (get_prop r ''minSalary'')
     \<and> number_or_string (get_prop r ''medianSalary'')
     \<and> number_or_string (get_prop r ''maxSalary'')"

definition city_example :: json where
  "city_example =
     JObj [(''citySalaryData'',
            JArr [JObj [(''city'', JStr ''Pune''), (''avgSalary'', JNum 9 0),
                        (''rolesSalaries'',
                         JArr [JObj [(''role'', JStr []), (''minSalary'', JNum 1 0),
                                     (''medianSalary'', JNum 2 0), (''maxSalary'', JNum 3 0)],
                               JObj [(''role'', JStr ''Eng''), (''minSalary'', JNum 4 0),
                                     (''medianSalary'', JNum 5 0), (''maxSalary'', JNum 6 0)]]
                           [])]] [])]"

definition city_example_validated :: json where
  "city_example_validated =
     JObj [(''citySalaryData'',
            JArr [JObj [(''city'', JStr ''Pune''), (''avgSalary'', JNum 9 0),
                        (''rolesSalaries'',
                         JArr [JObj [(''role'', JStr ''Eng''), (''minSalary'', JNum 4 0),
                                     (''medianSalary'', JNum 5 0), (''maxSalary'', JNum 6 0)]]
                           [])]] []),
           (''industryOverview'', JStr ''Industry overview information not available.''),
           (''marketDemand'', JArr [] []), (''quickInsights'', JArr [] []),
           (''topSkills'', JArr [] []), (''skillBasedBoosts'', JArr [] []),
           (''topCompanies'', JArr [] []), (''recommendedCourses'', JArr [] []),
           (''careerPathInsights'', JArr [] []), (''emergingTrends'', JArr [] []),
           (''nextActions'', JArr [] []),
           (''expectedSalaryRange'',
            JObj [(''min'', JNum 80000 0), (''max'', JNum 120000 0), (''currency'', JStr ''USD'')])]"


section \<open>Properties of \<^verbatim>\<open>parseJSON\<close>\<close>

lemma parseJSON_method1:
  assumes "JSON_parse_opt (cleanText (dataType_of opts) text) = Some v"
  shows "parseJSON env text opts = Inr v"
  using assms
  by (simp add: parseJSON_def run_methods_def method1_def JSON_parse_msg_def JSON_parse_def)

lemma dataType_of_default [simp]: "dataType_of default_options = ''general''"
  by (simp add: dataType_of_def default_options_def)

lemma try_methods_attempts_prefix:
  "try_methods ms acc = Inl attempts \<Longrightarrow> take (length acc) attempts = acc"
proof (induction ms acc rule: try_methods.induct)
  case (4 name msg ms attempts')
  from 4 have "take (length (attempts' @ [(name, msg)])) attempts = attempts' @ [(name, msg)]"
    by simp
  then have "take (length attempts') (take (Suc (length attempts')) attempts) = attempts'"
    by simp
  then show ?case by (simp add: min_def)
qed simp_all

lemma run_methods_first_four:
  assumes "run_methods env dt text = Inl attempts"
  shows "map fst (take 4 attempts)
           = [''JSON.parse'', ''JSON5'', ''jsonrepair'', ''truncation-fixing'']"
proof -
  let ?c = "cleanText dt text"
  obtain e1 e2 e3 e4 where f:
    "method1 env ?c = Inl e1" "method2 env ?c = Inl e2"
    "method3 env ?c = Inl e3" "method4 env ?c = Inl e4"
    using assms
    by (cases "method1 env ?c"; cases "method2 env ?c"; cases "method3 env ?c";
        cases "method4 env ?c") (simp_all add: run_methods_def Let_def)
  let ?four = "[(''JSON.parse'', e1), (''JSON5'', e2), (''jsonrepair'', e3),
                (''truncation-fixing'', e4)]"
  have "try_methods [(''rolesSalaries-fixing'', method5 env ?c),
                     (''nested-objects-fixing'', method6 env ?c),
                     (''multiple-closing-braces-fixing'', method7 env ?c)] ?four = Inl attempts"
    using assms f by (simp add: run_methods_def Let_def)
  from try_methods_attempts_prefix [OF this] have "take 4 attempts = ?four"
    by (simp add: numeral_eq_Suc)
  then show ?thesis by simp
qed

subsection \<open>Texts that the cleaning leaves alone\<close>

lemma first_some_SomeD: "first_some f xs = Some y \<Longrightarrow> \<exists>x\<in>set xs. f x = Some y"
  by (induction xs) (auto split: option.splits)

lemma set_downto: "set (downto m lo) = {lo..m}"
  by (induction m) auto

lemma rx_match_prefix:
  "rx_match r s = Some gs \<Longrightarrow> take (length (concat gs)) s = concat gs"
proof (induction r s arbitrary: gs rule: rx_match.induct)
  case (1 s)
  then show ?case by simp
next
  case (2 l r s)
  then obtain gs' where g: "take (length l) s = l" "rx_match r (drop (length l) s) = Some gs'"
    "gs = l # gs'"
    by (auto split: if_splits)
  from 2(1) [OF g(1) g(2)] g show ?case
    by (simp add: take_add)
next
  case (3 r s)
  then show ?case by (auto split: if_splits)
next
  case (4 ls r s)
  from first_some_SomeD [OF 4(2) [simplified]]
  obtain l gs' where g: "l \<in> set ls" "take (length l) s = l"
    "rx_match r (drop (length l) s) = Some gs'" "gs = l # gs'"
    by (auto split: if_splits)
  from 4(1) [OF g(2) g(3)] g show ?case
    by (simp add: take_add)
next
  case (5 c lo hi r s)
  define m where "m = length (takeWhile (cmatch c) (case hi of None \<Rightarrow> s | Some h \<Rightarrow> take h s))"
  from 5(2) have "first_some (\<lambda>n. map_option ((#) (take n s)) (rx_match r (drop n s))) (downto m lo)
                    = Some gs"
    by (simp add: m_def Let_def)
  from first_some_SomeD [OF this]
  obtain n gs' where g: "n \<in> set (downto m lo)" "rx_match r (drop n s) = Some gs'"
    "gs = take n s # gs'"
    by auto
  have "m \<le> length s"
    using length_takeWhile_le [of "cmatch c" "case hi of None \<Rightarrow> s | Some h \<Rightarrow> take h s"]
    by (simp add: m_def split: option.splits)
  with g(1) have n: "n \<le> length s" by (simp add: set_downto)
  from g n have "length (concat gs) = n + length (concat gs')" by simp
  then have "take (length (concat gs)) s = take n s @ take (length (concat gs')) (drop n s)"
    by (simp only: take_add)
  with 5(1) [OF m_def g(2)] g show ?case
    by simp
qed

lemma rx_test_drop: "\<not> rx_test r s \<Longrightarrow> rx_match r (drop n s) = None"
proof (induction s arbitrary: n)
  case Nil
  then show ?case by simp
next
  case (Cons c cs)
  then show ?case by (cases n) auto
qed

lemma rx_testD: "rx_test r s \<Longrightarrow> \<exists>n. rx_match r (drop n s) \<noteq> None"
proof (induction s)
  case Nil
  then show ?case by simp
next
  case (Cons c cs)
  show ?case
  proof (cases "rx_match r (c # cs) = None")
    case False
    then have "rx_match r (drop 0 (c # cs)) \<noteq> None" by simp
    then show ?thesis by blast
  next
    case True
    with Cons obtain n where "rx_match r (drop n cs) \<noteq> None" by auto
    then have "rx_match r (drop (Suc n) (c # cs)) \<noteq> None" by simp
    then show ?thesis by blast
  qed
qed

lemma replace_all_id:
  assumes "\<And>n gs. rx_match r (drop n s) = Some gs \<Longrightarrow> f gs = concat gs"
  shows "replace_all r f s = s"
  using assms
proof (induction s rule: length_induct)
  case (1 s)
  show ?case
  proof (cases s)
    case Nil
    with 1(2) [of 0] show ?thesis
      using rx_match_prefix [of r "[]"] by (auto split: option.splits)
  next
    case (Cons c cs)
    show ?thesis
    proof (cases "rx_match r (c # cs)")
      case None
      have "replace_all r f cs = cs"
      proof (rule 1(1) [rule_format])
        show "length cs < length s" using Cons by simp
        fix n gs assume "rx_match r (drop n cs) = Some gs"
        with 1(2) [of "Suc n" gs] Cons show "f gs = concat gs" by simp
      qed
      with None Cons show ?thesis by simp
    next
      case (Some gs)
      from 1(2) [of 0 gs] Some Cons have f: "f gs = concat gs" by simp
      from rx_match_prefix [OF Some] have p: "take (length (concat gs)) (c # cs) = concat gs" .
      show ?thesis
      proof (cases "length (concat gs) = 0")
        case True
        have "replace_all r f cs = cs"
        proof (rule 1(1) [rule_format])
          show "length cs < length s" using Cons by simp
          fix n gs assume "rx_match r (drop n cs) = Some gs"
          with 1(2) [of "Suc n" gs] Cons show "f gs = concat gs" by simp
        qed
        with Some Cons f True show ?thesis by simp
      next
        case False
        then obtain k where k: "length (concat gs) = Suc k" by (cases "length (concat gs)") auto
        have "replace_all r f (drop k cs) = drop k cs"
        proof (rule 1(1) [rule_format])
          show "length (drop k cs) < length s" using Cons by simp
          fix n gs assume "rx_match r (drop n (drop k cs)) = Some gs"
          with 1(2) [of "Suc (n + k)" gs] Cons show "f gs = concat gs" by (simp add: add.commute)
        qed
        moreover from p k have "concat gs @ drop k cs = c # cs"
          by (metis append_take_drop_id drop_Suc_Cons)
        ultimately show ?thesis using Some Cons f k by simp
      qed
    qed
  qed
qed

lemma replace_all_no_match: "\<not> rx_test r s \<Longrightarrow> replace_all r f s = s"
  by (rule replace_all_id) (simp add: rx_test_drop)

lemma rx_match_Lit: "rx_match [Lit l] t = (if take (length l) t = l then Some [l] else None)"
  by simp

lemma rx_match_One:
  "rx_match (One cls # r) t =
     (case t of [] \<Rightarrow> None
      | c # cs \<Rightarrow> if cmatch cls c then map_option ((#) [c]) (rx_match r cs) else None)"
  by (cases t) (simp_all add: Let_def split: option.splits)

lemma rx_match_Plus_Lit:
  assumes "rx_match [Plus (Ch c), Lit [d]] t = Some gs"
  shows "\<exists>n. 1 \<le> n \<and> gs = [replicate n c, [d]] \<and> take (Suc n) t = replicate n c @ [d]"
proof -
  define m where "m = length (takeWhile (cmatch (Ch c)) t)"
  from assms have "first_some (\<lambda>n. map_option ((#) (take n t)) (rx_match [Lit [d]] (drop n t)))
                     (downto m 1) = Some gs"
    by (simp add: m_def Let_def del: rx_match.simps(2))
  from first_some_SomeD [OF this]
  obtain n gs' where g: "n \<in> set (downto m 1)" "rx_match [Lit [d]] (drop n t) = Some gs'"
    "gs = take n t # gs'"
    by auto
  from g(1) have n: "1 \<le> n" "n \<le> m" by (simp_all add: set_downto)
  have "take n t = take n (takeWhile (cmatch (Ch c)) t)"
    using n(2) unfolding m_def
    by (metis append_take_drop_id takeWhile_dropWhile_id take_all_iff take_append
        diff_is_0_eq' take_0 append_Nil2)
  moreover have "\<forall>x\<in>set (takeWhile (cmatch (Ch c)) t). x = c"
    by (auto dest: set_takeWhileD)
  ultimately have a: "\<forall>x\<in>set (take n t). x = c"
    by (metis in_set_takeD)
  have l: "length (take n t) = n"
    using n(2) length_takeWhile_le [of "cmatch (Ch c)" t] by (simp add: m_def)
  from a l have r: "take n t = replicate n c"
    by (metis replicate_length_same)
  from g(2) have d: "take 1 (drop n t) = [d]" "gs' = [[d]]"
    by (auto simp add: rx_match_Lit split: if_splits)
  have "take (Suc n) t = take n t @ take 1 (drop n t)"
    using take_add [of n 1 t] by simp
  with r d g(3) n(1) show ?thesis by auto
qed

lemma take_take_le: "k \<le> n \<Longrightarrow> take k (take n t) = take k t"
  by (simp add: min_def)

lemma collapse_id:
  assumes a: "\<not> rx_test [Lit [c, c, d]] s"
  shows "replace_all [Plus (Ch c), Lit [d]] (\<lambda>_. [c, d]) s = s"
proof (rule replace_all_id)
  fix k gs
  assume m: "rx_match [Plus (Ch c), Lit [d]] (drop k s) = Some gs"
  from rx_match_Plus_Lit [OF m] obtain n where n: "1 \<le> n" "gs = [replicate n c, [d]]"
    "take (Suc n) (drop k s) = replicate n c @ [d]"
    by auto
  have "n = 1"
  proof (rule ccontr)
    assume "n \<noteq> 1"
    with n(1) obtain j where j: "n = Suc (Suc j)" by (cases n; cases "n - 1") auto
    have "take 3 (drop (k + j) s) = take 3 (drop j (take (Suc n) (drop k s)))"
      using j by (simp add: drop_take add.commute)
    also have "\<dots> = take 3 (drop j (replicate n c @ [d]))"
      by (simp only: n(3))
    also have "\<dots> = take 3 (drop j (replicate j c @ [c, c, d]))"
    proof -
      have "replicate n c = replicate j c @ replicate 2 c"
        unfolding j replicate_add [symmetric] by simp
      then show ?thesis by (simp add: numeral_2_eq_2)
    qed
    also have "\<dots> = [c, c, d]"
      by simp
    finally have "rx_match [Lit [c, c, d]] (drop (k + j) s) \<noteq> None"
      by (simp add: rx_match_Lit numeral_3_eq_3)
    with rx_test_drop [OF a, of "k + j"] show False by simp
  qed
  with n(2) show "[c, d] = concat gs" by simp
qed

lemma lit_pair_no_match:
  assumes "\<not> rx_test [Lit [a], Star Space, Lit [b]] s" and "\<not> is_space b"
  shows "\<not> rx_test [Lit [a, b]] s"
proof
  assume "rx_test [Lit [a, b]] s"
  then obtain n where n: "rx_match [Lit [a, b]] (drop n s) \<noteq> None"
    by (blast dest: rx_testD)
  then obtain r where r: "drop n s = a # b # r"
    by (cases "drop n s"; cases "tl (drop n s)") (auto split: if_splits)
  from assms(2) have "rx_match [Lit [a], Star Space, Lit [b]] (a # b # r) \<noteq> None"
    by (simp add: Let_def)
  with rx_test_drop [OF assms(1), of n] r show False by simp
qed

lemma fence_no_match:
  assumes "\<not> rx_test [Lit ''```''] s"
  shows "\<not> rx_test [Lit ''```json''] s"
proof
  assume "rx_test [Lit ''```json''] s"
  then obtain n where n: "rx_match [Lit ''```json''] (drop n s) \<noteq> None"
    by (blast dest: rx_testD)
  then have "take 7 (drop n s) = ''```json''"
    by (simp add: eval_nat_numeral split: if_splits)
  then have "take 3 (take 7 (drop n s)) = ''```''"
    by simp
  then have "take 3 (drop n s) = ''```''"
    by (simp add: min_def)
  then have "rx_match [Lit ''```''] (drop n s) \<noteq> None"
    by (simp add: eval_nat_numeral)
  with rx_test_drop [OF assms, of n] show False by simp
qed

lemma fix_truncated_end_id:
  assumes "\<not> rx_test [One (OneOf ''{[,:''), Star Space, Eos] s"
  shows "fix_truncated_end s = s"
  unfolding fix_truncated_end_def
proof (rule replace_all_id)
  fix n gs
  assume m: "rx_match [One (NoneOf ''}''), Star Space, Eos] (drop n s) = Some gs"
  then obtain c cs gs' where g: "drop n s = c # cs" "rx_match [Star Space, Eos] cs = Some gs'"
    "gs = [c] # gs'"
    unfolding rx_match_One by (auto split: list.splits if_splits)
  from rx_test_drop [OF assms, of n] g(1,2) have "c \<notin> set ''{[,:''"
    unfolding rx_match_One by (auto split: if_splits)
  with g(3) show "(let p1 = gs ! 0
           in if p1 = ''{'' \<or> p1 = ''['' \<or> p1 = '','' \<or> p1 = '':'' then p1 @ ''null''
              else concat gs) = concat gs"
    by auto
qed

lemma extractJSONString_id:
  assumes "(t \<noteq> [] \<and> hd t = CHR ''{'' \<and> last t = CHR ''}'')
           \<or> CHR ''}'' \<notin> set (dropWhile (\<lambda>c. c \<noteq> CHR ''{'') t)"
  shows "extractJSONString t = t"
proof (cases "CHR ''{'' \<in> set t \<and> CHR ''}'' \<in> set t")
  case False
  then show ?thesis
    by (auto simp add: extractJSONString_def indexOf_def lastIndexOf_def)
next
  case True
  let ?a = "takeWhile (\<lambda>c. c \<noteq> CHR ''{'') t"
  let ?b = "dropWhile (\<lambda>c. c \<noteq> CHR ''{'') t"
  let ?l' = "takeWhile (\<lambda>d. d \<noteq> CHR ''}'') (rev t)"
  let ?l = "length ?l'"
  from True have i: "indexOf t CHR ''{'' = Some (length ?a)"
    "lastIndexOf t CHR ''}'' = Some (length t - 1 - ?l)"
    by (simp_all add: indexOf_def lastIndexOf_def)
  from assms show ?thesis
  proof
    assume h: "t \<noteq> [] \<and> hd t = CHR ''{'' \<and> last t = CHR ''}''"
    then have "?a = []" by (cases t) auto
    moreover from h have "?l = 0" by (cases "rev t") (auto simp add: last_rev [symmetric] hd_rev)
    ultimately show ?thesis
      using i h by (cases t) (auto simp add: extractJSONString_def substring_def)
  next
    assume h: "CHR ''}'' \<notin> set ?b"
    have "rev t = rev ?b @ rev ?a"
      by (metis rev_append takeWhile_dropWhile_id)
    moreover have "takeWhile (\<lambda>d. d \<noteq> CHR ''}'') (rev ?b @ rev ?a)
                 = rev ?b @ takeWhile (\<lambda>d. d \<noteq> CHR ''}'') (rev ?a)"
      by (rule takeWhile_append2) (use h in auto)
    ultimately have "takeWhile (\<lambda>d. d \<noteq> CHR ''}'') (rev t)
                 = rev ?b @ takeWhile (\<lambda>d. d \<noteq> CHR ''}'') (rev ?a)"
      by (simp only:)
    then have "length ?l' = length (rev ?b @ takeWhile (\<lambda>d. d \<noteq> CHR ''}'') (rev ?a))"
      by (simp only:)
    then have "length ?b \<le> ?l" by simp
    moreover have "length t = length ?a + length ?b"
      by (metis length_append takeWhile_dropWhile_id)
    ultimately have "length t - 1 - ?l \<le> length ?a" by simp
    with i show ?thesis
      by (simp add: extractJSONString_def)
  qed
qed

lemma balance_closers_id:
  "count_list t CHR ''{'' \<le> count_list t CHR ''}''
     \<Longrightarrow> count_list t CHR ''['' \<le> count_list t CHR '']'' \<Longrightarrow> balance_closers t = t"
  by (simp add: balance_closers_def Let_def)

lemma untouched_targets:
  assumes "untouched t"
  shows "\<not> rx_test [Lit ''```''] t"
    and "\<not> rx_test [Lit '','', Star Space, Lit '']''] t"
    and "\<not> rx_test [Lit '','', Star Space, Lit ''}''] t"
    and "\<not> rx_test [One (OneOf ''{,''), Star Space, Plus Word, Star Space, Lit '':''] t"
    and "\<not> rx_test [Lit '':'', Star Space, Lit [sq], Star (NoneOf [sq]), Lit [sq]] t"
    and "\<not> rx_test [Lit '':'', Star Space, Lit ''undefined''] t"
    and "\<not> rx_test [Lit '':'', Star Space, Lit ''NaN''] t"
    and "\<not> rx_test [Lit ''}'', Star Space, Lit ''{''] t"
    and "\<not> rx_test [Lit '']'', Star Space, Lit ''{''] t"
    and "\<not> rx_test [Lit ''}'', Star Space, Lit ''[''] t"
    and "\<not> rx_test [Lit '']'', Star Space, Lit ''[''] t"
    and "\<not> rx_test [Lit ''}}}''] t"
    and "\<not> rx_test [Lit '']]]''] t"
    and "\<not> rx_test [Lit ''}}]''] t"
    and "\<not> rx_test [One (OneOf ''{[,:''), Star Space, Eos] t"
  using assms by (simp_all add: untouched_def rewrite_targets_def)

lemma syntax_rewrites_untouched:
  assumes "untouched t"
  shows "syntax_rewrites t = t"
proof -
  note u = untouched_targets [OF assms]
  have "collapse_braces t = t" "collapse_brackets t = t" "collapse_braces_bracket t = t"
    unfolding collapse_braces_def collapse_brackets_def collapse_braces_bracket_def
    using collapse_id [of "CHR ''}''" "CHR ''}''" t] collapse_id [of "CHR '']''" "CHR '']''" t]
      collapse_id [of "CHR ''}''" "CHR '']''" t] u(12,13,14)
    by simp_all
  moreover have "split_brace_brace t = t" "split_bracket_bracket t = t"
    unfolding split_brace_brace_def split_bracket_bracket_def
    using lit_pair_no_match [OF u(8)] lit_pair_no_match [OF u(11)]
    by (simp_all add: replace_all_no_match is_space_def)
  moreover have "fix_trailing_comma_bracket t = t"
    unfolding fix_trailing_comma_bracket_def by (rule replace_all_no_match [OF u(2)])
  moreover have "fix_trailing_comma_brace t = t"
    unfolding fix_trailing_comma_brace_def by (rule replace_all_no_match [OF u(3)])
  moreover have "quote_keys t = t"
    unfolding quote_keys_def by (rule replace_all_no_match [OF u(4)])
  moreover have "fix_single_quotes t = t"
    unfolding fix_single_quotes_def by (rule replace_all_no_match [OF u(5)])
  moreover have "fix_undefined t = t"
    unfolding fix_undefined_def by (rule replace_all_no_match [OF u(6)])
  moreover have "fix_NaN t = t"
    unfolding fix_NaN_def by (rule replace_all_no_match [OF u(7)])
  moreover have "comma_brace_brace t = t"
    unfolding comma_brace_brace_def by (rule replace_all_no_match [OF u(8)])
  moreover have "comma_bracket_brace t = t"
    unfolding comma_bracket_brace_def by (rule replace_all_no_match [OF u(9)])
  moreover have "comma_brace_bracket t = t"
    unfolding comma_brace_bracket_def by (rule replace_all_no_match [OF u(10)])
  moreover have "comma_bracket_bracket t = t"
    unfolding comma_bracket_bracket_def by (rule replace_all_no_match [OF u(11)])
  moreover have "fix_truncated_end t = t"
    by (rule fix_truncated_end_id [OF u(15)])
  ultimately show ?thesis
    by (simp only: syntax_rewrites_def)
qed

lemma cleanText_untouched:
  assumes "untouched t"
  shows "cleanText ''general'' t = t"
proof -
  note u = untouched_targets [OF assms]
  have "replace_lit ''```json'' [] t = t" "replace_lit ''```'' [] t = t"
    using u(1) fence_no_match [OF u(1)] by (simp_all add: replace_lit_def replace_all_no_match)
  moreover have "extractJSONString t = t"
    using assms by (intro extractJSONString_id) (simp add: untouched_def)
  moreover have "balance_closers t = t"
    using assms by (intro balance_closers_id) (simp_all add: untouched_def)
  ultimately show ?thesis
    by (simp add: cleanText_def syntax_rewrites_untouched [OF assms])
qed

subsection \<open>A serialisation is read back\<close>

lemma hex_val_nth: "k < 16 \<Longrightarrow> hex_val (''0123456789abcdef'' ! k) = Some k"
proof -
  assume "k < 16"
  then have "k \<in> set [0..<16]" by simp
  then have "k \<in> {0, 1, 2, 3, 4, 5, 6, 7, 8, 9, 10, 11, 12, 13, 14, 15}"
    by (simp add: upt_rec numeral_eq_Suc) 
  then show ?thesis
    by (elim insertE emptyE) (simp_all add: hex_val_def digit_val_def)
qed

lemma hex_val_hex_digit: "hex_val (hex_digit n) = Some (n mod 16)"
  by (simp add: hex_digit_def hex_val_nth)

lemma hex4_escape:
  "n < 256 \<Longrightarrow> hex4 [CHR ''0'', CHR ''0'', hex_digit (n div 16), hex_digit n] = Some n"
proof -
  assume n: "n < 256"
  have z: "hex_val CHR ''0'' = Some 0" by (simp add: hex_val_def digit_val_def)
  from n have "(n div 16) mod 16 = n div 16" by simp
  then have "hex_val (hex_digit (n div 16)) = Some (n div 16)"
    using hex_val_hex_digit [of "n div 16"] by simp
  with z hex_val_hex_digit [of n] show ?thesis
    by (simp add: hex4_def)
qed

lemma parse_string_escape:
  "parse_string (escape_char c @ r) = map_option (\<lambda>(t, rest). (c # t, rest)) (parse_string r)"
proof -
  consider (special) "c \<in> {dq, CHR 0x5C, CHR 0x08, CHR 0x0C, CHR 0x0A, CHR 0x0D, CHR 0x09}"
    | (control) "c \<notin> {dq, CHR 0x5C, CHR 0x08, CHR 0x0C, CHR 0x0A, CHR 0x0D, CHR 0x09}"
        "(of_char c :: nat) < 32"
    | (plain) "c \<notin> {dq, CHR 0x5C, CHR 0x08, CHR 0x0C, CHR 0x0A, CHR 0x0D, CHR 0x09}"
        "\<not> (of_char c :: nat) < 32"
    by blast
  then show ?thesis
  proof cases
    case special
    then show ?thesis
      by (auto simp add: escape_char_def simple_escape_def)
  next
    case control
    then have "(of_char c :: nat) < 256" by simp
    from hex4_escape [OF this] control show ?thesis
      by (simp add: escape_char_def)
  next
    case plain
    then show ?thesis
      by (simp add: escape_char_def)
  qed
qed

lemma parse_string_quote:
  "parse_string (concat (map escape_char s) @ dq # rest) = Some (s, rest)"
  by (induction s) (simp_all add: parse_string_escape del: parse_string.simps(2), simp)

lemma takeWhile_append_stop:
  "rest = [] \<or> \<not> P (hd rest) \<Longrightarrow> takeWhile P (a @ rest) = takeWhile P a"
  by (induction a) (auto simp add: takeWhile_eq_Nil_iff intro: list.exhaust_sel)

lemma dropWhile_append_stop:
  "rest = [] \<or> \<not> P (hd rest) \<Longrightarrow> dropWhile P (a @ rest) = dropWhile P a @ rest"
  by (induction a) (auto simp add: dropWhile_eq_self_iff)

lemma ends_number_digit: "ends_number rest \<Longrightarrow> rest = [] \<or> \<not> is_digit (hd rest)"
  by (auto simp add: ends_number_def is_digit_def)

lemma parse_exponent_append:
  assumes "parse_exponent s = Some (ex, r)" and "ends_number rest"
  shows "parse_exponent (s @ rest) = Some (ex, r @ rest)"
proof (cases s)
  case Nil
  with assms show ?thesis
    by (cases rest) (auto simp add: parse_exponent_def ends_number_def)
next
  case (Cons c r0)
  note d = ends_number_digit [OF assms(2)]
  show ?thesis
  proof (cases "c = CHR ''e'' \<or> c = CHR ''E''")
    case False
    with assms Cons show ?thesis by (auto simp add: parse_exponent_def)
  next
    case True
    show ?thesis
    proof (cases r0)
      case Nil
      with assms Cons True show ?thesis by (auto simp add: parse_exponent_def)
    next
      case (Cons d0 r')
      with assms \<open>s = c # r0\<close> True d show ?thesis
        by (auto simp add: parse_exponent_def Let_def takeWhile_append_stop
            dropWhile_append_stop takeWhile_append_stop [of _ _ "[_]", simplified]
            split: if_splits)
    qed
  qed
qed

lemma parse_fraction_append:
  assumes "parse_fraction s = Some (fd, r)" and "ends_number rest"
  shows "parse_fraction (s @ rest) = Some (fd, r @ rest)"
proof (cases s)
  case Nil
  with assms show ?thesis
    by (cases rest) (auto simp add: parse_fraction_def ends_number_def)
next
  case (Cons c r0)
  note d = ends_number_digit [OF assms(2)]
  from assms Cons d show ?thesis
    by (auto simp add: parse_fraction_def Let_def takeWhile_append_stop dropWhile_append_stop
        split: if_splits)
qed

lemma parse_number_append:
  assumes "parse_number s = Some (x, r)" and "ends_number rest"
  shows "parse_number (s @ rest) = Some (x, r @ rest)"
proof -
  note d = ends_number_digit [OF assms(2)]
  obtain neg s1 where n: "(case s of [] \<Rightarrow> (False, s)
             | c # r \<Rightarrow> if c = CHR ''-'' then (True, r) else (False, s)) = (neg, s1)"
    by (cases "(case s of [] \<Rightarrow> (False, s)
             | c # r \<Rightarrow> if c = CHR ''-'' then (True, r) else (False, s))") auto
  from assms(1) n have ip: "takeWhile is_digit s1 \<noteq> []"
    by (auto simp add: parse_number_def)
  then have s1: "s1 \<noteq> []" by auto
  with n have ne: "s \<noteq> []" by (cases s) (auto split: if_splits)
  from n ne have n': "(case s @ rest of [] \<Rightarrow> (False, s @ rest)
             | c # r \<Rightarrow> if c = CHR ''-'' then (True, r) else (False, s @ rest)) = (neg, s1 @ rest)"
    by (cases s) (auto split: if_splits)
  from assms(1) n obtain fd s2 ex where
    f: "parse_fraction (dropWhile is_digit s1) = Some (fd, s2)"
    and e: "parse_exponent s2 = Some (ex, r)"
    and x: "x = mk_num neg (takeWhile is_digit s1 @ fd) (ex - int (length fd))"
    and z: "\<not> (1 < length (takeWhile is_digit s1) \<and> hd (takeWhile is_digit s1) = CHR ''0'')"
    by (auto simp add: parse_number_def Let_def split: if_splits option.splits)
  have t: "takeWhile is_digit (s1 @ rest) = takeWhile is_digit s1"
    "dropWhile is_digit (s1 @ rest) = dropWhile is_digit s1 @ rest"
    using d by (simp_all add: takeWhile_append_stop dropWhile_append_stop)
  show ?thesis
    unfolding parse_number_def n' 
    using ip z x parse_fraction_append [OF f assms(2)] parse_exponent_append [OF e assms(2)]
    by (simp add: Let_def t)
qed

lemma skip_ws_Cons: "\<not> json_ws c \<Longrightarrow> skip_ws (c # r) = c # r"
  by (simp add: skip_ws_def)

lemma stringify_elems_map: "stringify_elems env xs = map (JSON_stringify env) xs"
  by (induction xs) simp_all

lemma stringify_props_map:
  "stringify_props env ps = map (\<lambda>(k, v). (k, quote k @ '':'' @ JSON_stringify env v)) ps"
  by (induction ps) auto

lemma enumerated_list_map: "enumerated_list xs = map enumerated xs"
  by (induction xs) simp_all

lemma enumerated_props_map: "enumerated_props ps = map (\<lambda>(k, v). (k, enumerated v)) ps"
  by (induction ps) auto

lemma serialisable_list_iff:
  "serialisable_list env xs \<longleftrightarrow> (\<forall>x\<in>set xs. serialisable env x)"
  by (induction xs) simp_all

lemma serialisable_props_iff:
  "serialisable_props env ps \<longleftrightarrow> (\<forall>(k, v)\<in>set ps. serialisable env v)"
  by (induction ps) auto

lemma insort_key_map_snd:
  "insort_key (\<lambda>(k, v). g k) (k, f k v) (map (\<lambda>(k, v). (k, f k v)) xs)
     = map (\<lambda>(k, v). (k, f k v)) (insort_key (\<lambda>(k, v). g k) (k, v) xs)"
  by (induction xs) auto

lemma sort_key_map_snd:
  "sort_key (\<lambda>(k, v). g k) (map (\<lambda>(k, v). (k, f k v)) xs)
     = map (\<lambda>(k, v). (k, f k v)) (sort_key (\<lambda>(k, v). g k) xs)"
proof (induction xs)
  case Nil
  then show ?case by simp
next
  case (Cons x xs)
  obtain k v where x: "x = (k, v)" by (cases x)
  from Cons show ?case
    by (simp add: x insort_key_map_snd)
qed

lemma filter_map_snd:
  "filter (\<lambda>(k, v). p k) (map (\<lambda>(k, v). (k, f k v)) xs)
     = map (\<lambda>(k, v). (k, f k v)) (filter (\<lambda>(k, v). p k) xs)"
  by (induction xs) auto

lemma own_props_map:
  "own_props (map (\<lambda>(k, v). (k, f k v)) ps) = map (\<lambda>(k, v). (k, f k v)) (own_props ps)"
  by (simp add: own_props_def filter_map_snd sort_key_map_snd)

lemma set_own_props [simp]: "set (own_props ps) = set ps"
  by (auto simp add: own_props_def)

lemma own_props_Nil [simp]: "own_props [] = []"
  by (simp add: own_props_def)

lemma length_own_props [simp]: "length (own_props ps) = length ps"
proof -
  have "length (filter (\<lambda>(k, v). array_index k \<noteq> None) ps)
          + length (filter (\<lambda>(k, v). array_index k = None) ps) = length ps"
    using sum_length_filter_compl [of "\<lambda>(k, v). array_index k \<noteq> None" ps]
    by (simp add: case_prod_unfold)
  then show ?thesis by (simp add: own_props_def)
qed

lemma own_props_eq_Nil [simp]: "own_props ps = [] \<longleftrightarrow> ps = []"
  using length_own_props [of ps] by (metis length_0_conv)

lemma distinct_map_fst_insort:
  "distinct (map fst (insort_key f x xs)) \<longleftrightarrow> fst x \<notin> fst ` set xs \<and> distinct (map fst xs)"
  by (induction xs) (auto simp add: set_insort_key)

lemma distinct_map_fst_sort:
  "distinct (map fst (sort_key f xs)) \<longleftrightarrow> distinct (map fst xs)"
  by (induction xs) (auto simp add: distinct_map_fst_insort)

lemma distinct_own_props:
  assumes "distinct (map fst ps)"
  shows "distinct (map fst (own_props ps))"
proof -
  let ?a = "filter (\<lambda>(k, v). array_index k \<noteq> None) ps"
  let ?b = "filter (\<lambda>(k, v). array_index k = None) ps"
  from assms have "distinct (map fst ?a)" "distinct (map fst ?b)"
    by (simp_all add: distinct_map_filter)
  moreover have "fst ` set ?a \<inter> fst ` set ?b = {}" by auto
  ultimately show ?thesis
    by (simp add: own_props_def distinct_map_fst_sort)
qed

lemma update_new: "k \<notin> fst ` set ps \<Longrightarrow> AList.update k v ps = ps @ [(k, v)]"
  by (induction ps) auto

lemma reads_backD:
  assumes "reads_back env v"
  obtains c r where "JSON_stringify env v = c # r" "\<not> json_ws c" "c \<noteq> CHR '']''" "c \<noteq> CHR ''}''"
  using assms unfolding reads_back_def by blast

lemma reads_back_parse:
  "reads_back env v \<Longrightarrow> ends_number rest
     \<Longrightarrow> parse_value (JSON_stringify env v @ rest) = Some (enumerated v, rest)"
  unfolding reads_back_def by blast

lemma ends_number_simps [simp]:
  "ends_number []" "ends_number (CHR '','' # r)" "ends_number (CHR '']'' # r)"
  "ends_number (CHR ''}'' # r)"
  by (simp_all add: ends_number_def)

lemma json_ws_simps [simp]:
  "\<not> json_ws CHR '',''" "\<not> json_ws CHR '']''" "\<not> json_ws CHR ''}''" "\<not> json_ws CHR '':''"
  "\<not> json_ws dq" "\<not> json_ws CHR ''{''" "\<not> json_ws CHR ''[''"
  by (simp_all add: json_ws_def)

lemma parse_elems_roundtrip:
  assumes "\<forall>x\<in>set (x # xs). reads_back env x"
  shows "parse_elems acc (join '','' (map (JSON_stringify env) (x # xs)) @ CHR '']'' # rest)
           = Some (JArr (acc @ map enumerated (x # xs)) [], rest)"
  using assms
proof (induction xs arbitrary: x acc)
  case Nil
  then have r: "reads_back env x" by simp
  from reads_backD [OF r] obtain c t where c: "JSON_stringify env x = c # t" by blast
  from reads_back_parse [OF r, of "CHR '']'' # rest"] c show ?case
    by (simp add: parse_elems.simps [of acc] skip_ws_Cons)
next
  case (Cons y ys)
  then have r: "reads_back env x" by simp
  from reads_backD [OF r] obtain c t where c: "JSON_stringify env x = c # t" by blast
  from Cons.prems have "\<forall>x\<in>set (y # ys). reads_back env x" by simp
  from Cons.IH [OF this, of "acc @ [enumerated x]"]
    reads_back_parse [OF r, of "CHR '','' # join '','' (map (JSON_stringify env) (y # ys)) @ CHR '']'' # rest"] c
  show ?case
    by (simp add: parse_elems.simps [of acc] skip_ws_Cons)
qed

lemma parse_members_roundtrip:
  assumes "\<forall>(k, v)\<in>set (p # ps). reads_back env v"
    and "distinct (map fst (p # ps))"
    and "fst ` set acc \<inter> fst ` set (p # ps) = {}"
  shows "parse_members acc
           (join '','' (map (\<lambda>(k, v). quote k @ '':'' @ JSON_stringify env v) (p # ps))
              @ CHR ''}'' # rest)
           = Some (JObj (acc @ map (\<lambda>(k, v). (k, enumerated v)) (p # ps)), rest)"
  using assms
proof (induction ps arbitrary: p acc)
  case Nil
  obtain k v where p: "p = (k, v)" by (cases p)
  with Nil have r: "reads_back env v" and k: "k \<notin> fst ` set acc" by auto
  from reads_backD [OF r] obtain c t where c: "JSON_stringify env v = c # t" by blast
  have q: "parse_string (concat (map escape_char k) @ dq # CHR '':'' # c # t @ CHR ''}'' # rest)
             = Some (k, CHR '':'' # c # t @ CHR ''}'' # rest)"
    by (rule parse_string_quote)
  from reads_back_parse [OF r, of "CHR ''}'' # rest"] c q k show ?case
    by (simp add: p parse_members.simps [of acc] skip_ws_Cons quote_def update_new)
next
  case (Cons y ys)
  obtain k v where p: "p = (k, v)" by (cases p)
  with Cons.prems have r: "reads_back env v" and k: "k \<notin> fst ` set acc" by auto
  from reads_backD [OF r] obtain c t where c: "JSON_stringify env v = c # t" by blast
  let ?tail = "CHR '','' # join '','' (map (\<lambda>(k, v). quote k @ '':'' @ JSON_stringify env v) (y # ys))
                  @ CHR ''}'' # rest"
  have q: "parse_string (concat (map escape_char k) @ dq # CHR '':'' # c # t @ ?tail)
             = Some (k, CHR '':'' # c # t @ ?tail)"
    by (rule parse_string_quote)
  from Cons.prems p have "\<forall>(k, v)\<in>set (y # ys). reads_back env v" "distinct (map fst (y # ys))"
    "fst ` set (acc @ [(k, enumerated v)]) \<inter> fst ` set (y # ys) = {}"
    by auto
  from Cons.IH [OF this] reads_back_parse [OF r, of ?tail] c q k
  show ?case
    by (simp add: p parse_members.simps [of acc] skip_ws_Cons quote_def update_new)
qed

lemma parse_value_Cons:
  "\<not> json_ws c \<Longrightarrow> parse_value (c # r) =
     (if c = CHR ''{'' then
        (case skip_ws r of
           [] \<Rightarrow> None
         | d # r' \<Rightarrow> if d = CHR ''}'' then Some (JObj [], r') else parse_members [] (d # r'))
      else if c = CHR ''['' then
        (case skip_ws r of
           [] \<Rightarrow> None
         | d # r' \<Rightarrow> if d = CHR '']'' then Some (JArr [] [], r') else parse_elems [] (d # r'))
      else if c = dq then map_option (\<lambda>(t, rest). (JStr t, rest)) (parse_string r)
      else parse_literal (c # r))"
  by (simp add: parse_value.simps [of "c # r"] skip_ws_Cons)

lemma parse_number_hd:
  assumes "parse_number s = Some (x, r)"
  obtains c t where "s = c # t" "c = CHR ''-'' \<or> is_digit c"
proof -
  obtain neg s1 where n: "(case s of [] \<Rightarrow> (False, s)
             | c # r \<Rightarrow> if c = CHR ''-'' then (True, r) else (False, s)) = (neg, s1)"
    by (cases "(case s of [] \<Rightarrow> (False, s)
             | c # r \<Rightarrow> if c = CHR ''-'' then (True, r) else (False, s))") auto
  from assms n have ip: "takeWhile is_digit s1 \<noteq> []"
    by (auto simp add: parse_number_def)
  then obtain d s2 where s1: "s1 = d # s2" "is_digit d"
    by (cases s1) (auto split: if_splits)
  with n that show ?thesis
    by (cases s) (auto split: if_splits)
qed

lemma reads_back_number:
  assumes "parse_number (num_to_string env m e) = Some (JNum m e, [])"
  shows "reads_back env (JNum m e)"
proof -
  from parse_number_hd [OF assms] obtain c t where
    c: "num_to_string env m e = c # t" "c = CHR ''-'' \<or> is_digit c"
    by blast
  from c(2) have w: "\<not> json_ws c" "c \<noteq> CHR '']''" "c \<noteq> CHR ''}''" "c \<noteq> CHR ''{''"
    "c \<noteq> CHR ''[''" "c \<noteq> dq" "c \<noteq> CHR ''t''" "c \<noteq> CHR ''f''" "c \<noteq> CHR ''n''"
    by (auto simp add: json_ws_def is_digit_def)
  have "parse_value (num_to_string env m e @ rest) = Some (JNum m e, rest)"
    if "ends_number rest" for rest
    using parse_number_append [OF assms that] c(1) w
    by (simp add: parse_value_Cons parse_literal_def)
  with c(1) w show ?thesis
    by (simp add: reads_back_def)
qed

lemma serialisable_reads_back: "serialisable env v \<Longrightarrow> reads_back env v"
proof (induction v)
  case JNull
  show ?case
    by (simp add: reads_back_def parse_value_Cons parse_literal_def json_ws_def)
next
  case (JBool b)
  show ?case
    by (simp add: reads_back_def parse_value_Cons parse_literal_def json_ws_def)
next
  case (JNum m e)
  then show ?case by (simp add: reads_back_number)
next
  case (JStr s)
  show ?case
    by (simp add: reads_back_def parse_value_Cons quote_def parse_string_quote)
next
  case (JArr xs ps)
  then have ps: "ps = []" and xs: "\<forall>x\<in>set xs. reads_back env x"
    by (simp_all add: serialisable_list_iff)
  show ?case
  proof (cases xs)
    case Nil
    then show ?thesis
      by (simp add: reads_back_def parse_value_Cons skip_ws_Cons ps)
  next
    case (Cons y ys)
    with xs have r: "reads_back env y" by simp
    from reads_backD [OF r] obtain c t where
      c: "JSON_stringify env y = c # t" "\<not> json_ws c" "c \<noteq> CHR '']''"
      by blast
    have j: "\<exists>u. join '','' (map (JSON_stringify env) (y # ys)) = c # u"
      using c(1) by (cases ys) simp_all
    have "parse_value (JSON_stringify env (JArr xs ps) @ rest) = Some (enumerated (JArr xs ps), rest)"
      for rest
    proof -
      from j obtain u where u: "join '','' (map (JSON_stringify env) (y # ys)) = c # u" by blast
      have "parse_value (JSON_stringify env (JArr xs ps) @ rest)
              = parse_elems [] (join '','' (map (JSON_stringify env) (y # ys)) @ CHR '']'' # rest)"
        using c(2,3) by (simp add: Cons stringify_elems_map parse_value_Cons u [simplified] skip_ws_Cons)
      also have "\<dots> = Some (JArr ([] @ map enumerated (y # ys)) [], rest)"
        using xs Cons by (intro parse_elems_roundtrip) simp
      finally show ?thesis
        by (simp add: Cons ps enumerated_list_map)
    qed
    then show ?thesis
      by (simp add: reads_back_def)
  qed
next
  case (JObj ps)
  then have d: "distinct (map fst ps)" and r: "\<forall>(k, v)\<in>set ps. reads_back env v"
    by (auto simp add: serialisable_props_iff Basic_BNFs.snds.simps)
  show ?case
  proof (cases "own_props ps")
    case Nil
    then have "ps = []" using length_own_props [of ps] by simp
    then show ?thesis
      by (simp add: reads_back_def parse_value_Cons skip_ws_Cons)
  next
    case (Cons q qs)
    have s: "map snd (own_props (stringify_props env ps))
               = map (\<lambda>(k, v). quote k @ '':'' @ JSON_stringify env v) (q # qs)"
    proof -
      have "own_props (stringify_props env ps)
              = map (\<lambda>(k, v). (k, quote k @ '':'' @ JSON_stringify env v)) (own_props ps)"
        by (simp only: stringify_props_map
            own_props_map [of "\<lambda>k v. quote k @ '':'' @ JSON_stringify env v"])
      then have "map snd (own_props (stringify_props env ps))
              = map (\<lambda>(k, v). quote k @ '':'' @ JSON_stringify env v) (own_props ps)"
        by (simp add: case_prod_unfold comp_def)
      then show ?thesis by (simp only: Cons)
    qed
    have e: "own_props (enumerated_props ps) = map (\<lambda>(k, v). (k, enumerated v)) (q # qs)"
      by (simp only: enumerated_props_map own_props_map [of "\<lambda>k v. enumerated v"] Cons)
    define J where "J = join '','' (map (\<lambda>(k, v). quote k @ '':'' @ JSON_stringify env v) (q # qs))"
    have j: "\<exists>u. J = dq # u"
      unfolding J_def by (cases qs; cases q) (simp_all add: quote_def)
    have sj: "JSON_stringify env (JObj ps) = CHR ''{'' # J @ ''}''"
      by (simp add: s J_def)
    have "parse_value (JSON_stringify env (JObj ps) @ rest) = Some (enumerated (JObj ps), rest)"
      for rest
    proof -
      from j obtain u where u: "J = dq # u"
        by blast
      have "parse_value (JSON_stringify env (JObj ps) @ rest)
              = parse_members [] (J @ CHR ''}'' # rest)"
        by (simp only: sj) (simp add: parse_value_Cons u skip_ws_Cons)
      also have "\<dots> = Some (JObj ([] @ map (\<lambda>(k, v). (k, enumerated v)) (q # qs)), rest)"
        unfolding J_def
      proof (rule parse_members_roundtrip)
        from r show "\<forall>(k, v)\<in>set (q # qs). reads_back env v"
          using set_own_props [of ps] by (simp only: Cons [symmetric])
        from distinct_own_props [OF d] show "distinct (map fst (q # qs))"
          by (simp only: Cons)
      qed simp
      finally show ?thesis
        by (simp add: e)
    qed
    then show ?thesis
      unfolding reads_back_def sj by simp
  qed
qed

lemma stringify_parse:
  assumes "serialisable env v"
  shows "JSON_parse_opt (JSON_stringify env v) = Some (enumerated v)"
  using reads_back_parse [OF serialisable_reads_back [OF assms], of "[]"]
  by (simp add: JSON_parse_opt_def skip_ws_def)

text \<open>A value and its enumerated form have the same serialisation.\<close>

lemma own_props_idem: "own_props (own_props ps) = own_props ps"
proof -
  let ?P = "\<lambda>(k, v). array_index k \<noteq> None"
  let ?f = "\<lambda>(k, v). the (array_index k)"
  let ?a = "sort_key ?f (filter ?P ps)"
  let ?b = "filter (\<lambda>(k, v). array_index k = None) ps"
  have "filter ?P ?a = ?a" "filter ?P ?b = []"
    by (auto simp add: filter_empty_conv)
  moreover have "filter (\<lambda>(k, v). array_index k = None) ?a = []"
    "filter (\<lambda>(k, v). array_index k = None) ?b = ?b"
    by (auto simp add: filter_empty_conv)
  moreover have "sort_key ?f ?a = ?a"
    by (rule sort_key_id_if_sorted) (rule sorted_sort_key)
  ultimately show ?thesis
    by (simp add: own_props_def)
qed

lemma stringify_enumerated: "JSON_stringify env (enumerated v) = JSON_stringify env v"
proof (induction v)
  case (JArr xs ps)
  then have "map (JSON_stringify env \<circ> enumerated) xs = map (JSON_stringify env) xs"
    by (intro map_cong refl) simp
  then have "stringify_elems env (enumerated_list xs) = stringify_elems env xs"
    by (simp only: stringify_elems_map enumerated_list_map map_map)
  then show ?case
    by simp
next
  case (JObj ps)
  have "own_props (stringify_props env (own_props (enumerated_props ps)))
          = map (\<lambda>(k, v). (k, quote k @ '':'' @ JSON_stringify env (enumerated v))) (own_props ps)"
  proof -
    have "own_props (enumerated_props ps) = map (\<lambda>(k, v). (k, enumerated v)) (own_props ps)"
      by (simp only: enumerated_props_map own_props_map [of "\<lambda>k v. enumerated v"])
    then have "stringify_props env (own_props (enumerated_props ps))
          = map (\<lambda>(k, v). (k, quote k @ '':'' @ JSON_stringify env (enumerated v))) (own_props ps)"
      by (simp add: stringify_props_map case_prod_unfold comp_def)
    moreover have "own_props (map (\<lambda>(k, v). (k, quote k @ '':'' @ JSON_stringify env (enumerated v)))
                      (own_props ps))
          = map (\<lambda>(k, v). (k, quote k @ '':'' @ JSON_stringify env (enumerated v)))
              (own_props (own_props ps))"
      by (rule own_props_map [of "\<lambda>k v. quote k @ '':'' @ JSON_stringify env (enumerated v)"])
    ultimately show ?thesis
      by (simp only: own_props_idem)
  qed
  also have "\<dots> = map (\<lambda>(k, v). (k, quote k @ '':'' @ JSON_stringify env v)) (own_props ps)"
    using JObj by (intro map_cong refl) (auto simp add: Basic_BNFs.snds.simps)
  also have "\<dots> = own_props (stringify_props env ps)"
    by (simp only: stringify_props_map
        own_props_map [of "\<lambda>k v. quote k @ '':'' @ JSON_stringify env v"])
  finally show ?case
    by simp
qed simp_all

subsection \<open>The claims\<close>

text \<open>
  C9.  \<^verbatim>\<open>parseJSON\<close> applied to the text \<^verbatim>\<open>{name: 'Engineer', salary: 1000}\<close> returns the
  object \<^verbatim>\<open>{"name":"Engineer","salary":1000}\<close>, whatever the libraries do: the cleaned text
  already parses strictly.
\<close>

theorem parseJSON_engineer_example:
  "parseJSON env ''{name: 'Engineer', salary: 1000}'' default_options
     = Inr (JObj [(''name'', JStr ''Engineer''), (''salary'', JNum 1000 0)])"
proof -
  have "JSON_parse_opt (cleanText ''general'' ''{name: 'Engineer', salary: 1000}'')
          = Some (JObj [(''name'', JStr ''Engineer''), (''salary'', JNum 1000 0)])"
    by code_simp
  then show ?thesis
    by (simp add: parseJSON_method1)
qed


text \<open>
  C1.  The claim: for every valid JSON text, \<^verbatim>\<open>parseJSON\<close> returns what \<^verbatim>\<open>JSON.parse\<close> returns
  on it, the cleaning never changing the parsed meaning.  It fails on the valid text
  \<^verbatim>\<open>{"a":{"b":{"c":{"d":1}}},"e":2}\<close>: the rewrite of \<^verbatim>\<open>}}}\<close> to \<^verbatim>\<open>}}\<close> removes a closing
  brace, the balancing step appends one at the end, and the member \<^verbatim>\<open>e\<close> moves into the
  object \<^verbatim>\<open>a\<close>.
\<close>

theorem cleaning_changes_valid_json:
  "JSON_parse_opt ''{\"a\":{\"b\":{\"c\":{\"d\":1}}},\"e\":2}''
     = Some (JObj [(''a'', JObj [(''b'', JObj [(''c'', JObj [(''d'', JNum 1 0)])])]),
                   (''e'', JNum 2 0)])
   \<and> parseJSON rejecting_env ''{\"a\":{\"b\":{\"c\":{\"d\":1}}},\"e\":2}'' default_options
     = Inr (JObj [(''a'', JObj [(''b'', JObj [(''c'', JObj [(''d'', JNum 1 0)])]),
                                (''e'', JNum 2 0)])])"
proof -
  have "JSON_parse_opt (cleanText ''general'' ''{\"a\":{\"b\":{\"c\":{\"d\":1}}},\"e\":2}'')
     = Some (JObj [(''a'', JObj [(''b'', JObj [(''c'', JObj [(''d'', JNum 1 0)])]),
                                 (''e'', JNum 2 0)])])"
    by code_simp
  then have "parseJSON rejecting_env ''{\"a\":{\"b\":{\"c\":{\"d\":1}}},\"e\":2}'' default_options
     = Inr (JObj [(''a'', JObj [(''b'', JObj [(''c'', JObj [(''d'', JNum 1 0)])]),
                                (''e'', JNum 2 0)])])"
    by (simp add: parseJSON_method1)
  moreover have "JSON_parse_opt ''{\"a\":{\"b\":{\"c\":{\"d\":1}}},\"e\":2}''
     = Some (JObj [(''a'', JObj [(''b'', JObj [(''c'', JObj [(''d'', JNum 1 0)])])]),
                   (''e'', JNum 2 0)])"
    by code_simp
  ultimately show ?thesis by simp
qed

text \<open>
  C1, amended.  For every valid JSON text that is \<^const>\<open>untouched\<close> (it contains no code
  fence and none of the patterns that the chain of rewrites looks for, the extraction has
  nothing to cut, and no closer is missing by count), \<^verbatim>\<open>parseJSON\<close> with default options
  returns the value that \<^verbatim>\<open>JSON.parse\<close> returns on the text: \<^verbatim>\<open>cleanText\<close> returns such a
  text as it is.
\<close>

theorem parseJSON_valid_json:
  assumes "JSON_parse_opt text = Some v"
    and "untouched text"
  shows "parseJSON env text default_options = Inr v"
proof -
  from assms(2) have "cleanText ''general'' text = text"
    by (rule cleanText_untouched)
  with assms(1) have "JSON_parse_opt (cleanText (dataType_of default_options) text) = Some v"
    by simp
  then show ?thesis
    by (rule parseJSON_method1)
qed

theorem parseJSON_valid_json_witness:
  "JSON_parse_opt ''{\"growthRate\":12,\"topSkills\":[\"A\",\"B\"],\"salary\":{\"min\":1.5}}''
     = Some (JObj [(''growthRate'', JNum 12 0),
                   (''topSkills'', JArr [JStr ''A'', JStr ''B''] []),
                   (''salary'', JObj [(''min'', JNum 15 (- 1))])])
   \<and> untouched ''{\"growthRate\":12,\"topSkills\":[\"A\",\"B\"],\"salary\":{\"min\":1.5}}''
   \<and> parseJSON rejecting_env
         ''{\"growthRate\":12,\"topSkills\":[\"A\",\"B\"],\"salary\":{\"min\":1.5}}'' default_options
     = Inr (JObj [(''growthRate'', JNum 12 0),
                  (''topSkills'', JArr [JStr ''A'', JStr ''B''] []),
                  (''salary'', JObj [(''min'', JNum 15 (- 1))])])"
proof -
  have p: "JSON_parse_opt ''{\"growthRate\":12,\"topSkills\":[\"A\",\"B\"],\"salary\":{\"min\":1.5}}''
     = Some (JObj [(''growthRate'', JNum 12 0),
                   (''topSkills'', JArr [JStr ''A'', JStr ''B''] []),
                   (''salary'', JObj [(''min'', JNum 15 (- 1))])])"
    by code_simp
  have u: "untouched ''{\"growthRate\":12,\"topSkills\":[\"A\",\"B\"],\"salary\":{\"min\":1.5}}''"
    by code_simp
  from parseJSON_valid_json [OF p u, of rejecting_env] p u show ?thesis
    by (simp only: simp_thms)
qed

text \<open>
  C3.  The claim: when every method fails, a supplied fallback object, an explicitly
  supplied empty object included, is returned.  An empty object is not returned: the error
  is thrown, as when no fallback is supplied.  The empty text fails under every method.
\<close>

theorem empty_fallback_not_returned:
  "run_methods rejecting_env ''general'' []
     = Inl [(''JSON.parse'', ''Unexpected end of JSON input''),
            (''JSON5'', ''JSON5: invalid end of input''),
            (''jsonrepair'', ''Unexpected end of json string''),
            (''truncation-fixing'', ''Unexpected end of JSON input'')]
   \<and> parseJSON rejecting_env [] (default_options\<lparr>fallbackData := Some (JObj [])\<rparr>)
     = Inl (Error (''All JSON parsing methods failed: ''
          @ ''JSON.parse: Unexpected end of JSON input; ''
          @ ''JSON5: JSON5: invalid end of input; ''
          @ ''jsonrepair: Unexpected end of json string; ''
          @ ''truncation-fixing: Unexpected end of JSON input''))"
  by code_simp

text \<open>
  C3, amended.  For every text on which all methods fail, leaving the list \<open>attempts\<close> of
  recorded failures: a supplied fallback with at least one own key is returned unchanged;
  with no fallback or with an empty object as fallback, \<^verbatim>\<open>parseJSON\<close> throws an
  \<^verbatim>\<open>Error\<close> whose message is \<^verbatim>\<open>All JSON parsing methods failed: \<close> followed by the
  entries \<^verbatim>\<open>method: message\<close> of \<open>attempts\<close> joined by \<^verbatim>\<open>; \<close>, and \<open>attempts\<close> starts
  with the failures of the four methods that always run.
\<close>

theorem parseJSON_all_methods_failed:
  assumes "run_methods env (dataType_of opts) text = Inl attempts"
  shows "(\<forall>fb ks. fallbackData opts = Some fb \<and> Object_keys fb = Some ks \<and> ks \<noteq> []
            \<longrightarrow> parseJSON env text opts = Inr fb)
       \<and> (fallbackData opts = None \<or> fallbackData opts = Some (JObj [])
            \<longrightarrow> parseJSON env text opts
                = Inl (Error (''All JSON parsing methods failed: ''
                     @ join ''; '' (map (\<lambda>(name, msg). name @ '': '' @ msg) attempts))))
       \<and> map fst (take 4 attempts)
           = [''JSON.parse'', ''JSON5'', ''jsonrepair'', ''truncation-fixing'']"
  using assms run_methods_first_four [OF assms]
  by (auto simp add: parseJSON_def fallback_of_def all_failed_error_def)

theorem parseJSON_all_methods_failed_witness:
  "parseJSON rejecting_env [] (default_options\<lparr>fallbackData := Some (JObj [(''growthRate'', JNum 10 0)])\<rparr>)
     = Inr (JObj [(''growthRate'', JNum 10 0)])
   \<and> parseJSON rejecting_env [] default_options
     = Inl (Error (''All JSON parsing methods failed: ''
          @ ''JSON.parse: Unexpected end of JSON input; ''
          @ ''JSON5: JSON5: invalid end of input; ''
          @ ''jsonrepair: Unexpected end of json string; ''
          @ ''truncation-fixing: Unexpected end of JSON input''))"
proof -
  let ?atts = "[(''JSON.parse'', ''Unexpected end of JSON input''),
            (''JSON5'', ''JSON5: invalid end of input''),
            (''jsonrepair'', ''Unexpected end of json string''),
            (''truncation-fixing'', ''Unexpected end of JSON input'')]"
  have r: "run_methods rejecting_env ''general'' [] = Inl ?atts"
    by code_simp
  have d: "dataType_of (default_options\<lparr>fallbackData := Some (JObj [(''growthRate'', JNum 10 0)])\<rparr>)
             = ''general''"
    by (simp add: dataType_of_def default_options_def)
  have f: "fallbackData default_options = None"
    by (simp add: default_options_def)
  have 1: "parseJSON rejecting_env [] (default_options\<lparr>fallbackData := Some (JObj [(''growthRate'', JNum 10 0)])\<rparr>)
     = Inr (JObj [(''growthRate'', JNum 10 0)])"
    using parseJSON_all_methods_failed
      [of rejecting_env "default_options\<lparr>fallbackData := Some (JObj [(''growthRate'', JNum 10 0)])\<rparr>"
          "[]" ?atts] r d
    by simp
  have 2: "parseJSON rejecting_env [] default_options
     = Inl (Error (''All JSON parsing methods failed: ''
          @ join ''; '' (map (\<lambda>(name, msg). name @ '': '' @ msg) ?atts)))"
    using parseJSON_all_methods_failed [of rejecting_env default_options "[]" ?atts] r f
    by simp
  show ?thesis using 1 2 by simp
qed

text \<open>
  C7.  The claim: the rewrite step turns \<^verbatim>\<open>}{\<close> into \<^verbatim>\<open>},{\<close> and \<^verbatim>\<open>][\<close> into \<^verbatim>\<open>],[\<close>,
  keeping both delimiters.  For \<^verbatim>\<open>][\<close> the code does not: the rule
  \<^verbatim>\<open>.replace(/]\s*\[/g, '],')\<close> runs before the rule \<^verbatim>\<open>.replace(/]\[/g, '],[')\<close> and
  drops the opening bracket, so the later rule finds nothing to do.
\<close>

theorem bracket_pair_loses_opener:
  "syntax_rewrites ''[1][2]'' = ''[1],2]''
   \<and> syntax_rewrites ''[[1]  [2]]'' = ''[[1],2]]''
   \<and> cleanText ''general'' ''{\"a\":[[1][2]]}'' = ''{\"a\":[[1],2]]}''
   \<and> syntax_rewrites ''[{\"a\":1}  {\"b\":2}]'' = ''[{\"a\":1},{\"b\":2}]''"
  by code_simp


text \<open>
  C8.  The claim: when \<^verbatim>\<open>parseJSON\<close> returns \<open>v\<close>, parsing \<^verbatim>\<open>JSON.stringify(v)\<close> again
  returns \<open>v\<close>.  It fails for the text \<^verbatim>\<open>{"a":",,]"}\<close>: the first call removes one comma
  inside the string (the rule for a trailing comma before \<^verbatim>\<open>]\<close>), the second call, on the
  serialisation of the first result, removes the other.
\<close>

theorem reparse_differs:
  "parseJSON rejecting_env ''{\"a\":\",,]\"}'' default_options = Inr (JObj [(''a'', JStr '',]'')])
   \<and> JSON_stringify rejecting_env (JObj [(''a'', JStr '',]'')]) = ''{\"a\":\",]\"}''
   \<and> parseJSON rejecting_env (JSON_stringify rejecting_env (JObj [(''a'', JStr '',]'')]))
         default_options = Inr (JObj [(''a'', JStr '']'')])"
proof -
  have 1: "JSON_parse_opt (cleanText ''general'' ''{\"a\":\",,]\"}'') = Some (JObj [(''a'', JStr '',]'')])"
    by code_simp
  have 2: "JSON_stringify rejecting_env (JObj [(''a'', JStr '',]'')]) = ''{\"a\":\",]\"}''"
    by code_simp
  have 3: "JSON_parse_opt (cleanText ''general'' ''{\"a\":\",]\"}'') = Some (JObj [(''a'', JStr '']'')])"
    by code_simp
  show ?thesis
    using 1 3 by (simp only: 2 parseJSON_method1 dataType_of_default simp_thms)
qed

text \<open>
  C8, amended.  Let \<open>v\<close> be a value as \<^verbatim>\<open>parseJSON\<close> returns it: data in which no array
  has a named property and no object a repeated key, and whose numbers are printed as
  literals that read as the same number (\<^const>\<open>serialisable\<close>).  If the serialisation
  \<^verbatim>\<open>JSON.stringify(v)\<close> is \<^const>\<open>untouched\<close>, \<^verbatim>\<open>parseJSON\<close> applied to it returns \<open>v\<close>
  again.  The model, which keeps the order in which the properties of an object were
  created, writes the result as \<open>enumerated v\<close>: the value \<open>v\<close> with the properties in the
  order in which JavaScript enumerates them, which has the serialisation of \<open>v\<close>.
\<close>

theorem parseJSON_reserialised:
  assumes "serialisable env v"
    and "untouched (JSON_stringify env v)"
  shows "parseJSON env (JSON_stringify env v) default_options = Inr (enumerated v)
       \<and> JSON_stringify env (enumerated v) = JSON_stringify env v"
proof
  from assms(2) have "cleanText ''general'' (JSON_stringify env v) = JSON_stringify env v"
    by (rule cleanText_untouched)
  moreover from assms(1) have "JSON_parse_opt (JSON_stringify env v) = Some (enumerated v)"
    by (rule stringify_parse)
  ultimately
  have "JSON_parse_opt (cleanText (dataType_of default_options) (JSON_stringify env v))
          = Some (enumerated v)"
    by simp
  then show "parseJSON env (JSON_stringify env v) default_options = Inr (enumerated v)"
    by (rule parseJSON_method1)
  show "JSON_stringify env (enumerated v) = JSON_stringify env v"
    by (rule stringify_enumerated)
qed

theorem parseJSON_reserialised_witness:
  "parseJSON rejecting_env ''{name: 'Engineer', salary: 1000}'' default_options
     = Inr (JObj [(''name'', JStr ''Engineer''), (''salary'', JNum 1000 0)])
   \<and> JSON_stringify rejecting_env (JObj [(''name'', JStr ''Engineer''), (''salary'', JNum 1000 0)])
     = ''{\"name\":\"Engineer\",\"salary\":1000}''
   \<and> parseJSON rejecting_env ''{\"name\":\"Engineer\",\"salary\":1000}'' default_options
     = Inr (JObj [(''name'', JStr ''Engineer''), (''salary'', JNum 1000 0)])"
proof -
  let ?v = "JObj [(''name'', JStr ''Engineer''), (''salary'', JNum 1000 0)]"
  have 1: "JSON_parse_opt (cleanText ''general'' ''{name: 'Engineer', salary: 1000}'') = Some ?v"
    by code_simp
  have 2: "JSON_stringify rejecting_env ?v = ''{\"name\":\"Engineer\",\"salary\":1000}''"
    by code_simp
  have 3: "serialisable rejecting_env ?v"
    by code_simp
  have 4: "untouched ''{\"name\":\"Engineer\",\"salary\":1000}''"
    by code_simp
  have 5: "enumerated ?v = ?v"
    by code_simp
  have 6: "parseJSON rejecting_env ''{name: 'Engineer', salary: 1000}'' default_options = Inr ?v"
    using 1 by (simp add: parseJSON_method1)
  have "parseJSON rejecting_env (JSON_stringify rejecting_env ?v) default_options
          = Inr (enumerated ?v)"
    by (rule parseJSON_reserialised [THEN conjunct1, OF 3]) (simp only: 2 4)
  then have "parseJSON rejecting_env ''{\"name\":\"Engineer\",\"salary\":1000}'' default_options
          = Inr ?v"
    by (simp only: 2 5)
  with 6 2 show ?thesis by (simp only: simp_thms)
qed


section \<open>Properties of the comparison service\<close>

subsection \<open>Reading and writing properties\<close>

lemma put_prop_same: "get_prop v k = Some x \<Longrightarrow> put_prop v k x = v"
  by (cases v) (simp_all add: AList.update_triv)

lemma get_put_prop:
  "is_object v \<Longrightarrow> get_prop (put_prop v k x) k' = (if k' = k then Some x else get_prop v k')"
  by (cases v) (simp_all add: AList.update_conv')

lemma is_object_put_prop [simp]: "is_object (put_prop v k x) = is_object v"
  by (cases v) simp_all

lemma get_prop_is_object: "get_prop v k = Some x \<Longrightarrow> is_object v"
  by (cases v) simp_all

lemma set_prop_object: "is_object v \<Longrightarrow> set_prop v k x = Inr (put_prop v k x)"
  by (simp add: set_prop_def)

subsection \<open>Validation leaves complete data as it is\<close>

lemma validateCities_none_missing:
  "validateCities country i cities = ([], cs) \<Longrightarrow> cs = cities"
proof (induction cities arbitrary: i cs)
  case Nil
  then show ?case by simp
next
  case (Cons city rest)
  obtain ms rest' where r: "validateCities country (i + 1) rest = (ms, rest')"
    by (cases "validateCities country (i + 1) rest") auto
  from Cons.prems r have "ms = []" and "cs = city # rest'"
    by (auto simp add: Let_def split: if_splits)
  with Cons.IH [of "i + 1" rest'] r show ?case by simp
qed

lemma validateCountry_none_missing:
  assumes "validateCountry country expected csc = ([], csc')"
  shows "csc' = csc"
proof (cases "get_prop csc country")
  case None
  with assms show ?thesis by (simp add: validateCountry_def)
next
  case (Some c)
  show ?thesis
  proof (cases "get_prop c ''topCities''")
    case None
    with assms Some show ?thesis
      by (simp add: validateCountry_def Let_def split: if_splits)
  next
    case t: (Some tc)
    show ?thesis
    proof (cases tc)
      case (JArr cities ex)
      obtain ms cities' where v: "validateCities country 0 cities = (ms, cities')"
        by (cases "validateCities country 0 cities") auto
      from assms Some t JArr v have "ms = []" and c: "cities \<noteq> [] \<longrightarrow> csc' = put_prop csc country (put_prop c ''topCities'' (JArr cities' ex))"
        by (auto simp add: validateCountry_def Let_def split: if_splits)
      with validateCities_none_missing [of country 0 cities cities'] v have "cities' = cities"
        by simp
      with assms Some t JArr v c show ?thesis
        by (auto simp add: validateCountry_def Let_def put_prop_same split: if_splits)
    qed (use assms Some t in \<open>simp_all add: validateCountry_def Let_def split: if_splits\<close>)
  qed
qed

lemma validateCountries_none_missing:
  assumes "validateCountries data c1 c2 = ([], data')"
  shows "data' = data"
proof (cases "truthy_opt (get_prop data ''countrySalaryComparison'')")
  case False
  with assms show ?thesis by (simp add: validateCountries_def)
next
  case True
  then obtain csc where csc: "get_prop data ''countrySalaryComparison'' = Some csc"
    by (cases "get_prop data ''countrySalaryComparison''") auto
  obtain m1 csc1 where 1: "validateCountry ''currentCountry'' c1 csc = (m1, csc1)"
    by (cases "validateCountry ''currentCountry'' c1 csc") auto
  obtain m2 csc2 where 2: "validateCountry ''targetCountry'' c2 csc1 = (m2, csc2)"
    by (cases "validateCountry ''targetCountry'' c2 csc1") auto
  from assms True csc 1 2 have e: "m1 = []" "m2 = []"
    and d: "data' = put_prop data ''countrySalaryComparison'' csc2"
    by (simp_all add: validateCountries_def Let_def)
  from validateCountry_none_missing [of "''currentCountry''" c1 csc csc1] 1 e
  have "csc1 = csc" by simp
  moreover from validateCountry_none_missing [of "''targetCountry''" c2 csc1 csc2] 2 e
  have "csc2 = csc1" by simp
  ultimately show ?thesis
    using d csc by (simp add: put_prop_same)
qed

lemma validateComparisonData_complete:
  assumes "validateComparisonData data c1 c2 r1 r2 = (vr, data')" and "isComplete vr"
  shows "data' = data" and "is_object data"
proof -
  from assms have t: "truthy data"
    by (auto simp add: validateComparisonData_def split: if_splits)
  obtain m1 d1 where v: "validateCountries data c1 c2 = (m1, d1)"
    by (cases "validateCountries data c1 c2") auto
  from assms t v have m: "m1 = []" and d: "data' = d1"
    by (auto simp add: validateComparisonData_def Let_def)
  with validateCountries_none_missing [of data c1 c2 d1] v show "data' = data" by simp
  from m v have "truthy_opt (get_prop data ''countrySalaryComparison'')"
    by (auto simp add: validateCountries_def Let_def split: if_splits prod.splits)
  then show "is_object data"
    by (cases "get_prop data ''countrySalaryComparison''") (auto dest: get_prop_is_object)
qed


subsection \<open>The retry loop\<close>

lemma snd_attempt: "snd (attempt sv ud n d) = complete_attempt sv ud n"
  by (simp add: complete_attempt_def attempt_def Let_def split: sum.splits prod.splits)

lemma retry_loop_counts:
  "retry_loop sv ud a c d b = (a', c', d', b') \<Longrightarrow> a \<le> MAX_RETRIES
     \<Longrightarrow> a' \<le> MAX_RETRIES \<and> c' + a = c + a'"
proof (induction sv ud a c d b rule: retry_loop.induct)
  case (1 sv ud attempts calls data complete)
  show ?case
  proof (cases "attempts < MAX_RETRIES \<and> \<not> complete")
    case False
    with "1.prems" show ?thesis by (simp add: retry_loop.simps)
  next
    case True
    obtain data1 complete1 where a: "attempt sv ud (calls + 1) data = (data1, complete1)"
      by (cases "attempt sv ud (calls + 1) data") auto
    from True "1.prems" a
    have "retry_loop sv ud (attempts + 1) (calls + 1) data1 complete1 = (a', c', d', b')"
      by (simp add: retry_loop.simps [of sv ud attempts])
    from "1.IH" [OF True refl refl a [symmetric] refl this] True show ?thesis
      by simp
  qed
qed

lemma retry_loop_first_complete:
  assumes "k \<le> MAX_RETRIES"
    and "\<And>d. attempt sv ud k d = (dk, True)"
  shows "a < k \<Longrightarrow> \<forall>j. a < j \<and> j < k \<longrightarrow> \<not> complete_attempt sv ud j
           \<Longrightarrow> retry_loop sv ud a a d False = (k, k, dk, True)"
proof (induction "k - a" arbitrary: a d)
  case 0
  then show ?case by simp
next
  case (Suc m)
  show ?case
  proof (cases "a + 1 = k")
    case True
    with Suc.prems assms show ?thesis
      by (simp add: retry_loop.simps [of sv ud a] retry_loop.simps [of sv ud k])
  next
    case False
    with Suc.prems have lt: "a + 1 < k" by simp
    obtain d1 c1 where a1: "attempt sv ud (a + 1) d = (d1, c1)"
      by (cases "attempt sv ud (a + 1) d") auto
    from snd_attempt [of sv ud "a + 1" d] a1 Suc.prems(2) lt have "\<not> c1"
      by auto
    moreover from Suc.hyps(2) have "m = k - (a + 1)" by simp
    moreover from Suc.prems(2) have "\<forall>j. a + 1 < j \<and> j < k \<longrightarrow> \<not> complete_attempt sv ud j"
      by simp
    ultimately have "retry_loop sv ud (a + 1) (a + 1) d1 False = (k, k, dk, True)"
      using Suc.hyps(1) [of "a + 1" d1] lt by simp
    with a1 \<open>\<not> c1\<close> lt assms(1) show ?thesis
      by (simp add: retry_loop.simps [of sv ud a])
  qed
qed

lemma attempt_complete:
  assumes "generateContent sv k = Inr response"
    and "parseJSON sv response \<lparr>verbose = True, fallbackData = None, dataType = None\<rparr> = Inr parsed"
    and "isComplete (fst (validateComparisonData parsed
            (or_default (currentCountry ud) ''US'') (or_default (targetCountry ud) ''US'')
            (or_default (currentRole ud) ''Software Developer'')
            (or_default (targetRole ud) ''Software Developer'')))"
  shows "attempt sv ud k d = (parsed, True)" and "is_object parsed"
proof -
  obtain vr data' where v: "validateComparisonData parsed
            (or_default (currentCountry ud) ''US'') (or_default (targetCountry ud) ''US'')
            (or_default (currentRole ud) ''Software Developer'')
            (or_default (targetRole ud) ''Software Developer'') = (vr, data')"
    by (cases "validateComparisonData parsed
            (or_default (currentCountry ud) ''US'') (or_default (targetCountry ud) ''US'')
            (or_default (currentRole ud) ''Software Developer'')
            (or_default (targetRole ud) ''Software Developer'')") auto
  with assms(3) have c: "isComplete vr" by simp
  from validateComparisonData_complete [OF v c] show "is_object parsed" by simp
  from validateComparisonData_complete [OF v c] assms(1,2) v c
  show "attempt sv ud k d = (parsed, True)"
    by (simp add: attempt_def)
qed

lemma first_complete_result:
  assumes "GEMINI_API_KEY sv \<noteq> []" and "1 \<le> k" and "k \<le> 3"
    and "\<forall>j. 1 \<le> j \<and> j < k \<longrightarrow> \<not> complete_attempt sv ud j"
    and "generateContent sv k = Inr response"
    and "parseJSON sv response \<lparr>verbose = True, fallbackData = None, dataType = None\<rparr>
           = Inr parsed"
    and "isComplete (fst (validateComparisonData parsed
              (or_default (currentCountry ud) ''US'') (or_default (targetCountry ud) ''US'')
              (or_default (currentRole ud) ''Software Developer'')
              (or_default (targetRole ud) ''Software Developer'')))"
  shows "generateComparisonInsights sv ud = (k, Inr (put_prop parsed ''_meta'' (meta sv k True)))"
    and "is_object parsed"
proof -
  from assms(5,6,7) have a: "\<And>d. attempt sv ud k d = (parsed, True)" and o: "is_object parsed"
    using attempt_complete [of sv k response parsed ud] by simp_all
  from assms(2,3,4) have "retry_loop sv ud 0 0 JNull False = (k, k, parsed, True)"
    using retry_loop_first_complete [of k sv ud parsed 0 JNull, OF _ a]
    by (simp add: MAX_RETRIES_def)
  with assms(1) o
  show "generateComparisonInsights sv ud = (k, Inr (put_prop parsed ''_meta'' (meta sv k True)))"
    by (simp add: generateComparisonInsights_def bind_def set_prop_object)
  from o show "is_object parsed" .
qed

text \<open>
  C4.  An invocation of \<^verbatim>\<open>generateComparisonInsights\<close> makes at most 3 generation calls.
  If the \<open>k\<close>-th attempt (\<open>1 \<le> k \<le> 3\<close>) is the first whose response parses to data that
  validates as complete, exactly \<open>k\<close> calls are made and the object returned is that parsed
  object with the property \<^verbatim>\<open>_meta\<close> set: reading \<^verbatim>\<open>_meta\<close> from the result gives
  \<^verbatim>\<open>attempts = k\<close> and \<^verbatim>\<open>isComplete = true\<close> (with the time and the source), and reading
  any other property gives what the parsed object has.
\<close>

theorem first_complete_attempt_returned:
  "fst (generateComparisonInsights sv ud) \<le> 3
   \<and> (GEMINI_API_KEY sv \<noteq> [] \<and> 1 \<le> k \<and> k \<le> 3
        \<and> (\<forall>j. 1 \<le> j \<and> j < k \<longrightarrow> \<not> complete_attempt sv ud j)
        \<and> generateContent sv k = Inr response
        \<and> parseJSON sv response \<lparr>verbose = True, fallbackData = None, dataType = None\<rparr>
            = Inr parsed
        \<and> isComplete (fst (validateComparisonData parsed
              (or_default (currentCountry ud) ''US'') (or_default (targetCountry ud) ''US'')
              (or_default (currentRole ud) ''Software Developer'')
              (or_default (targetRole ud) ''Software Developer'')))
      \<longrightarrow> (\<exists>r. generateComparisonInsights sv ud = (k, Inr r)
             \<and> is_object r
             \<and> get_prop r ''_meta''
                 = Some (JObj [(''generatedAt'', JStr (toISOString sv)),
                               (''source'', JStr ''Gemini AI''),
                               (''attempts'', JNum (int k) 0), (''isComplete'', JBool True)])
             \<and> (\<forall>f. f \<noteq> ''_meta'' \<longrightarrow> get_prop r f = get_prop parsed f)))"
proof (intro conjI impI)
  obtain a' c' d' b' where r: "retry_loop sv ud 0 0 JNull False = (a', c', d', b')"
    by (cases "retry_loop sv ud 0 0 JNull False") auto
  from retry_loop_counts [OF r] have "c' \<le> 3"
    by (simp add: MAX_RETRIES_def)
  with r show "fst (generateComparisonInsights sv ud) \<le> 3"
    by (simp add: generateComparisonInsights_def)
next
  assume h: "GEMINI_API_KEY sv \<noteq> [] \<and> 1 \<le> k \<and> k \<le> 3
        \<and> (\<forall>j. 1 \<le> j \<and> j < k \<longrightarrow> \<not> complete_attempt sv ud j)
        \<and> generateContent sv k = Inr response
        \<and> parseJSON sv response \<lparr>verbose = True, fallbackData = None, dataType = None\<rparr>
            = Inr parsed
        \<and> isComplete (fst (validateComparisonData parsed
              (or_default (currentCountry ud) ''US'') (or_default (targetCountry ud) ''US'')
              (or_default (currentRole ud) ''Software Developer'')
              (or_default (targetRole ud) ''Software Developer'')))"
  let ?m = "JObj [(''generatedAt'', JStr (toISOString sv)), (''source'', JStr ''Gemini AI''),
                  (''attempts'', JNum (int k) 0), (''isComplete'', JBool True)]"
  let ?r = "put_prop parsed ''_meta'' ?m"
  from h have g: "generateComparisonInsights sv ud = (k, Inr ?r)" and o: "is_object parsed"
    using first_complete_result [of sv k ud response parsed] by (simp_all add: meta_def)
  have m: "get_prop ?r ''_meta'' = Some ?m"
    using o by (simp add: get_put_prop)
  have "\<forall>f. f \<noteq> ''_meta'' \<longrightarrow> get_prop ?r f = get_prop parsed f"
    using o by (simp add: get_put_prop)
  then show "\<exists>r. generateComparisonInsights sv ud = (k, Inr r)
             \<and> is_object r
             \<and> get_prop r ''_meta'' = Some ?m
             \<and> (\<forall>f. f \<noteq> ''_meta'' \<longrightarrow> get_prop r f = get_prop parsed f)"
    using g o m by (intro exI [of _ ?r]) simp
qed

theorem first_complete_attempt_returned_witness:
  "generateComparisonInsights second_try_service example_user
     = (2, Inr (JObj [(''countrySalaryComparison'',
                       JObj [(''currentCountry'',
                              JObj [(''name'', JStr ''US''),
                                    (''topCities'', JArr [JObj [(''rolesSalaries'', JArr [] [])]] [])]),
                             (''targetCountry'',
                              JObj [(''name'', JStr ''US''),
                                    (''topCities'', JArr [JObj [(''rolesSalaries'', JArr [] [])]] [])])]),
                      (''roleComparison'',
                       JObj [(''currentRole'',
                              JObj [(''title'', JStr ''Dev''), (''requiredSkills'', JArr [JStr ''x''] [])]),
                             (''targetRole'',
                              JObj [(''title'', JStr ''Dev''), (''requiredSkills'', JArr [JStr ''y''] [])]),
                             (''skillGaps'', JArr [] []), (''transferableSkills'', JArr [] [])]),
                      (''salaryExpectationAnalysis'',
                       JObj [(''isRealistic'', JBool True), (''percentile'', JNum 50 0),
                             (''recommendation'', JStr ''ok'')]),
                      (''_meta'',
                       JObj [(''generatedAt'', JStr ''2025-01-01T00:00:00.000Z''),
                             (''source'', JStr ''Gemini AI''),
                             (''attempts'', JNum 2 0), (''isComplete'', JBool True)])]))"
proof -
  have "JSON_parse_opt (cleanText ''general'' complete_response) = Some complete_data"
    by code_simp
  then have p: "parseJSON second_try_service complete_response
                  \<lparr>verbose = True, fallbackData = None, dataType = None\<rparr> = Inr complete_data"
    by (simp add: parseJSON_method1 dataType_of_def)
  have g: "generateContent second_try_service 2 = Inr complete_response"
    by (simp add: second_try_service_def example_service_def)
  have u: "or_default (currentCountry example_user) ''US'' = ''US''"
    "or_default (targetCountry example_user) ''US'' = ''US''"
    "or_default (currentRole example_user) ''Software Developer'' = ''Dev''"
    "or_default (targetRole example_user) ''Software Developer'' = ''Dev''"
    by (simp_all add: or_default_def example_user_def)
  have v: "isComplete (fst (validateComparisonData complete_data ''US'' ''US'' ''Dev'' ''Dev''))"
    by code_simp
  have n: "\<not> complete_attempt second_try_service example_user 1"
    by code_simp
  have f: "\<forall>j. 1 \<le> j \<and> j < (2::nat) \<longrightarrow> \<not> complete_attempt second_try_service example_user j"
  proof (intro allI impI)
    fix j :: nat
    assume "1 \<le> j \<and> j < 2"
    then have "j = 1" by simp
    with n show "\<not> complete_attempt second_try_service example_user j" by simp
  qed
  have k: "GEMINI_API_KEY second_try_service \<noteq> []"
    "toISOString second_try_service = ''2025-01-01T00:00:00.000Z''"
    by (simp_all add: second_try_service_def example_service_def)
  from first_complete_attempt_returned
         [of second_try_service example_user 2 complete_response complete_data]
       k f g p v u
  obtain r where r: "generateComparisonInsights second_try_service example_user = (2, Inr r)"
    "get_prop r ''_meta''
       = Some (JObj [(''generatedAt'', JStr ''2025-01-01T00:00:00.000Z''),
                     (''source'', JStr ''Gemini AI''),
                     (''attempts'', JNum 2 0), (''isComplete'', JBool True)])"
    by auto
  have "generateComparisonInsights second_try_service example_user
          = (2, Inr (put_prop complete_data ''_meta'' (meta second_try_service 2 True)))"
    using k(1) f g p v u
    by (intro first_complete_result [of second_try_service 2 example_user complete_response])
      simp_all
  then show ?thesis
    using r by (simp add: complete_data_def meta_def k(2))
qed







subsection \<open>What validation changes\<close>

lemma is_object_iff: "is_object v \<longleftrightarrow> truthy v \<and> typeof (Some v) = ''object''"
  by (cases v) simp_all

lemma not_truthy_get_prop: "\<not> truthy v \<Longrightarrow> get_prop v k = None"
  by (cases v) simp_all

lemma repair_city_other_fields:
  "k \<noteq> ''rolesSalaries'' \<Longrightarrow> get_prop (repair_city city) k = get_prop city k"
  by (simp add: repair_city_def get_put_prop)

lemma repair_city_rolesSalaries:
  "is_object city \<Longrightarrow> isArray (get_prop (repair_city city) ''rolesSalaries'')"
  by (simp add: repair_city_def get_put_prop)

lemma validateCities_repair:
  "snd (validateCities country i cities) = map repair_city cities"
proof (induction cities arbitrary: i)
  case Nil
  then show ?case by simp
next
  case (Cons city rest)
  obtain ms rest' where r: "validateCities country (i + 1) rest = (ms, rest')"
    by (cases "validateCities country (i + 1) rest") auto
  with Cons.IH [of "i + 1"] have "rest' = map repair_city rest" by simp
  with r show ?case
    by (simp add: Let_def repair_city_def is_object_iff)
qed

lemma validateCountry_repair:
  "snd (validateCountry country expected csc) = repair_country country csc"
proof (cases "get_prop csc country")
  case None
  then show ?thesis by (simp add: validateCountry_def repair_country_def)
next
  case (Some c)
  show ?thesis
  proof (cases "truthy c")
    case False
    with Some not_truthy_get_prop [of c "''topCities''"] show ?thesis
      by (simp add: validateCountry_def repair_country_def)
  next
    case True
    show ?thesis
    proof (cases "get_prop c ''topCities''")
      case None
      with Some True show ?thesis
        by (simp add: validateCountry_def repair_country_def Let_def)
    next
      case t: (Some tc)
      show ?thesis
      proof (cases tc)
        case (JArr cities ex)
        obtain ms cities' where v: "validateCities country 0 cities = (ms, cities')"
          by (cases "validateCities country 0 cities") auto
        with validateCities_repair [of country 0 cities] have "cities' = map repair_city cities"
          by simp
        with Some True t JArr v show ?thesis
          by (cases "cities = []")
            (simp_all add: validateCountry_def repair_country_def Let_def put_prop_same)
      qed (use Some True t in \<open>simp_all add: validateCountry_def repair_country_def Let_def\<close>)
    qed
  qed
qed

lemma validateCountries_repair:
  "snd (validateCountries data c1 c2) = repair_cities data"
proof (cases "get_prop data ''countrySalaryComparison''")
  case None
  then show ?thesis by (simp add: validateCountries_def repair_cities_def)
next
  case (Some csc)
  show ?thesis
  proof (cases "truthy csc")
    case False
    then have "repair_country ''targetCountry'' (repair_country ''currentCountry'' csc) = csc"
      by (simp add: repair_country_def not_truthy_get_prop)
    with Some False show ?thesis
      by (simp add: validateCountries_def repair_cities_def put_prop_same)
  next
    case True
    obtain m1 csc1 where 1: "validateCountry ''currentCountry'' c1 csc = (m1, csc1)"
      by (cases "validateCountry ''currentCountry'' c1 csc") auto
    obtain m2 csc2 where 2: "validateCountry ''targetCountry'' c2 csc1 = (m2, csc2)"
      by (cases "validateCountry ''targetCountry'' c2 csc1") auto
    from validateCountry_repair [of "''currentCountry''" c1 csc] 1
    have "csc1 = repair_country ''currentCountry'' csc" by simp
    moreover from validateCountry_repair [of "''targetCountry''" c2 csc1] 2
    have "csc2 = repair_country ''targetCountry'' csc1" by simp
    ultimately show ?thesis
      using Some True 1 2 by (simp add: validateCountries_def repair_cities_def Let_def)
  qed
qed

text \<open>
  C10.  \<^verbatim>\<open>validateComparisonData\<close> changes the object it is given: afterwards every entry of
  \<^verbatim>\<open>topCities\<close>, of \<^verbatim>\<open>currentCountry\<close> and of \<^verbatim>\<open>targetCountry\<close>, that is an object and
  whose \<^verbatim>\<open>rolesSalaries\<close> was not an array has \<^verbatim>\<open>rolesSalaries = []\<close>, and nothing else
  has changed; in particular every other top-level field is as it was.
\<close>

theorem validateComparisonData_assigns_rolesSalaries:
  "snd (validateComparisonData data c1 c2 r1 r2) = repair_cities data
   \<and> (\<forall>k. k \<noteq> ''countrySalaryComparison'' \<longrightarrow> get_prop (repair_cities data) k = get_prop data k)"
proof
  show "snd (validateComparisonData data c1 c2 r1 r2) = repair_cities data"
  proof (cases "truthy data")
    case False
    then show ?thesis
      by (simp add: validateComparisonData_def repair_cities_def not_truthy_get_prop)
  next
    case True
    obtain m d where v: "validateCountries data c1 c2 = (m, d)"
      by (cases "validateCountries data c1 c2") auto
    with validateCountries_repair [of data c1 c2] have "d = repair_cities data" by simp
    with True v show ?thesis
      by (simp add: validateComparisonData_def Let_def)
  qed
  show "\<forall>k. k \<noteq> ''countrySalaryComparison'' \<longrightarrow> get_prop (repair_cities data) k = get_prop data k"
    by (auto simp add: repair_cities_def get_put_prop dest: get_prop_is_object split: option.splits)
qed



theorem validateComparisonData_assigns_rolesSalaries_witness:
  "snd (validateComparisonData
          (JObj [(''countrySalaryComparison'',
                  JObj [(''currentCountry'',
                         JObj [(''name'', JStr ''US''),
                               (''topCities'',
                                JArr [JObj [(''city'', JStr ''Austin'')], JNull,
                                      JObj [(''city'', JStr ''Boston''),
                                            (''rolesSalaries'', JStr ''n/a'')]] [])])]),
                 (''roleComparison'', JNull)])
          ''US'' ''US'' ''Dev'' ''Dev'')
     = JObj [(''countrySalaryComparison'',
              JObj [(''currentCountry'',
                     JObj [(''name'', JStr ''US''),
                           (''topCities'',
                            JArr [JObj [(''city'', JStr ''Austin''),
                                        (''rolesSalaries'', JArr [] [])], JNull,
                                  JObj [(''city'', JStr ''Boston''),
                                        (''rolesSalaries'', JArr [] [])]] [])])]),
             (''roleComparison'', JNull)]"
proof -
  let ?data = "JObj [(''countrySalaryComparison'',
                  JObj [(''currentCountry'',
                         JObj [(''name'', JStr ''US''),
                               (''topCities'',
                                JArr [JObj [(''city'', JStr ''Austin'')], JNull,
                                      JObj [(''city'', JStr ''Boston''),
                                            (''rolesSalaries'', JStr ''n/a'')]] [])])]),
                 (''roleComparison'', JNull)]"
  have "repair_cities ?data
     = JObj [(''countrySalaryComparison'',
              JObj [(''currentCountry'',
                     JObj [(''name'', JStr ''US''),
                           (''topCities'',
                            JArr [JObj [(''city'', JStr ''Austin''),
                                        (''rolesSalaries'', JArr [] [])], JNull,
                                  JObj [(''city'', JStr ''Boston''),
                                        (''rolesSalaries'', JArr [] [])]] [])])]),
             (''roleComparison'', JNull)]"
    by code_simp
  with validateComparisonData_assigns_rolesSalaries [of ?data "''US''" "''US''" "''Dev''" "''Dev''"]
  show ?thesis by (simp only:)
qed


section \<open>Properties of the industry insights validation\<close>

lemma no_toString_list_iff: "no_toString_list xs \<longleftrightarrow> (\<forall>x \<in> set xs. no_toString x)"
  by (induction xs) auto

lemma no_toString_props_map_of:
  "no_toString_props ps \<Longrightarrow> map_of ps k = Some x \<Longrightarrow> no_toString x \<and> k \<noteq> ''toString''"
  by (induction ps) (auto split: if_splits)

lemma no_toString_get_prop:
  "no_toString v \<Longrightarrow> get_prop v k = Some x \<Longrightarrow> no_toString x"
  by (cases v) (auto dest: no_toString_props_map_of)

lemma no_toString_props_toString: "no_toString_props ps \<Longrightarrow> map_of ps ''toString'' = None"
  by (cases "map_of ps ''toString''") (auto dest: no_toString_props_map_of)

lemma js_String_error:
  "js_String env v = Inl e \<Longrightarrow> e = cannot_convert \<and> \<not> no_toString v"
  "js_String_elems env xs = Inl e \<Longrightarrow> e = cannot_convert \<and> \<not> no_toString_list xs"
proof (induction env v and env xs arbitrary: e and e rule: js_String_js_String_elems.induct)
  case (5 env ps)
  then show ?case
    by (auto split: if_splits dest: no_toString_props_toString)
next
  case (6 env xs ps)
  then show ?case
    by (auto split: if_splits sum.splits dest: no_toString_props_toString)
next
  case (8 env x xs)
  then show ?case
    by (auto split: if_splits sum.splits)
qed simp_all


lemma no_toString_the_get_prop:
  "truthy_opt (get_prop v k) \<Longrightarrow> no_toString v \<Longrightarrow> no_toString (the (get_prop v k))"
  by (cases "get_prop v k") (auto dest: no_toString_get_prop)

lemma role_to_string_error:
  assumes "role_to_string env role = Inl e"
  shows "e = cannot_convert \<and> \<not> no_toString role"
proof (cases "is_object role")
  case False
  with assms have "js_String env role = Inl e"
    by (cases role) (simp_all add: role_to_string_def)
  then show ?thesis by (rule js_String_error(1))
next
  case True
  define a where "a =
     (if truthy_opt (get_prop role ''name'') then the (get_prop role ''name'')
      else if truthy_opt (get_prop role ''title'') then the (get_prop role ''title'')
      else if truthy_opt (get_prop role ''role'') then the (get_prop role ''role'')
      else JStr (JSON_stringify env role))"
  from True have "role_to_string env role = js_String env a"
    by (cases role) (simp_all add: role_to_string_def a_def)
  with assms have "js_String env a = Inl e" by simp
  then have e: "e = cannot_convert" and n: "\<not> no_toString a"
    using js_String_error(1) [of env a e] by simp_all
  have "no_toString role \<Longrightarrow> no_toString a"
    by (simp add: a_def no_toString_the_get_prop)
  with e n show ?thesis by auto
qed

lemma map_role_to_string_error:
  "map_result (role_to_string env) roles = Inl e
     \<Longrightarrow> e = cannot_convert \<and> \<not> no_toString_list roles"
proof (induction roles arbitrary: e)
  case Nil
  then show ?case by simp
next
  case (Cons x xs)
  then show ?case
    using role_to_string_error [of env x] by (auto split: sum.splits)
qed

lemma fix_company_error:
  assumes "fix_company env company = Inl e"
  shows "e = cannot_convert \<and> \<not> no_toString company"
proof -
  from assms obtain roles ex where r: "get_prop company ''roles'' = Some (JArr roles ex)"
    and m: "map_result (role_to_string env) roles = Inl e"
    by (auto simp add: fix_company_def bind_def split: option.splits json.splits sum.splits)
  from map_role_to_string_error [OF m]
  have "e = cannot_convert" and "\<not> no_toString_list roles" by simp_all
  moreover from this r have "\<not> no_toString company"
    using no_toString_get_prop [of company "''roles''" "JArr roles ex"] by auto
  ultimately show ?thesis by simp
qed

lemma map_fix_company_error:
  "map_result (fix_company env) cs = Inl e
     \<Longrightarrow> e = cannot_convert \<and> \<not> no_toString_list cs"
proof (induction cs arbitrary: e)
  case Nil
  then show ?case by simp
next
  case (Cons x xs)
  then show ?case
    using fix_company_error [of env x] by (auto split: sum.splits)
qed

lemma no_toString_list_filter: "no_toString_list xs \<Longrightarrow> no_toString_list (filter P xs)"
  by (simp add: no_toString_list_iff)

lemma process_field_error:
  assumes "process_field env d f = Inl e" and "is_object d"
  shows "f = ''topCompanies'' \<and> e = cannot_convert
         \<and> (\<exists>x. get_prop d ''topCompanies'' = Some x \<and> \<not> no_toString x)"
proof (cases "\<exists>items ex. get_prop d f = Some (JArr items ex)")
  case False
  with assms show ?thesis
    by (auto simp add: process_field_def set_prop_object split: option.splits json.splits)
next
  case True
  then obtain items ex where g: "get_prop d f = Some (JArr items ex)" by auto
  with assms have f: "f = ''topCompanies''"
    and m: "map_result (fix_company env) (filter valid_company items) = Inl e"
    by (auto simp add: process_field_def set_prop_object bind_def split: if_splits sum.splits)
  from map_fix_company_error [OF m]
  have "e = cannot_convert" and "\<not> no_toString_list (filter valid_company items)" by simp_all
  with no_toString_list_filter [of items valid_company] have "\<not> no_toString (JArr items ex)"
    by auto
  with f g \<open>e = cannot_convert\<close> show ?thesis by simp
qed

lemma process_field_result:
  assumes "process_field env d f = Inr d'" and "is_object d"
  shows "is_object d' \<and> isArray (get_prop d' f) \<and> (\<forall>k. k \<noteq> f \<longrightarrow> get_prop d' k = get_prop d k)"
proof (cases "\<exists>items ex. get_prop d f = Some (JArr items ex)")
  case False
  with assms have "d' = put_prop d f (JArr [] [])"
    by (auto simp add: process_field_def set_prop_object split: option.splits json.splits)
  with assms(2) show ?thesis by (simp add: get_put_prop)
next
  case True
  then obtain items ex where g: "get_prop d f = Some (JArr items ex)" by auto
  with assms have "d' = d \<or> (\<exists>ys. d' = put_prop d f (JArr ys []))"
    by (auto simp add: process_field_def set_prop_object bind_def split: if_splits sum.splits)
  with assms(2) g show ?thesis by (auto simp add: get_put_prop)
qed

lemma fold_process_field_error:
  "fold_result (process_field env) d fs = Inl e \<Longrightarrow> is_object d \<Longrightarrow> distinct fs
     \<Longrightarrow> e = cannot_convert \<and> (\<exists>x. get_prop d ''topCompanies'' = Some x \<and> \<not> no_toString x)
         \<and> ''topCompanies'' \<in> set fs"
proof (induction fs arbitrary: d)
  case Nil
  then show ?case by simp
next
  case (Cons f fs)
  show ?case
  proof (cases "process_field env d f")
    case (Inl e')
    with Cons.prems process_field_error [of env d f e'] show ?thesis by auto
  next
    case (Inr d')
    with Cons.prems have r: "fold_result (process_field env) d' fs = Inl e" by simp
    from process_field_result [OF Inr Cons.prems(2)]
    have o: "is_object d'" and fr: "\<forall>k. k \<noteq> f \<longrightarrow> get_prop d' k = get_prop d k" by simp_all
    from Cons.IH [OF r o] Cons.prems(3)
    have "e = cannot_convert" and x: "\<exists>x. get_prop d' ''topCompanies'' = Some x \<and> \<not> no_toString x"
      and m: "''topCompanies'' \<in> set fs"
      by simp_all
    from m Cons.prems(3) have "''topCompanies'' \<noteq> f" by auto
    with fr x \<open>e = cannot_convert\<close> m show ?thesis by auto
  qed
qed

lemma fold_process_field_result:
  "fold_result (process_field env) d fs = Inr d' \<Longrightarrow> is_object d
     \<Longrightarrow> is_object d' \<and> (\<forall>f \<in> set fs. isArray (get_prop d' f))
         \<and> (\<forall>k. k \<notin> set fs \<longrightarrow> get_prop d' k = get_prop d k)"
proof (induction fs arbitrary: d)
  case Nil
  then show ?case by simp
next
  case (Cons f fs)
  from Cons.prems obtain d1 where 1: "process_field env d f = Inr d1"
    and r: "fold_result (process_field env) d1 fs = Inr d'"
    by (auto split: sum.splits)
  from process_field_result [OF 1 Cons.prems(2)]
  have o: "is_object d1" and a: "isArray (get_prop d1 f)"
    and fr: "\<forall>k. k \<noteq> f \<longrightarrow> get_prop d1 k = get_prop d k" by simp_all
  from Cons.IH [OF r o]
  have o': "is_object d'" and as: "\<forall>g \<in> set fs. isArray (get_prop d' g)"
    and fr': "\<forall>k. k \<notin> set fs \<longrightarrow> get_prop d' k = get_prop d1 k" by simp_all
  have "isArray (get_prop d' f)"
  proof (cases "f \<in> set fs")
    case True
    with as show ?thesis by simp
  next
    case False
    with fr' a show ?thesis by simp
  qed
  with o' as fr fr' show ?case by auto
qed


lemma js_String_typeof:
  "(if typeof (Some v) \<noteq> ''string'' then js_String env v else Inr (string_value v))
     = js_String env v"
  by (cases v) simp_all

lemma process_industryOverview_error:
  assumes "process_industryOverview env d = Inl e" and "is_object d"
  shows "e = cannot_convert \<and> \<not> no_toString d"
proof (cases "get_prop d ''industryOverview''")
  case None
  with assms show ?thesis
    by (simp add: process_industryOverview_def set_prop_object)
next
  case (Some v)
  with assms have "js_String env v = Inl e"
    by (cases "js_String env v")
      (simp_all add: process_industryOverview_def Let_def js_String_typeof set_prop_object
        bind_def split: if_splits)
  from js_String_error(1) [OF this] no_toString_get_prop [OF _ Some] show ?thesis by auto
qed

lemma process_industryOverview_result:
  assumes "process_industryOverview env d = Inr d'" and "is_object d"
  shows "is_object d' \<and> typeof (get_prop d' ''industryOverview'') = ''string''
         \<and> (\<forall>k. k \<noteq> ''industryOverview'' \<longrightarrow> get_prop d' k = get_prop d k)"
proof -
  from assms obtain t where "d' = put_prop d ''industryOverview'' (JStr t)"
    by (auto simp add: process_industryOverview_def Let_def js_String_typeof set_prop_object
        bind_def split: if_splits sum.splits)
  with assms(2) show ?thesis by (simp add: get_put_prop)
qed

lemma ensure_expectedSalaryRange_result:
  assumes "is_object d"
  shows "\<exists>d' r. ensure_expectedSalaryRange d = Inr d' \<and> is_object d'
           \<and> get_prop d' ''expectedSalaryRange'' = Some r \<and> is_object r
           \<and> (\<forall>k. k \<noteq> ''expectedSalaryRange'' \<longrightarrow> get_prop d' k = get_prop d k)"
proof (cases "get_prop d ''expectedSalaryRange''")
  case None
  with assms show ?thesis
    by (simp add: ensure_expectedSalaryRange_def set_prop_object get_put_prop
        default_expectedSalaryRange_def)
next
  case (Some r)
  with assms show ?thesis
    by (cases r)
      (simp_all add: ensure_expectedSalaryRange_def set_prop_object get_put_prop
        default_expectedSalaryRange_def)
qed

lemma arrayFields_distinct: "distinct arrayFields"
  by (simp add: arrayFields_def)

lemma arrayFields_other:
  "''industryOverview'' \<notin> set arrayFields" "''expectedSalaryRange'' \<notin> set arrayFields"
  "''topCompanies'' \<noteq> ''industryOverview''"
  by (simp_all add: arrayFields_def)

text \<open>
  C5.  The claim: for every parsed object the validation and backfill step never throws
  and returns an object with the ten array fields as arrays, \<^verbatim>\<open>industryOverview\<close> as a
  string and \<^verbatim>\<open>expectedSalaryRange\<close> as an object.  The step can throw: \<^verbatim>\<open>String(...)\<close> of
  an object that has an own property \<^verbatim>\<open>toString\<close> raises a \<^verbatim>\<open>TypeError\<close>, as for the
  parsed text \<^verbatim>\<open>{"industryOverview":{"toString":1}}\<close>.
\<close>

theorem own_toString_makes_validation_throw:
  "parseJSON rejecting_env ''{\"industryOverview\":{\"toString\":1}}''
     \<lparr>verbose = True, fallbackData = Some industry_fallbackData, dataType = None\<rparr>
     = Inr (JObj [(''industryOverview'', JObj [(''toString'', JNum 1 0)])])
   \<and> validateInsights rejecting_env (JObj [(''industryOverview'', JObj [(''toString'', JNum 1 0)])])
     = Inl (TypeError ''Cannot convert object to primitive value'')"
proof -
  have "JSON_parse_opt (cleanText ''general'' ''{\"industryOverview\":{\"toString\":1}}'')
          = Some (JObj [(''industryOverview'', JObj [(''toString'', JNum 1 0)])])"
    by code_simp
  then have "parseJSON rejecting_env ''{\"industryOverview\":{\"toString\":1}}''
     \<lparr>verbose = True, fallbackData = Some industry_fallbackData, dataType = None\<rparr>
     = Inr (JObj [(''industryOverview'', JObj [(''toString'', JNum 1 0)])])"
    by (simp add: parseJSON_method1 dataType_of_def)
  moreover have "validateInsights rejecting_env
       (JObj [(''industryOverview'', JObj [(''toString'', JNum 1 0)])])
     = Inl (TypeError ''Cannot convert object to primitive value'')"
    by code_simp
  ultimately show ?thesis by (simp only: simp_thms)
qed

text \<open>
  C5, amended.  For every parsed value that is an object (or an array), the validation and
  backfill step either returns an object with the ten array fields as arrays,
  \<^verbatim>\<open>industryOverview\<close> as a string and \<^verbatim>\<open>expectedSalaryRange\<close> as an object, or throws
  the \<^verbatim>\<open>TypeError\<close> of a failed string conversion; it throws only if some object inside
  the value has an own property named \<^verbatim>\<open>toString\<close>.
\<close>

theorem validateInsights_shape:
  assumes "is_object data"
  shows "case validateInsights env data of
           Inr d \<Rightarrow> complete_shape d
         | Inl e \<Rightarrow> e = cannot_convert \<and> \<not> no_toString data"
proof -
  from assms have t: "truthy data" by (cases data) simp_all
  show ?thesis
  proof (cases "process_industryOverview env data")
    case (Inl e)
    with t process_industryOverview_error [OF Inl assms] show ?thesis
      by (simp add: validateInsights_def bind_def)
  next
    case (Inr d1)
    from process_industryOverview_result [OF Inr assms]
    have o1: "is_object d1" and s1: "typeof (get_prop d1 ''industryOverview'') = ''string''"
      and f1: "\<forall>k. k \<noteq> ''industryOverview'' \<longrightarrow> get_prop d1 k = get_prop data k"
      by simp_all
    show ?thesis
    proof (cases "fold_result (process_field env) d1 arrayFields")
      case (Inl e)
      from fold_process_field_error [OF Inl o1 arrayFields_distinct]
      obtain x where "e = cannot_convert" and "get_prop d1 ''topCompanies'' = Some x"
        and "\<not> no_toString x" by auto
      moreover from this f1 have "get_prop data ''topCompanies'' = Some x"
        by (simp add: arrayFields_other)
      ultimately have "e = cannot_convert \<and> \<not> no_toString data"
        using no_toString_get_prop [of data "''topCompanies''" x] by auto
      with t Inr Inl show ?thesis
        by (simp add: validateInsights_def bind_def)
    next
      case r2: (Inr d2)
      from fold_process_field_result [OF r2 o1]
      have o2: "is_object d2" and a2: "\<forall>f \<in> set arrayFields. isArray (get_prop d2 f)"
        and f2: "\<forall>k. k \<notin> set arrayFields \<longrightarrow> get_prop d2 k = get_prop d1 k"
        by simp_all
      from ensure_expectedSalaryRange_result [OF o2]
      obtain d3 r where 3: "ensure_expectedSalaryRange d2 = Inr d3" and o3: "is_object d3"
        and r: "get_prop d3 ''expectedSalaryRange'' = Some r" "is_object r"
        and f3: "\<forall>k. k \<noteq> ''expectedSalaryRange'' \<longrightarrow> get_prop d3 k = get_prop d2 k"
        by auto
      from a2 f3 have "\<forall>f \<in> set arrayFields. isArray (get_prop d3 f)"
        using arrayFields_other(2) by (metis)
      moreover from s1 f2 f3 have "typeof (get_prop d3 ''industryOverview'') = ''string''"
        by (simp add: arrayFields_other)
      ultimately have "complete_shape d3"
        using o3 r by (simp add: complete_shape_def list_all_iff)
      with t Inr r2 3 show ?thesis
        by (simp add: validateInsights_def bind_def)
    qed
  qed
qed


theorem validateInsights_shape_witness:
  "validateInsights rejecting_env industry_fallbackData
     = Inr (put_prop industry_fallbackData ''nextActions'' (JArr [] []))
   \<and> complete_shape (put_prop industry_fallbackData ''nextActions'' (JArr [] []))"
proof -
  have o: "is_object industry_fallbackData"
    by (simp add: industry_fallbackData_def)
  have v: "validateInsights rejecting_env industry_fallbackData
     = Inr (put_prop industry_fallbackData ''nextActions'' (JArr [] []))"
    by code_simp
  from validateInsights_shape [OF o, of rejecting_env] v show ?thesis by simp
qed

subsection \<open>The city salary data\<close>

lemma fold_process_field_at:
  "fold_result (process_field env) d fs = Inr d' \<Longrightarrow> is_object d \<Longrightarrow> distinct fs
     \<Longrightarrow> f \<in> set fs
     \<Longrightarrow> \<exists>d0 d1. is_object d0 \<and> get_prop d0 f = get_prop d f
           \<and> process_field env d0 f = Inr d1 \<and> get_prop d' f = get_prop d1 f"
proof (induction fs arbitrary: d)
  case Nil
  then show ?case by simp
next
  case (Cons g fs)
  from Cons.prems obtain d1 where 1: "process_field env d g = Inr d1"
    and r: "fold_result (process_field env) d1 fs = Inr d'"
    by (auto split: sum.splits)
  from process_field_result [OF 1 Cons.prems(2)]
  have o: "is_object d1" and fr: "\<forall>k. k \<noteq> g \<longrightarrow> get_prop d1 k = get_prop d k" by simp_all
  show ?case
  proof (cases "f = g")
    case True
    with Cons.prems(3) have "f \<notin> set fs" by simp
    with fold_process_field_result [OF r o] have "get_prop d' f = get_prop d1 f" by simp
    with True 1 Cons.prems(2) show ?thesis by blast
  next
    case False
    with Cons.prems have "f \<in> set fs" and "distinct fs" by simp_all
    from Cons.IH [OF r o this(2) this(1)] fr False show ?thesis by auto
  qed
qed

lemma process_field_citySalaryData:
  assumes "process_field env d ''citySalaryData'' = Inr d'" and "is_object d"
    and "get_prop d ''citySalaryData'' = Some (JArr cities ex)"
  shows "get_prop d' ''citySalaryData'' = Some (JArr (map fix_city (filter valid_city cities)) [])"
  using assms by (auto simp add: process_field_def set_prop_object get_put_prop)

lemma fix_city_props:
  assumes "is_object c"
  shows "get_prop (fix_city c) ''rolesSalaries''
           = Some (JArr (case get_prop c ''rolesSalaries'' of
                           Some (JArr roles ex) \<Rightarrow> filter valid_roleSalary roles
                         | _ \<Rightarrow> []) [])"
    and "k \<noteq> ''rolesSalaries'' \<Longrightarrow> get_prop (fix_city c) k = get_prop c k"
  using assms
  by (auto simp add: fix_city_def get_put_prop split: option.splits json.splits)

text \<open>
  C6.  The claim: each city's validated \<^verbatim>\<open>rolesSalaries\<close> holds exactly the input entries
  that are objects with a \<^verbatim>\<open>role\<close> field and with the three salaries of type number or
  string.  An entry whose \<^verbatim>\<open>role\<close> is the empty string has all these fields and is
  dropped all the same: the filter tests \<^verbatim>\<open>role.role\<close> for truthiness.
\<close>

theorem empty_role_entry_dropped:
  "has_required_subfields
     (JObj [(''role'', JStr []), (''minSalary'', JNum 1 0), (''medianSalary'', JNum 2 0),
            (''maxSalary'', JNum 3 0)])
   \<and> validateInsights rejecting_env city_example = Inr city_example_validated"
  by code_simp

text \<open>
  C6, amended.  When the validation returns, \<^verbatim>\<open>citySalaryData\<close> holds, in their order, the
  input cities that pass the city filter, and the \<^verbatim>\<open>rolesSalaries\<close> of each is the list of
  exactly those entries of its input \<^verbatim>\<open>rolesSalaries\<close> array, in their order, that are
  objects with a truthy \<^verbatim>\<open>role\<close> and with \<^verbatim>\<open>minSalary\<close>, \<^verbatim>\<open>medianSalary\<close> and
  \<^verbatim>\<open>maxSalary\<close> each of type number or string (the empty list when the input was not an
  array); the other fields of the city are unchanged.
\<close>

theorem citySalaryData_roles_filtered:
  assumes "validateInsights env data = Inr d'"
    and "get_prop data ''citySalaryData'' = Some (JArr cities ex)"
  shows "\<exists>cities'. get_prop d' ''citySalaryData'' = Some (JArr cities' [])
           \<and> length cities' = length (filter valid_city cities)
           \<and> (\<forall>i < length cities'.
                 get_prop (cities' ! i) ''rolesSalaries''
                   = Some (JArr
                       (case get_prop (filter valid_city cities ! i) ''rolesSalaries'' of
                          Some (JArr roles ex') \<Rightarrow>
                            filter (\<lambda>r. is_object r \<and> truthy_opt (get_prop r ''role'')
                                        \<and> number_or_string (get_prop r ''minSalary'')
                                        \<and> number_or_string (get_prop r ''medianSalary'')
                                        \<and> number_or_string (get_prop r ''maxSalary'')) roles
                        | _ \<Rightarrow> []) [])
                 \<and> (\<forall>k. k \<noteq> ''rolesSalaries''
                       \<longrightarrow> get_prop (cities' ! i) k = get_prop (filter valid_city cities ! i) k))"
proof -
  from assms(2) have o: "is_object data" by (rule get_prop_is_object)
  then have t: "truthy data" by (cases data) simp_all
  from assms(1) t obtain d1 d2 where 1: "process_industryOverview env data = Inr d1"
    and 2: "fold_result (process_field env) d1 arrayFields = Inr d2"
    and 3: "ensure_expectedSalaryRange d2 = Inr d'"
    by (auto simp add: validateInsights_def bind_def split: sum.splits)
  from process_industryOverview_result [OF 1 o]
  have o1: "is_object d1" and c1: "get_prop d1 ''citySalaryData'' = get_prop data ''citySalaryData''"
    by simp_all
  have "''citySalaryData'' \<in> set arrayFields" by (simp add: arrayFields_def)
  from fold_process_field_at [OF 2 o1 arrayFields_distinct this]
  obtain d0 d0' where o0: "is_object d0"
    and c0: "get_prop d0 ''citySalaryData'' = get_prop d1 ''citySalaryData''"
    and p: "process_field env d0 ''citySalaryData'' = Inr d0'"
    and c2: "get_prop d2 ''citySalaryData'' = get_prop d0' ''citySalaryData''"
    by auto
  from fold_process_field_result [OF 2 o1] have o2: "is_object d2" by simp
  from ensure_expectedSalaryRange_result [OF o2] 3
  have c3: "get_prop d' ''citySalaryData'' = get_prop d2 ''citySalaryData''" by auto
  let ?cs = "map fix_city (filter valid_city cities)"
  from process_field_citySalaryData [OF p o0] c0 c1 assms(2) c2 c3
  have r: "get_prop d' ''citySalaryData'' = Some (JArr ?cs [])" by simp
  have "\<forall>i < length ?cs.
          get_prop (?cs ! i) ''rolesSalaries''
            = Some (JArr
                (case get_prop (filter valid_city cities ! i) ''rolesSalaries'' of
                   Some (JArr roles ex') \<Rightarrow> filter valid_roleSalary roles
                 | _ \<Rightarrow> []) [])
          \<and> (\<forall>k. k \<noteq> ''rolesSalaries''
                \<longrightarrow> get_prop (?cs ! i) k = get_prop (filter valid_city cities ! i) k)"
  proof (intro allI impI)
    fix i
    assume i: "i < length ?cs"
    then have "filter valid_city cities ! i \<in> set (filter valid_city cities)"
      using nth_mem [of i "filter valid_city cities"] by simp
    then have "valid_city (filter valid_city cities ! i)"
      by (simp only: set_filter mem_Collect_eq)
    then have "is_object (filter valid_city cities ! i)" by (simp add: valid_city_def)
    from fix_city_props [OF this] i
    show "get_prop (?cs ! i) ''rolesSalaries''
            = Some (JArr
                (case get_prop (filter valid_city cities ! i) ''rolesSalaries'' of
                   Some (JArr roles ex') \<Rightarrow> filter valid_roleSalary roles
                 | _ \<Rightarrow> []) [])
          \<and> (\<forall>k. k \<noteq> ''rolesSalaries''
                \<longrightarrow> get_prop (?cs ! i) k = get_prop (filter valid_city cities ! i) k)"
      by simp
  qed
  then have "\<forall>i < length ?cs.
                 get_prop (?cs ! i) ''rolesSalaries''
                   = Some (JArr
                       (case get_prop (filter valid_city cities ! i) ''rolesSalaries'' of
                          Some (JArr roles ex') \<Rightarrow>
                            filter (\<lambda>r. is_object r \<and> truthy_opt (get_prop r ''role'')
                                        \<and> number_or_string (get_prop r ''minSalary'')
                                        \<and> number_or_string (get_prop r ''medianSalary'')
                                        \<and> number_or_string (get_prop r ''maxSalary'')) roles
                        | _ \<Rightarrow> []) [])
                 \<and> (\<forall>k. k \<noteq> ''rolesSalaries''
                       \<longrightarrow> get_prop (?cs ! i) k = get_prop (filter valid_city cities ! i) k)"
    unfolding valid_roleSalary_def [abs_def] .
  with r show ?thesis by (intro exI [of _ ?cs]) simp
qed


theorem citySalaryData_roles_filtered_witness:
  "validateInsights rejecting_env city_example = Inr city_example_validated
   \<and> (\<exists>cities'. get_prop city_example_validated ''citySalaryData'' = Some (JArr cities' [])
         \<and> length cities' = 1
         \<and> get_prop (cities' ! 0) ''rolesSalaries''
             = Some (JArr [JObj [(''role'', JStr ''Eng''), (''minSalary'', JNum 4 0),
                                 (''medianSalary'', JNum 5 0), (''maxSalary'', JNum 6 0)]] [])
         \<and> get_prop (cities' ! 0) ''city'' = Some (JStr ''Pune''))"
proof -
  let ?cities = "[JObj [(''city'', JStr ''Pune''), (''avgSalary'', JNum 9 0),
                        (''rolesSalaries'',
                         JArr [JObj [(''role'', JStr []), (''minSalary'', JNum 1 0),
                                     (''medianSalary'', JNum 2 0), (''maxSalary'', JNum 3 0)],
                               JObj [(''role'', JStr ''Eng''), (''minSalary'', JNum 4 0),
                                     (''medianSalary'', JNum 5 0), (''maxSalary'', JNum 6 0)]]
                           [])]]"
  have v: "validateInsights rejecting_env city_example = Inr city_example_validated"
    by code_simp
  have g: "get_prop city_example ''citySalaryData'' = Some (JArr ?cities [])"
    by (simp add: city_example_def)
  have f: "filter valid_city ?cities = ?cities"
    by code_simp
  from citySalaryData_roles_filtered [OF v g]
  obtain cities' where c: "get_prop city_example_validated ''citySalaryData'' = Some (JArr cities' [])"
    and l: "length cities' = length (filter valid_city ?cities)"
    and r: "\<forall>i < length cities'.
                 get_prop (cities' ! i) ''rolesSalaries''
                   = Some (JArr
                       (case get_prop (filter valid_city ?cities ! i) ''rolesSalaries'' of
                          Some (JArr roles ex') \<Rightarrow>
                            filter (\<lambda>r. is_object r \<and> truthy_opt (get_prop r ''role'')
                                        \<and> number_or_string (get_prop r ''minSalary'')
                                        \<and> number_or_string (get_prop r ''medianSalary'')
                                        \<and> number_or_string (get_prop r ''maxSalary'')) roles
                        | _ \<Rightarrow> []) [])
                 \<and> (\<forall>k. k \<noteq> ''rolesSalaries''
                       \<longrightarrow> get_prop (cities' ! i) k = get_prop (filter valid_city ?cities ! i) k)"
    by blast
  from l have l1: "length cities' = 1" by (simp only: f) simp
  with r [unfolded f] have "get_prop (cities' ! 0) ''rolesSalaries''
             = Some (JArr [JObj [(''role'', JStr ''Eng''), (''minSalary'', JNum 4 0),
                                 (''medianSalary'', JNum 5 0), (''maxSalary'', JNum 6 0)]] [])"
    and "get_prop (cities' ! 0) ''city'' = Some (JStr ''Pune'')"
    by (simp_all add: number_or_string_def)
  with v c l1 show ?thesis by blast
qed

end
